(* ===== verification/Prelude.thy ===== *)
theory Prelude
  imports Main "HOL-Library.Sublist"
begin

text \<open>
  What every theory of the development shares: the names of the model's basic types, the
  collections the component proofs draw on, and generic lemmas on lists and results.

  A Go \<open>string\<close> or \<open>[]byte\<close> is a list of bytes, that is Isabelle's \<open>string\<close> (a list of
  8-bit characters); \<open>len\<close> is \<open>length\<close>. A Go function with an error result returns a value of
  \<open>'e + 'a\<close>, the error on the left.
\<close>

type_synonym bytes = string
type_synonym ('e, 'a) result = "'e + 'a"

named_theorems guards \<open>case splits and unfoldings of the code's early returns\<close>
named_theorems frame \<open>fields and effects an operation leaves alone\<close>

section \<open>Results\<close>

text \<open>\<open>if err != nil { return err }\<close> followed by the rest of a function.\<close>

fun and_then :: "('e, 'a) result \<Rightarrow> ('a \<Rightarrow> ('e, 'b) result) \<Rightarrow> ('e, 'b) result" where
  "and_then (Inl e) f = Inl e"
| "and_then (Inr x) f = f x"

fun is_ok :: "('e, 'a) result \<Rightarrow> bool" where
  "is_ok (Inl e) = False"
| "is_ok (Inr x) = True"

lemma and_then_Inr [guards]:
  "and_then r f = Inr y \<longleftrightarrow> (\<exists>x. r = Inr x \<and> f x = Inr y)"
  by (cases r) auto

lemma is_ok_iff: "is_ok r \<longleftrightarrow> (\<exists>x. r = Inr x)"
  by (cases r) auto

section \<open>Lists\<close>

fun last_index :: "'a \<Rightarrow> 'a list \<Rightarrow> nat option" where
  "last_index x [] = None"
| "last_index x (y # ys) =
     (case last_index x ys of
        Some i \<Rightarrow> Some (Suc i)
      | None \<Rightarrow> (if x = y then Some 0 else None))"

lemma last_index_None [simp]: "last_index x ys = None \<longleftrightarrow> x \<notin> set ys"
  by (induction ys) (auto split: option.splits)

lemma last_index_Some:
  "last_index x ys = Some i \<Longrightarrow> i < length ys \<and> ys ! i = x \<and> x \<notin> set (drop (Suc i) ys)"
  by (induction ys arbitrary: i) (auto split: option.splits if_splits)

lemma distinct_map_snoc:
  "distinct (map f (xs @ [x])) \<longleftrightarrow> distinct (map f xs) \<and> f x \<notin> f ` set xs"
  by auto

lemma takeWhile_all: "(\<And>x. x \<in> set xs \<Longrightarrow> P x) \<Longrightarrow> takeWhile P xs = xs"
  by (induction xs) auto

lemma length_dropWhile_le: "length (dropWhile P xs) \<le> length xs"
  by (induction xs) auto

end
