(* ===== verification/Go_Utf8.thy ===== *)
theory Go_Utf8
  imports Go_Text
begin

text \<open>
  Go's \<open>unicode/utf8\<close>: \<open>rune_len\<close> is the size \<open>DecodeRune\<close> reports for the encoding at the head
  of a byte string, or 0 where it reports an invalid one (Go then skips a single byte), and
  \<open>encode_rune\<close> is \<open>EncodeRune\<close> on a scalar value. \<open>valid_utf8\<close> is \<open>utf8.Valid\<close>.
\<close>

definition in_range :: "nat \<Rightarrow> nat \<Rightarrow> char \<Rightarrow> bool" where
  "in_range lo hi c \<longleftrightarrow> lo \<le> chr_code c \<and> chr_code c \<le> hi"

abbreviation cont_byte :: "char \<Rightarrow> bool" where
  "cont_byte \<equiv> in_range 0x80 0xBF"

definition second_lo :: "nat \<Rightarrow> nat" where
  "second_lo x = (if x = 0xE0 then 0xA0 else if x = 0xF0 then 0x90 else 0x80)"

definition second_hi :: "nat \<Rightarrow> nat" where
  "second_hi x = (if x = 0xED then 0x9F else if x = 0xF4 then 0x8F else 0xBF)"

fun rune_len :: "string \<Rightarrow> nat" where
  "rune_len [] = 0"
| "rune_len (a # s) =
     (let x = chr_code a in
      if x < 0x80 then 1
      else if 0xC2 \<le> x \<and> x \<le> 0xDF then
        (case s of b # _ \<Rightarrow> if cont_byte b then 2 else 0 | _ \<Rightarrow> 0)
      else if 0xE0 \<le> x \<and> x \<le> 0xEF then
        (case s of b # c # _ \<Rightarrow>
             if in_range (second_lo x) (second_hi x) b \<and> cont_byte c then 3 else 0
         | _ \<Rightarrow> 0)
      else if 0xF0 \<le> x \<and> x \<le> 0xF4 then
        (case s of b # c # d # _ \<Rightarrow>
             if in_range (second_lo x) (second_hi x) b \<and> cont_byte c \<and> cont_byte d then 4 else 0
         | _ \<Rightarrow> 0)
      else 0)"

declare rune_len.simps(2) [simp del]

definition encode_rune :: "nat \<Rightarrow> string" where
  "encode_rune n =
     (if n < 0x80 then [char_of n]
      else if n < 0x800 then [char_of (0xC0 + n div 64), char_of (0x80 + n mod 64)]
      else if n < 0x10000 then
        [char_of (0xE0 + n div 4096), char_of (0x80 + n div 64 mod 64), char_of (0x80 + n mod 64)]
      else
        [char_of (0xF0 + n div 262144), char_of (0x80 + n div 4096 mod 64),
         char_of (0x80 + n div 64 mod 64), char_of (0x80 + n mod 64)])"

definition surrogate :: "nat \<Rightarrow> bool" where
  "surrogate n \<longleftrightarrow> 0xD800 \<le> n \<and> n \<le> 0xDFFF"

definition replacement :: string where
  "replacement = [CHR 0xEF, CHR 0xBF, CHR 0xBD]"

function valid_utf8 :: "string \<Rightarrow> bool" where
  "valid_utf8 s =
     (if s = [] then True
      else if rune_len s = 0 then False
      else valid_utf8 (drop (rune_len s) s))"
  by pat_completeness auto
termination
  by (relation "measure length") auto

declare valid_utf8.simps [simp del]

section \<open>Facts\<close>

lemma rune_len_ascii: "chr_code a < 0x80 \<Longrightarrow> rune_len (a # s) = 1"
  by (simp add: rune_len.simps(2))

lemma rune_len_le: "rune_len s \<le> length s"
proof (cases s)
  case (Cons a t)
  then show ?thesis
    by (simp add: rune_len.simps(2) Let_def split: list.splits)
qed simp

lemma rune_len_cons_le: "rune_len (a # s) \<le> Suc (length s)"
  using rune_len_le [of "a # s"] by simp

lemma rune_len_high: "chr_code a \<ge> 0x80 \<Longrightarrow> rune_len (a # s) \<noteq> 1"
  by (simp add: rune_len.simps(2) Let_def split: list.splits)

text \<open>The head's encoding is recognised whatever follows it.\<close>

lemma rune_len_prefix:
  assumes "0 < rune_len s"
  shows "rune_len (take (rune_len s) s @ t) = rune_len s"
proof (cases s)
  case (Cons a u)
  then show ?thesis using assms
    by (auto simp: rune_len.simps(2) Let_def split: list.splits if_splits)
qed (use assms in simp)

text \<open>What \<open>EncodeRune\<close> writes is decoded at its full length.\<close>

lemma rune_len_two:
  "2 \<le> a \<Longrightarrow> a < 32 \<Longrightarrow> b < 64 \<Longrightarrow>
     rune_len (char_of (0xC0 + a) # char_of (0x80 + b) # t) = 2" for a b :: nat
  by (simp add: rune_len.simps(2) in_range_def)

lemma rune_len_three:
  "a < 16 \<Longrightarrow> b < 64 \<Longrightarrow> c < 64 \<Longrightarrow> (a = 0 \<Longrightarrow> 32 \<le> b) \<Longrightarrow> (a = 13 \<Longrightarrow> b < 32) \<Longrightarrow>
     rune_len (char_of (0xE0 + a) # char_of (0x80 + b) # char_of (0x80 + c) # t) = 3" for a b c :: nat
  by (simp add: rune_len.simps(2) in_range_def second_lo_def second_hi_def Let_def) auto

lemma rune_len_four:
  "a \<le> 4 \<Longrightarrow> b < 64 \<Longrightarrow> c < 64 \<Longrightarrow> d < 64 \<Longrightarrow> (a = 0 \<Longrightarrow> 16 \<le> b) \<Longrightarrow> (a = 4 \<Longrightarrow> b < 16) \<Longrightarrow>
     rune_len (char_of (0xF0 + a) # char_of (0x80 + b) # char_of (0x80 + c) # char_of (0x80 + d) # t) = 4"
  for a b c d :: nat
  by (simp add: rune_len.simps(2) in_range_def second_lo_def second_hi_def Let_def) auto

lemma encode_rune_len:
  assumes "n \<le> 0x10FFFF" and "\<not> surrogate n"
  shows "rune_len (encode_rune n @ t) = length (encode_rune n)"
proof -
  consider "n < 0x80" | "0x80 \<le> n" "n < 0x800" | "0x800 \<le> n" "n < 0x10000" | "0x10000 \<le> n"
    by linarith
  then show ?thesis
  proof cases
    case 1
    then show ?thesis by (simp add: encode_rune_def rune_len.simps(2))
  next
    case 2
    have "2 \<le> n div 64" "n div 64 < 32" "n mod 64 < 64" using 2 by auto
    then show ?thesis using 2 rune_len_two by (simp add: encode_rune_def)
  next
    case 3
    have n: "n div 64 = 64 * (n div 4096) + n div 64 mod 64"
      using div_mult2_eq [of n 64 64] mult_div_mod_eq [of 64 "n div 64"] by simp
    have lo: "n div 4096 = 0 \<Longrightarrow> 32 \<le> n div 64 mod 64" using n 3(1) by linarith
    have hi: "n div 64 mod 64 < 32" if "n div 4096 = 13"
    proof (rule ccontr)
      assume "\<not> n div 64 mod 64 < 32"
      moreover have "n div 64 mod 64 < 64" by simp
      ultimately have "64 * 13 + 32 \<le> n div 64" "n div 64 < 64 * 14" using n that by linarith+
      then show False using assms(2) by (auto simp: surrogate_def)
    qed
    have "n div 4096 < 16" using 3 by auto
    from rune_len_three [OF this _ _ lo hi]
    have r: "rune_len (char_of (0xE0 + n div 4096) # char_of (0x80 + n div 64 mod 64) #
        char_of (0x80 + n mod 64) # t) = 3" by simp
    have "encode_rune n = [char_of (0xE0 + n div 4096), char_of (0x80 + n div 64 mod 64),
        char_of (0x80 + n mod 64)]" using 3 by (simp add: encode_rune_def)
    then show ?thesis by (simp only: append_Cons append_Nil r) simp
  next
    case 4
    have n: "n div 4096 = 64 * (n div 262144) + n div 4096 mod 64"
      using div_mult2_eq [of n 4096 64] mult_div_mod_eq [of 64 "n div 4096"] by simp
    have lo: "n div 262144 = 0 \<Longrightarrow> 16 \<le> n div 4096 mod 64" using n 4 by linarith
    have "n div 4096 \<le> 0x10F" using assms(1) by auto
    then have hi: "n div 262144 = 4 \<Longrightarrow> n div 4096 mod 64 < 16" using n by linarith
    have "n div 262144 \<le> 4" using assms(1) by auto
    from rune_len_four [OF this _ _ _ lo hi]
    have r: "rune_len (char_of (0xF0 + n div 262144) # char_of (0x80 + n div 4096 mod 64) #
        char_of (0x80 + n div 64 mod 64) # char_of (0x80 + n mod 64) # t) = 4" by simp
    have "encode_rune n = [char_of (0xF0 + n div 262144), char_of (0x80 + n div 4096 mod 64),
        char_of (0x80 + n div 64 mod 64), char_of (0x80 + n mod 64)]"
      using 4 by (simp add: encode_rune_def)
    then show ?thesis by (simp only: append_Cons append_Nil r) simp
  qed
qed

lemma encode_rune_nonempty [simp]: "encode_rune n \<noteq> []"
  by (simp add: encode_rune_def)

lemma replacement_len: "rune_len (replacement @ t) = length replacement"
  by (simp add: replacement_def rune_len.simps(2) in_range_def second_lo_def second_hi_def)

lemma valid_utf8_Nil [simp]: "valid_utf8 []"
  by (simp add: valid_utf8.simps)

lemma valid_utf8_rune:
  assumes "rune_len (e @ t) = length e" and "e \<noteq> []" and "valid_utf8 t"
  shows "valid_utf8 (e @ t)"
  using assms by (simp add: valid_utf8.simps [of "e @ t"])

lemma valid_utf8_encode:
  "n \<le> 0x10FFFF \<Longrightarrow> \<not> surrogate n \<Longrightarrow> valid_utf8 t \<Longrightarrow> valid_utf8 (encode_rune n @ t)"
  by (rule valid_utf8_rune) (auto simp: encode_rune_len)

lemma valid_utf8_replacement: "valid_utf8 t \<Longrightarrow> valid_utf8 (replacement @ t)"
  by (rule valid_utf8_rune) (auto simp: replacement_len, simp add: replacement_def)

lemma valid_utf8_take:
  assumes "0 < rune_len s" and "valid_utf8 t"
  shows "valid_utf8 (take (rune_len s) s @ t)"
proof (rule valid_utf8_rune)
  show "rune_len (take (rune_len s) s @ t) = length (take (rune_len s) s)"
    using rune_len_prefix [OF assms(1)] rune_len_le [of s] by simp
  show "take (rune_len s) s \<noteq> []" using assms(1) by (cases s) auto
qed (rule assms(2))

end
