(* ===== verification/Go_Json.thy ===== *)
theory Go_Json
  imports Go_Utf8
begin

text \<open>
  Go's \<open>encoding/json\<close> as the source uses it. Writing: \<open>quote\<close> is the string encoder of
  \<open>json.Marshal\<close> (HTML escaping on). Reading: \<open>read_value\<close> is \<open>Decoder.Decode\<close>'s scan of
  the first JSON value, a push-down machine over tokens as Go's scanner is one over bytes,
  including its limit of 10000 nested arrays and objects and the replacement of invalid UTF-8 and
  lone surrogates in strings; \<open>decoder_more\<close> is \<open>Decoder.More\<close>. Numbers are checked but carry no
  value: no field the source decodes is a number.
\<close>

section \<open>Writing a string\<close>

definition hex_digit :: "nat \<Rightarrow> char" where
  "hex_digit n = (if n < 10 then char_of (48 + n) else char_of (87 + n))"

text \<open>\<open>htmlSafeSet\<close>: printable ASCII but the quote, the backslash and <, >, &.\<close>

definition html_safe :: "char \<Rightarrow> bool" where
  "html_safe c \<longleftrightarrow>
     0x20 \<le> chr_code c \<and> chr_code c < 0x80 \<and>
     c \<notin> {CHR 0x22, CHR 0x5C, CHR ''<'', CHR ''>'', CHR ''&''}"

definition escape_ascii :: "char \<Rightarrow> string" where
  "escape_ascii c =
     (if c = CHR 0x5C \<or> c = CHR 0x22 then [CHR 0x5C, c]
      else if c = CHR 0x08 then [CHR 0x5C, CHR ''b'']
      else if c = CHR 0x0C then [CHR 0x5C, CHR ''f'']
      else if c = CHR 0x0A then [CHR 0x5C, CHR ''n'']
      else if c = CHR 0x0D then [CHR 0x5C, CHR ''r'']
      else if c = CHR 0x09 then [CHR 0x5C, CHR ''t'']
      else [CHR 0x5C, CHR ''u'', CHR ''0'', CHR ''0'',
            hex_digit (chr_code c div 16), hex_digit (chr_code c mod 16)])"

function quote_body :: "string \<Rightarrow> string" where
  "quote_body [] = []"
| "quote_body (c # s) =
     (if chr_code c < 0x80 then
        (if html_safe c then [c] else escape_ascii c) @ quote_body s
      else if rune_len (c # s) = 0 then
        [CHR 0x5C, CHR ''u'', CHR ''f'', CHR ''f'', CHR ''f'', CHR ''d''] @ quote_body s
      else let r = take (rune_len (c # s)) (c # s); t = drop (rune_len (c # s)) (c # s) in
        (if r = [CHR 0xE2, CHR 0x80, CHR 0xA8] then
           [CHR 0x5C, CHR ''u'', CHR ''2'', CHR ''0'', CHR ''2'', CHR ''8'']
         else if r = [CHR 0xE2, CHR 0x80, CHR 0xA9] then
           [CHR 0x5C, CHR ''u'', CHR ''2'', CHR ''0'', CHR ''2'', CHR ''9'']
         else r) @ quote_body t)"
  by pat_completeness auto
termination
  by (relation "measure length") auto

declare quote_body.simps(2) [simp del]

definition quote :: "string \<Rightarrow> string" where
  "quote s = CHR 0x22 # quote_body s @ [CHR 0x22]"

section \<open>Tokens\<close>

datatype jtok =
    TLBrace | TRBrace | TLBrack | TRBrack | TComma | TColon
  | TStr string | TNum | TTrue | TFalse | TNull

definition is_space :: "char \<Rightarrow> bool" where
  "is_space c \<longleftrightarrow> c = CHR '' '' \<or> c = CHR 0x09 \<or> c = CHR 0x0D \<or> c = CHR 0x0A"

definition hex_val :: "char \<Rightarrow> nat option" where
  "hex_val c =
     (let x = chr_code c in
      if 48 \<le> x \<and> x \<le> 57 then Some (x - 48)
      else if 97 \<le> x \<and> x \<le> 102 then Some (x - 87)
      else if 65 \<le> x \<and> x \<le> 70 then Some (x - 55)
      else None)"

fun getu4 :: "string \<Rightarrow> (nat \<times> string) option" where
  "getu4 (a # b # c # d # r) =
     (case (hex_val a, hex_val b, hex_val c, hex_val d) of
        (Some w, Some x, Some y, Some z) \<Rightarrow> Some (4096 * w + 256 * x + 16 * y + z, r)
      | _ \<Rightarrow> None)"
| "getu4 _ = None"

text \<open>The low half of a surrogate pair, if the text goes on with one.\<close>

fun low_surrogate :: "string \<Rightarrow> (nat \<times> string) option" where
  "low_surrogate (a # b # r) =
     (if a = CHR 0x5C \<and> b = CHR ''u'' then
        (case getu4 r of
           Some (n, t) \<Rightarrow> if 0xDC00 \<le> n \<and> n \<le> 0xDFFF then Some (n, t) else None
         | None \<Rightarrow> None)
      else None)"
| "low_surrogate _ = None"

text \<open>An escape, after its backslash: the bytes it stands for and the rest.\<close>

definition unescape_u :: "string \<Rightarrow> (string \<times> string) option" where
  "unescape_u s =
     (case getu4 s of
        None \<Rightarrow> None
      | Some (n, r) \<Rightarrow>
          if surrogate n then
            (case low_surrogate r of
               Some (m, t) \<Rightarrow>
                 if n < 0xDC00
                 then Some (encode_rune (0x10000 + (n - 0xD800) * 1024 + (m - 0xDC00)), t)
                 else Some (replacement, r)
             | None \<Rightarrow> Some (replacement, r))
          else Some (encode_rune n, r))"

fun unescape :: "string \<Rightarrow> (string \<times> string) option" where
  "unescape [] = None"
| "unescape (c # s) =
     (if c = CHR 0x22 \<or> c = CHR 0x5C \<or> c = CHR ''/'' then Some ([c], s)
      else if c = CHR ''b'' then Some ([CHR 0x08], s)
      else if c = CHR ''f'' then Some ([CHR 0x0C], s)
      else if c = CHR ''n'' then Some ([CHR 0x0A], s)
      else if c = CHR ''r'' then Some ([CHR 0x0D], s)
      else if c = CHR ''t'' then Some ([CHR 0x09], s)
      else if c = CHR ''u'' then unescape_u s
      else None)"

lemma getu4_shorter: "getu4 s = Some (n, r) \<Longrightarrow> length r < length s"
  by (induction s rule: getu4.induct) (auto split: option.splits)

lemma low_surrogate_shorter: "low_surrogate s = Some (n, r) \<Longrightarrow> length r < length s"
  by (induction s rule: low_surrogate.induct)
    (auto split: option.splits if_splits dest!: getu4_shorter)

lemma unescape_shorter: "unescape s = Some (e, r) \<Longrightarrow> length r < length s"
  by (cases s)
    (auto simp: unescape_u_def split: option.splits if_splits
      dest!: getu4_shorter low_surrogate_shorter)

text \<open>A string, after its opening quote.\<close>

definition push :: "string \<Rightarrow> (string \<times> string) option \<Rightarrow> (string \<times> string) option" where
  "push e = map_option (\<lambda>(t, r). (e @ t, r))"

function lex_string :: "string \<Rightarrow> (string \<times> string) option" where
  "lex_string [] = None"
| "lex_string (c # s) =
     (if c = CHR 0x22 then Some ([], s)
      else if c = CHR 0x5C then
        (case unescape s of None \<Rightarrow> None | Some (e, r) \<Rightarrow> push e (lex_string r))
      else if chr_code c < 0x20 then None
      else if rune_len (c # s) = 0 then push replacement (lex_string s)
      else push (take (rune_len (c # s)) (c # s))
             (lex_string (drop (rune_len (c # s)) (c # s))))"
  by pat_completeness auto
termination
  by (relation "measure length") (auto dest!: unescape_shorter)

declare lex_string.simps(2) [simp del]

lemma lex_string_shorter: "lex_string s = Some (t, r) \<Longrightarrow> length r < length s"
proof (induction s arbitrary: t r rule: lex_string.induct)
  case (2 c s)
  show ?case
  proof (cases "c = CHR 0x5C")
    case True
    with "2.prems" obtain e u where u: "unescape s = Some (e, u)" "push e (lex_string u) = Some (t, r)"
      by (auto simp: lex_string.simps(2) split: option.splits)
    then obtain t' where "lex_string u = Some (t', r)" by (auto simp: push_def)
    with "2.IH"(1) True u(1) have "length r < length u" by auto
    then show ?thesis using unescape_shorter [OF u(1)] by simp
  next
    case False
    have "lex_string (drop (rune_len (c # s)) (c # s)) = Some (t', r) \<Longrightarrow> 0 < rune_len (c # s) \<Longrightarrow>
        length r < Suc (length s)" for t'
      using "2.IH"(3) False "2.prems" by (fastforce simp: lex_string.simps(2) split: if_splits)
    then show ?thesis using False "2.prems" "2.IH"(2)
      by (fastforce simp: lex_string.simps(2) push_def split: if_splits)
  qed
qed simp

text \<open>A number: the rest after it.\<close>

definition lex_int :: "string \<Rightarrow> string option" where
  "lex_int s =
     (case s of [] \<Rightarrow> None
      | c # r \<Rightarrow> if c = CHR ''0'' then Some r
                 else if is_digit c then Some (dropWhile is_digit r) else None)"

definition lex_digits :: "string \<Rightarrow> string option" where
  "lex_digits s =
     (case s of [] \<Rightarrow> None
      | c # r \<Rightarrow> if is_digit c then Some (dropWhile is_digit r) else None)"

definition lex_frac :: "string \<Rightarrow> string option" where
  "lex_frac s =
     (case s of [] \<Rightarrow> Some []
      | c # r \<Rightarrow> if c = CHR ''.'' then lex_digits r else Some s)"

definition lex_exp :: "string \<Rightarrow> string option" where
  "lex_exp s =
     (case s of [] \<Rightarrow> Some []
      | c # r \<Rightarrow>
          if c = CHR ''e'' \<or> c = CHR ''E'' then
            lex_digits (case r of [] \<Rightarrow> []
                        | d # u \<Rightarrow> if d = CHR ''+'' \<or> d = CHR ''-'' then u else r)
          else Some s)"

definition lex_number :: "string \<Rightarrow> string option" where
  "lex_number s =
     (let s1 = (case s of [] \<Rightarrow> [] | c # r \<Rightarrow> if c = CHR ''-'' then r else s)
      in Option.bind (lex_int s1) (\<lambda>r. Option.bind (lex_frac r) lex_exp))"

text \<open>The next token, after spaces.\<close>

definition keyword :: "string \<Rightarrow> jtok \<Rightarrow> string \<Rightarrow> (jtok \<times> string) option" where
  "keyword w t s = (if HasPrefix s w then Some (t, drop (length w) s) else None)"

fun token_at :: "string \<Rightarrow> (jtok \<times> string) option" where
  "token_at [] = None"
| "token_at (c # s) =
     (if c = CHR ''{'' then Some (TLBrace, s)
      else if c = CHR ''}'' then Some (TRBrace, s)
      else if c = CHR ''['' then Some (TLBrack, s)
      else if c = CHR '']'' then Some (TRBrack, s)
      else if c = CHR '','' then Some (TComma, s)
      else if c = CHR '':'' then Some (TColon, s)
      else if c = CHR 0x22 then map_option (\<lambda>(t, r). (TStr t, r)) (lex_string s)
      else if c = CHR ''t'' then keyword ''true'' TTrue (c # s)
      else if c = CHR ''f'' then keyword ''false'' TFalse (c # s)
      else if c = CHR ''n'' then keyword ''null'' TNull (c # s)
      else map_option (\<lambda>r. (TNum, r)) (lex_number (c # s)))"

definition next_token :: "string \<Rightarrow> (jtok \<times> string) option" where
  "next_token s = token_at (dropWhile is_space s)"

lemma lex_digits_shorter: "lex_digits s = Some r \<Longrightarrow> length r < length s"
  using length_dropWhile_le [of is_digit "tl s"]
  by (auto simp: lex_digits_def split: list.splits if_splits)

lemma lex_int_shorter: "lex_int s = Some r \<Longrightarrow> length r < length s"
  using length_dropWhile_le [of is_digit "tl s"]
  by (auto simp: lex_int_def split: list.splits if_splits)

lemma lex_frac_le: "lex_frac s = Some r \<Longrightarrow> length r \<le> length s"
  by (auto simp: lex_frac_def split: list.splits if_splits dest!: lex_digits_shorter)

lemma lex_exp_le: "lex_exp s = Some r \<Longrightarrow> length r \<le> length s"
  by (auto simp: lex_exp_def split: list.splits if_splits dest!: lex_digits_shorter)

lemma lex_number_shorter: "lex_number s = Some r \<Longrightarrow> length r < length s"
  by (fastforce simp: lex_number_def bind_eq_Some_conv split: list.splits if_splits
      dest!: lex_int_shorter lex_frac_le lex_exp_le)

lemma token_at_shorter: "token_at s = Some (t, r) \<Longrightarrow> length r < length s"
  by (cases s)
    (auto simp: keyword_def split: if_splits dest!: lex_string_shorter lex_number_shorter)

lemma next_token_shorter: "next_token s = Some (t, r) \<Longrightarrow> length r < length s"
  using length_dropWhile_le [of is_space s]
  by (auto simp: next_token_def dest!: token_at_shorter)

section \<open>Values\<close>

datatype json =
    JNull | JBool bool | JNum | JStr string
  | JArr "json list"
  | JObj "(string \<times> json) list"

text \<open>
  An open array holds the elements read so far, newest first; an open object its members, and
  once a key is read, the key. The mode says what may come next.
\<close>

datatype frame =
    FArr "json list"
  | FObj "(string \<times> json) list"
  | FKey "(string \<times> json) list" string

datatype mode = MValue | MValueOrEnd | MKey | MKeyOrEnd | MColon | MDone json

definition max_nesting :: nat where
  "max_nesting = 10000"

text \<open>A token where a value may start.\<close>

fun start_value :: "frame list \<Rightarrow> jtok \<Rightarrow> (mode \<times> frame list) option" where
  "start_value stk TLBrace =
     (if length stk < max_nesting then Some (MKeyOrEnd, FObj [] # stk) else None)"
| "start_value stk TLBrack =
     (if length stk < max_nesting then Some (MValueOrEnd, FArr [] # stk) else None)"
| "start_value stk (TStr s) = Some (MDone (JStr s), stk)"
| "start_value stk TNum = Some (MDone JNum, stk)"
| "start_value stk TTrue = Some (MDone (JBool True), stk)"
| "start_value stk TFalse = Some (MDone (JBool False), stk)"
| "start_value stk TNull = Some (MDone JNull, stk)"
| "start_value stk _ = None"

text \<open>A token after a complete value inside an array or an object.\<close>

fun end_value :: "json \<Rightarrow> frame list \<Rightarrow> jtok \<Rightarrow> (mode \<times> frame list) option" where
  "end_value v (FArr es # stk) TComma = Some (MValue, FArr (v # es) # stk)"
| "end_value v (FArr es # stk) TRBrack = Some (MDone (JArr (rev (v # es))), stk)"
| "end_value v (FKey ms k # stk) TComma = Some (MKey, FObj ((k, v) # ms) # stk)"
| "end_value v (FKey ms k # stk) TRBrace = Some (MDone (JObj (rev ((k, v) # ms))), stk)"
| "end_value _ _ _ = None"

definition read_key :: "frame list \<Rightarrow> jtok \<Rightarrow> (mode \<times> frame list) option" where
  "read_key stk t =
     (case (stk, t) of
        (FObj ms # u, TStr k) \<Rightarrow> Some (MColon, FKey ms k # u)
      | _ \<Rightarrow> None)"

definition close_empty :: "frame list \<Rightarrow> jtok \<Rightarrow> (mode \<times> frame list) option" where
  "close_empty stk t =
     (case (stk, t) of
        (FArr [] # u, TRBrack) \<Rightarrow> Some (MDone (JArr []), u)
      | (FObj [] # u, TRBrace) \<Rightarrow> Some (MDone (JObj []), u)
      | _ \<Rightarrow> None)"

fun jstep :: "mode \<Rightarrow> frame list \<Rightarrow> jtok \<Rightarrow> (mode \<times> frame list) option" where
  "jstep MValue stk t = start_value stk t"
| "jstep MValueOrEnd stk t =
     (case close_empty stk t of Some c \<Rightarrow> Some c | None \<Rightarrow> start_value stk t)"
| "jstep MKey stk t = read_key stk t"
| "jstep MKeyOrEnd stk t =
     (case close_empty stk t of Some c \<Rightarrow> Some c | None \<Rightarrow> read_key stk t)"
| "jstep MColon stk t = (if t = TColon then Some (MValue, stk) else None)"
| "jstep (MDone v) stk t = end_value v stk t"

text \<open>The first value of the input and what is left after it.\<close>

function read_value :: "mode \<Rightarrow> frame list \<Rightarrow> string \<Rightarrow> (json \<times> string) option" where
  "read_value m stk s =
     (case (m, stk) of
        (MDone v, []) \<Rightarrow> Some (v, s)
      | _ \<Rightarrow>
          (case next_token s of
             None \<Rightarrow> None
           | Some (t, r) \<Rightarrow>
               (case jstep m stk t of
                  None \<Rightarrow> None
                | Some (m', stk') \<Rightarrow> read_value m' stk' r)))"
  by pat_completeness auto
termination
  by (relation "measure (\<lambda>(m, stk, s). length s)") (auto dest!: next_token_shorter)

declare read_value.simps [simp del]

text \<open>\<open>Decoder.More\<close>: the next byte after spaces is neither the end, nor ] nor }.\<close>

definition decoder_more :: "string \<Rightarrow> bool" where
  "decoder_more s =
     (case dropWhile is_space s of [] \<Rightarrow> False | c # _ \<Rightarrow> c \<noteq> CHR '']'' \<and> c \<noteq> CHR ''}'')"

section \<open>Facts: running the machine\<close>

lemma read_value_done: "read_value (MDone v) [] s = Some (v, s)"
  by (simp add: read_value.simps)

lemma read_value_token:
  assumes "next_token s = Some (t, r)" and "jstep m stk t = Some (m', stk')"
    and "stk \<noteq> [] \<or> (\<forall>v. m \<noteq> MDone v)"
  shows "read_value m stk s = read_value m' stk' r"
  using assms by (subst read_value.simps) (auto split: mode.splits list.splits)

lemma next_token_punct [simp]:
  "next_token (CHR ''{'' # s) = Some (TLBrace, s)"
  "next_token (CHR ''}'' # s) = Some (TRBrace, s)"
  "next_token (CHR ''['' # s) = Some (TLBrack, s)"
  "next_token (CHR '']'' # s) = Some (TRBrack, s)"
  "next_token (CHR '','' # s) = Some (TComma, s)"
  "next_token (CHR '':'' # s) = Some (TColon, s)"
  by (simp_all add: next_token_def is_space_def)

section \<open>Facts: a string written and read back\<close>

lemma push_Some [simp]: "push e (Some (t, r)) = Some (e @ t, r)"
  by (simp add: push_def)

lemma hex_val_digit: "n < 16 \<Longrightarrow> hex_val (hex_digit n) = Some n"
  by (auto simp: hex_val_def hex_digit_def Let_def)

lemma lex_string_escape:
  "unescape s = Some (e, r) \<Longrightarrow> lex_string (CHR 0x5C # s) = push e (lex_string r)"
  by (simp add: lex_string.simps(2))

lemma lex_string_rune:
  assumes "rune_len (e @ r) = length e" and "e = c # u"
    and "0x20 \<le> chr_code c" and "c \<noteq> CHR 0x22" and "c \<noteq> CHR 0x5C"
  shows "lex_string (e @ r) = push e (lex_string r)"
  using assms by (simp add: lex_string.simps(2))

lemma lex_string_take:
  assumes "0 < rune_len (c # u)" and "0x20 \<le> chr_code c" and "c \<noteq> CHR 0x22" and "c \<noteq> CHR 0x5C"
  shows "lex_string (take (rune_len (c # u)) (c # u) @ r) =
    push (take (rune_len (c # u)) (c # u)) (lex_string r)"
proof (rule lex_string_rune)
  let ?e = "take (rune_len (c # u)) (c # u)"
  show "rune_len (?e @ r) = length ?e"
    using rune_len_prefix [OF assms(1), of r] rune_len_le [of "c # u"] by simp
  show "?e = c # take (rune_len (c # u) - 1) u" using assms(1) by (cases "rune_len (c # u)") auto
qed (use assms in auto)

lemma unescape_u00:
  assumes "m < 8" and "n < 16"
  shows "unescape (CHR ''u'' # CHR ''0'' # CHR ''0'' # hex_digit m # hex_digit n # r) =
    Some ([char_of (16 * m + n)], r)"
proof -
  have "hex_val (CHR ''0'') = Some 0" by (simp add: hex_val_def)
  then show ?thesis using assms
    by (simp add: unescape_u_def hex_val_digit surrogate_def encode_rune_def)
qed

lemma unescape_line_separators:
  "unescape (CHR ''u'' # CHR ''2'' # CHR ''0'' # CHR ''2'' # CHR ''8'' # r) =
     Some ([CHR 0xE2, CHR 0x80, CHR 0xA8], r)"
  "unescape (CHR ''u'' # CHR ''2'' # CHR ''0'' # CHR ''2'' # CHR ''9'' # r) =
     Some ([CHR 0xE2, CHR 0x80, CHR 0xA9], r)"
  by (simp_all add: unescape_u_def hex_val_def surrogate_def encode_rune_def Let_def char_of_def bit_0)

lemma lex_short_escape:
  "lex_string (CHR 0x5C # CHR ''b'' # r) = push [CHR 0x08] (lex_string r)"
  "lex_string (CHR 0x5C # CHR ''f'' # r) = push [CHR 0x0C] (lex_string r)"
  "lex_string (CHR 0x5C # CHR ''n'' # r) = push [CHR 0x0A] (lex_string r)"
  "lex_string (CHR 0x5C # CHR ''r'' # r) = push [CHR 0x0D] (lex_string r)"
  "lex_string (CHR 0x5C # CHR ''t'' # r) = push [CHR 0x09] (lex_string r)"
  "lex_string (CHR 0x5C # CHR 0x5C # r) = push [CHR 0x5C] (lex_string r)"
  "lex_string (CHR 0x5C # CHR 0x22 # r) = push [CHR 0x22] (lex_string r)"
  by (simp_all add: lex_string.simps(2))

lemma lex_escape_ascii:
  assumes "chr_code c < 0x80"
  shows "lex_string (escape_ascii c @ r) = push [c] (lex_string r)"
proof -
  have "unescape (CHR ''u'' # CHR ''0'' # CHR ''0'' # hex_digit (chr_code c div 16) #
      hex_digit (chr_code c mod 16) # r) = Some ([c], r)"
    using unescape_u00 [of "chr_code c div 16" "chr_code c mod 16" r] assms by simp
  from lex_string_escape [OF this] show ?thesis
    by (simp add: escape_ascii_def lex_short_escape)
qed

lemma lex_quote_body:
  "valid_utf8 s \<Longrightarrow> lex_string (quote_body s @ CHR 0x22 # r) = Some (s, r)"
proof (induction s rule: quote_body.induct)
  case 1
  then show ?case by (simp add: lex_string.simps(2))
next
  case (2 c s)
  let ?n = "rune_len (c # s)"
  have n: "0 < ?n" and v: "valid_utf8 (drop ?n (c # s))"
    using "2.prems" by (simp_all add: valid_utf8.simps [of "c # s"] split: if_splits)
  show ?case
  proof (cases "chr_code c < 0x80")
    case True
    then have one: "?n = 1" by (rule rune_len_ascii)
    have IH: "lex_string (quote_body s @ CHR 0x22 # r) = Some (s, r)"
      using "2.IH"(1) True v one by simp
    have "lex_string ([c] @ t) = push [c] (lex_string t)" if "html_safe c" for t
      using that by (intro lex_string_rune) (auto simp: html_safe_def rune_len_ascii)
    then show ?thesis using True IH lex_escape_ascii [OF True]
      by (simp add: quote_body.simps(2))
  next
    case False
    let ?e = "take ?n (c # s)" and ?t = "drop ?n (c # s)"
    have IH: "lex_string (quote_body ?t @ CHR 0x22 # r) = Some (?t, r)"
      using "2.IH"(3) False n v by simp
    have e: "lex_string (?e @ u) = push ?e (lex_string u)" for u
      using n False by (intro lex_string_take) auto
    have "lex_string (quote_body (c # s) @ CHR 0x22 # r) =
        push ?e (lex_string (quote_body ?t @ CHR 0x22 # r))"
      using False n e
      by (auto simp: quote_body.simps(2) Let_def lex_string_escape [OF unescape_line_separators(1)]
          lex_string_escape [OF unescape_line_separators(2)])
    then show ?thesis using IH by simp
  qed
qed

lemma next_token_quote: "valid_utf8 s \<Longrightarrow> next_token (quote s @ r) = Some (TStr s, r)"
  by (simp add: next_token_def is_space_def quote_def lex_quote_body)

section \<open>Facts: what is read is valid UTF-8\<close>

lemma hex_val_less: "hex_val c = Some n \<Longrightarrow> n < 16"
  by (auto simp: hex_val_def Let_def split: if_splits)

lemma getu4_less: "getu4 s = Some (n, r) \<Longrightarrow> n < 0x10000"
  by (induction s rule: getu4.induct)
    (auto split: option.splits dest!: hex_val_less)

lemma low_surrogate_range: "low_surrogate s = Some (n, r) \<Longrightarrow> 0xDC00 \<le> n \<and> n \<le> 0xDFFF"
  by (induction s rule: low_surrogate.induct) (auto split: option.splits if_splits)

lemma unescape_u_valid:
  assumes "unescape_u s = Some (e, r)" and "valid_utf8 t"
  shows "valid_utf8 (e @ t)"
proof -
  obtain n u where n: "getu4 s = Some (n, u)"
    using assms(1) by (auto simp: unescape_u_def split: option.splits)
  have b: "n < 0x10000" using n by (rule getu4_less)
  consider "\<not> surrogate n" "e = encode_rune n" | "e = replacement"
    | m v where "surrogate n" "low_surrogate u = Some (m, v)" "n < 0xDC00"
        "e = encode_rune (0x10000 + (n - 0xD800) * 1024 + (m - 0xDC00))"
    using assms(1) n by (auto simp: unescape_u_def split: option.splits if_splits)
  then show ?thesis
  proof cases
    case 1
    then show ?thesis using b assms(2) by (simp add: valid_utf8_encode)
  next
    case 2
    then show ?thesis using assms(2) by (simp add: valid_utf8_replacement)
  next
    case 3
    have "0xD800 \<le> n" using 3(1) by (simp add: surrogate_def)
    then have "0x10000 + (n - 0xD800) * 1024 + (m - 0xDC00) \<le> 0x10FFFF"
      using low_surrogate_range [OF 3(2)] 3(3) by auto
    then show ?thesis using 3(4) assms(2) by (simp add: valid_utf8_encode surrogate_def)
  qed
qed

lemma valid_utf8_ascii: "chr_code c < 0x80 \<Longrightarrow> valid_utf8 t \<Longrightarrow> valid_utf8 (c # t)"
  by (simp add: valid_utf8.simps [of "c # t"] rune_len_ascii)

lemma unescape_valid: "unescape s = Some (e, r) \<Longrightarrow> valid_utf8 t \<Longrightarrow> valid_utf8 (e @ t)"
  by (cases s) (auto split: if_splits simp: valid_utf8_ascii intro: unescape_u_valid)

lemma lex_string_valid: "lex_string s = Some (t, r) \<Longrightarrow> valid_utf8 t"
proof (induction s arbitrary: t r rule: lex_string.induct)
  case (2 c s)
  show ?case
  proof (cases "c = CHR 0x5C")
    case True
    with "2.prems" obtain e u t' where u: "unescape s = Some (e, u)" "lex_string u = Some (t', r)" "t = e @ t'"
      by (auto simp: lex_string.simps(2) push_def split: option.splits)
    then show ?thesis using "2.IH"(1) True by (auto intro: unescape_valid)
  next
    case False
    then consider "t = []" | t' where "t = replacement @ t'" "valid_utf8 t'"
      | t' where "t = take (rune_len (c # s)) (c # s) @ t'" "valid_utf8 t'" "0 < rune_len (c # s)"
      using "2.prems" "2.IH"(2,3) by (fastforce simp: lex_string.simps(2) push_def split: if_splits)
    then show ?thesis by cases (auto intro: valid_utf8_replacement valid_utf8_take)
  qed
qed simp

section \<open>Facts: reading what was written\<close>

text \<open>One rule per piece of text; \<open>json_run\<close> drives the machine over a whole document.\<close>

named_theorems json_run \<open>steps of read_value over concrete syntax\<close>

lemma read_open_object [json_run]:
  "length stk < max_nesting \<Longrightarrow>
     read_value MValue stk (CHR ''{'' # r) = read_value MKeyOrEnd (FObj [] # stk) r"
  by (rule read_value_token) auto

lemma read_open_object_first [json_run]:
  "length stk < max_nesting \<Longrightarrow>
     read_value MValueOrEnd stk (CHR ''{'' # r) = read_value MKeyOrEnd (FObj [] # stk) r"
  by (rule read_value_token) (auto simp: close_empty_def split: list.splits frame.splits)

lemma read_open_array [json_run]:
  "length stk < max_nesting \<Longrightarrow>
     read_value MValue stk (CHR ''['' # r) = read_value MValueOrEnd (FArr [] # stk) r"
  by (rule read_value_token) auto

lemma read_string [json_run]:
  "valid_utf8 s \<Longrightarrow> read_value MValue stk (quote s @ r) = read_value (MDone (JStr s)) stk r"
  by (rule read_value_token [OF next_token_quote]) auto

lemma read_colon: "read_value MColon stk (CHR '':'' # r) = read_value MValue stk r"
  by (rule read_value_token) auto

lemma read_first_key [json_run]:
  "valid_utf8 k \<Longrightarrow>
     read_value MKeyOrEnd (FObj [] # stk) (quote k @ CHR '':'' # r) =
       read_value MValue (FKey [] k # stk) r"
  by (subst read_value_token [OF next_token_quote])
    (auto simp: close_empty_def read_key_def read_colon)

lemma read_next_key [json_run]:
  "valid_utf8 k \<Longrightarrow>
     read_value MKey (FObj ms # stk) (quote k @ CHR '':'' # r) =
       read_value MValue (FKey ms k # stk) r"
  by (subst read_value_token [OF next_token_quote]) (auto simp: read_key_def read_colon)

lemma read_after_value [json_run]:
  "read_value (MDone v) (FKey ms k # stk) (CHR '','' # r) = read_value MKey (FObj ((k, v) # ms) # stk) r"
  "read_value (MDone v) (FKey ms k # stk) (CHR ''}'' # r) =
     read_value (MDone (JObj (rev ((k, v) # ms)))) stk r"
  "read_value (MDone v) (FArr es # stk) (CHR '','' # r) = read_value MValue (FArr (v # es) # stk) r"
  "read_value (MDone v) (FArr es # stk) (CHR '']'' # r) =
     read_value (MDone (JArr (rev (v # es)))) stk r"
  by (subst read_value.simps, simp)+

lemma read_empty_array [json_run]:
  "read_value MValueOrEnd (FArr [] # stk) (CHR '']'' # r) = read_value (MDone (JArr [])) stk r"
  by (rule read_value_token) (auto simp: close_empty_def)

end
