(* ===== verification/Discovery.thy ===== *)
theory Discovery
  imports Go_Json
begin

text \<open>
  \<open>internal/oidc/discovery.go\<close>: the discovery document. Its bytes are \<open>json.Marshal\<close> of the
  struct, fields in declaration order.
\<close>

definition JWKSPath :: string where "JWKSPath = ''/openid/v1/jwks''"

record discoveryDoc =
  Issuer :: string
  JWKSURI :: string
  ResponseTypesSupported :: "string list"
  SubjectTypesSupported :: "string list"
  IDTokenSigningAlgValuesSupported :: "string list"
  ClaimsSupported :: "string list"

definition discovery_doc :: "string \<Rightarrow> discoveryDoc" where
  "discovery_doc issuer =
     \<lparr>Issuer = issuer, JWKSURI = issuer @ JWKSPath,
      ResponseTypesSupported = [''id_token''], SubjectTypesSupported = [''public''],
      IDTokenSigningAlgValuesSupported = [''RS256''],
      ClaimsSupported = [''aud'', ''iat'', ''iss'', ''sub'']\<rparr>"

fun marshal_strings :: "string list \<Rightarrow> bytes" where
  "marshal_strings [] = []"
| "marshal_strings [s] = quote s"
| "marshal_strings (s # ss) = quote s @ CHR '','' # marshal_strings ss"

definition string_member :: "string \<Rightarrow> string \<Rightarrow> bytes" where
  "string_member n v = quote n @ CHR '':'' # quote v"

definition list_member :: "string \<Rightarrow> string list \<Rightarrow> bytes" where
  "list_member n vs = quote n @ CHR '':'' # CHR ''['' # marshal_strings vs @ '']''"

definition marshal_doc :: "discoveryDoc \<Rightarrow> bytes" where
  "marshal_doc d =
     CHR ''{'' # string_member ''issuer'' (Issuer d) @
     CHR '','' # string_member ''jwks_uri'' (JWKSURI d) @
     CHR '','' # list_member ''response_types_supported'' (ResponseTypesSupported d) @
     CHR '','' # list_member ''subject_types_supported'' (SubjectTypesSupported d) @
     CHR '','' # list_member ''id_token_signing_alg_values_supported''
       (IDTokenSigningAlgValuesSupported d) @
     CHR '','' # list_member ''claims_supported'' (ClaimsSupported d) @ ''}''"

definition Render :: "string \<Rightarrow> bytes" where
  "Render issuer = marshal_doc (discovery_doc issuer)"

section \<open>What a client reads\<close>

text \<open>The document as a JSON value.\<close>

definition doc_value :: "discoveryDoc \<Rightarrow> json" where
  "doc_value d = JObj
     [(''issuer'', JStr (Issuer d)), (''jwks_uri'', JStr (JWKSURI d)),
      (''response_types_supported'', JArr (map JStr (ResponseTypesSupported d))),
      (''subject_types_supported'', JArr (map JStr (SubjectTypesSupported d))),
      (''id_token_signing_alg_values_supported'',
        JArr (map JStr (IDTokenSigningAlgValuesSupported d))),
      (''claims_supported'', JArr (map JStr (ClaimsSupported d)))]"

lemma valid_utf8_append: "valid_utf8 s \<Longrightarrow> valid_utf8 t \<Longrightarrow> valid_utf8 (s @ t)"
proof (induction s rule: valid_utf8.induct)
  case (1 s)
  show ?case
  proof (cases "s = []")
    case False
    then have v: "rune_len s \<noteq> 0" "valid_utf8 (drop (rune_len s) s)"
      using "1.prems" by (subst (asm) valid_utf8.simps; auto split: if_splits)+
    have "valid_utf8 (drop (rune_len s) s @ t)" using 1 False v by auto
    then have "valid_utf8 (take (rune_len s) s @ drop (rune_len s) s @ t)"
      using v(1) by (intro valid_utf8_take) auto
    then show ?thesis by (simp only: append_assoc [symmetric] append_take_drop_id)
  qed (use 1 in simp)
qed

lemma valid_utf8_literal: "list_all (\<lambda>c. chr_code c < 0x80) s \<Longrightarrow> valid_utf8 s"
  by (induction s) (auto simp: valid_utf8_ascii)

lemma read_first_string [json_run]:
  "valid_utf8 s \<Longrightarrow>
     read_value MValueOrEnd (FArr [] # stk) (quote s @ r) = read_value (MDone (JStr s)) (FArr [] # stk) r"
  by (rule read_value_token [OF next_token_quote]) (auto simp: close_empty_def)

lemma read_strings:
  assumes "\<forall>s \<in> set (s # ss). valid_utf8 s"
    and "\<And>r. read_value m (FArr es # stk) (quote s @ r) = read_value (MDone (JStr s)) (FArr es # stk) r"
  shows "read_value m (FArr es # stk) (marshal_strings (s # ss) @ CHR '']'' # r) =
    read_value (MDone (JArr (rev es @ map JStr (s # ss)))) stk r"
  using assms
proof (induction ss arbitrary: s m es)
  case (Cons s' ss)
  have "read_value MValue (FArr (JStr s # es) # stk) (marshal_strings (s' # ss) @ CHR '']'' # r) =
      read_value (MDone (JArr (rev (JStr s # es) @ map JStr (s' # ss)))) stk r"
    using Cons.prems by (intro Cons.IH) (auto intro!: read_string)
  then show ?case using Cons.prems(2) by (simp add: json_run)
qed (simp add: json_run)

lemma read_string_list:
  "ss \<noteq> [] \<Longrightarrow> \<forall>s \<in> set ss. valid_utf8 s \<Longrightarrow>
     read_value MValueOrEnd (FArr [] # stk) (marshal_strings ss @ CHR '']'' # r) =
     read_value (MDone (JArr (map JStr ss))) stk r"
  using read_strings [of "hd ss" "tl ss" MValueOrEnd "[]" stk r]
  by (cases ss) (auto simp: json_run)

definition doc_utf8 :: "discoveryDoc \<Rightarrow> bool" where
  "doc_utf8 d \<longleftrightarrow>
     valid_utf8 (Issuer d) \<and> valid_utf8 (JWKSURI d) \<and>
     (\<forall>ss \<in> {ResponseTypesSupported d, SubjectTypesSupported d, IDTokenSigningAlgValuesSupported d,
             ClaimsSupported d}. ss \<noteq> [] \<and> (\<forall>s \<in> set ss. valid_utf8 s))"

lemma read_doc:
  assumes "doc_utf8 d"
  shows "read_value MValue [] (marshal_doc d @ r) = Some (doc_value d, r)"
proof -
  have n: "valid_utf8 ''issuer''" "valid_utf8 ''jwks_uri''" "valid_utf8 ''response_types_supported''"
    "valid_utf8 ''subject_types_supported''" "valid_utf8 ''id_token_signing_alg_values_supported''"
    "valid_utf8 ''claims_supported''"
    by (rule valid_utf8_literal; simp)+
  show ?thesis using assms
    by (simp add: marshal_doc_def string_member_def list_member_def doc_utf8_def n json_run
        read_string_list max_nesting_def read_value_done doc_value_def)
qed

section \<open>Properties\<close>

text \<open>C34: The discovery document of an issuer in UTF-8 parses as JSON into exactly the six fixed
  members in order: the issuer as configured, the key URL below it, and the constant lists.\<close>

theorem Render_document:
  assumes "valid_utf8 issuer"
  shows "read_value MValue [] (Render issuer @ r) = Some (JObj
    [(''issuer'', JStr issuer), (''jwks_uri'', JStr (issuer @ ''/openid/v1/jwks'')),
     (''response_types_supported'', JArr [JStr ''id_token'']),
     (''subject_types_supported'', JArr [JStr ''public'']),
     (''id_token_signing_alg_values_supported'', JArr [JStr ''RS256'']),
     (''claims_supported'', JArr [JStr ''aud'', JStr ''iat'', JStr ''iss'', JStr ''sub''])], r)"
proof -
  have "doc_utf8 (discovery_doc issuer)"
    using assms by (simp add: doc_utf8_def discovery_doc_def JWKSPath_def valid_utf8_append
        valid_utf8_literal)
  from read_doc [OF this] show ?thesis
    by (simp add: Render_def doc_value_def discovery_doc_def JWKSPath_def)
qed

theorem Render_document_witness:
  "\<exists>ms. read_value MValue [] (Render ''https://a.ts.net'') = Some (JObj ms, []) \<and>
     map_of ms ''jwks_uri'' = Some (JStr ''https://a.ts.net/openid/v1/jwks'')"
proof -
  have "valid_utf8 ''https://a.ts.net''" by (rule valid_utf8_literal) simp
  from Render_document [OF this, of "[]"] show ?thesis by simp
qed

end
