(* ===== verification/Go_Http.thy ===== *)
theory Go_Http
  imports Go_Text
begin

text \<open>
  Go's \<open>net/http\<close> as the handlers see it. A response writer is its header map, the status
  and headers sent by the first \<open>WriteHeader\<close>, and the body bytes written. \<open>ServeMux\<close> is modelled
  for what the source registers: patterns \<open>GET /path\<close> of literal segments. The status code and
  the URL text of a redirect to a cleaned path vary between releases of Go and are arguments.
\<close>

section \<open>Headers and response writers\<close>

definition header_Set :: "string \<Rightarrow> string \<Rightarrow> (string \<times> string) list \<Rightarrow> (string \<times> string) list" where
  "header_Set k v hs = [h \<leftarrow> hs. fst h \<noteq> k] @ [(k, v)]"

definition header_Del :: "string \<Rightarrow> (string \<times> string) list \<Rightarrow> (string \<times> string) list" where
  "header_Del k hs = [h \<leftarrow> hs. fst h \<noteq> k]"

definition header_Get :: "string \<Rightarrow> (string \<times> string) list \<Rightarrow> string option" where
  "header_Get k hs = map_of hs k"

record response =
  rw_header :: "(string \<times> string) list"
  rw_status :: "int option"
  rw_sent :: "(string \<times> string) list"
  rw_body :: bytes

definition new_response :: response where
  "new_response = \<lparr>rw_header = [], rw_status = None, rw_sent = [], rw_body = []\<rparr>"

text \<open>Only the first \<open>WriteHeader\<close> counts; a \<open>Write\<close> without one sends 200.\<close>

definition rw_WriteHeader :: "int \<Rightarrow> response \<Rightarrow> response" where
  "rw_WriteHeader code w =
     (if rw_status w \<noteq> None then w else w\<lparr>rw_status := Some code, rw_sent := rw_header w\<rparr>)"

definition rw_Write :: "bytes \<Rightarrow> response \<Rightarrow> response" where
  "rw_Write b w = (let w' = rw_WriteHeader 200 w in w'\<lparr>rw_body := rw_body w' @ b\<rparr>)"

definition rw_Flush :: "response \<Rightarrow> response" where
  "rw_Flush w = rw_WriteHeader 200 w"

text \<open>What the server sends when the handler returns: an untouched response is an empty 200.\<close>

definition final_status :: "response \<Rightarrow> int" where
  "final_status w = (case rw_status w of None \<Rightarrow> 200 | Some c \<Rightarrow> c)"

definition final_header :: "response \<Rightarrow> (string \<times> string) list" where
  "final_header w = (case rw_status w of None \<Rightarrow> rw_header w | Some _ \<Rightarrow> rw_sent w)"

section \<open>Paths\<close>

fun join_path :: "string list \<Rightarrow> string" where
  "join_path [] = []"
| "join_path (s # ss) = CHR ''/'' # s @ join_path ss"

text \<open>\<open>path.Clean\<close> on a rooted path, as a stack of segments.\<close>

fun clean_segs :: "string list \<Rightarrow> string list \<Rightarrow> string list" where
  "clean_segs acc [] = rev acc"
| "clean_segs acc (s # ss) =
     (if s = [] \<or> s = ''.'' then clean_segs acc ss
      else if s = ''..'' then clean_segs (tl acc) ss
      else clean_segs (s # acc) ss)"

definition path_Clean :: "string \<Rightarrow> string" where
  "path_Clean p = (case clean_segs [] (split_on CHR ''/'' p) of [] \<Rightarrow> ''/'' | ss \<Rightarrow> join_path ss)"

definition cleanPath :: "string \<Rightarrow> string" where
  "cleanPath p =
     (if p = [] then ''/''
      else
        let q = (if hd p = CHR ''/'' then p else CHR ''/'' # p);
            np = path_Clean q
        in if last q = CHR ''/'' \<and> np \<noteq> ''/'' then np @ ''/'' else np)"

definition unhex :: "char \<Rightarrow> nat option" where
  "unhex c =
     (let x = chr_code c in
      if 48 \<le> x \<and> x \<le> 57 then Some (x - 48)
      else if 97 \<le> x \<and> x \<le> 102 then Some (x - 87)
      else if 65 \<le> x \<and> x \<le> 70 then Some (x - 55)
      else None)"

text \<open>\<open>url.PathUnescape\<close>: None for a malformed escape.\<close>

fun path_unescape :: "string \<Rightarrow> string option" where
  "path_unescape [] = Some []"
| "path_unescape (c # s) =
     (if c = CHR ''%'' then
        (case s of
           a # b # r \<Rightarrow>
             (case (unhex a, unhex b) of
                (Some x, Some y) \<Rightarrow> map_option ((#) (char_of (16 * x + y))) (path_unescape r)
              | _ \<Rightarrow> None)
         | _ \<Rightarrow> None)
      else map_option ((#) c) (path_unescape s))"

definition unescape_seg :: "string \<Rightarrow> string" where
  "unescape_seg s = (case path_unescape s of None \<Rightarrow> s | Some t \<Rightarrow> t)"

definition path_segments :: "string \<Rightarrow> string list" where
  "path_segments p = (case p of [] \<Rightarrow> [] | _ # r \<Rightarrow> map unescape_seg (split_on CHR ''/'' r))"

section \<open>Routing\<close>

text \<open>
  A request: its method, the request target as sent, the decoded and the escaped path of its
  URL, its raw query, and whether it is HTTP/1.1 or later.
\<close>

record http_target =
  rq_method :: string
  rq_RequestURI :: string
  rq_path :: string
  rq_escaped :: string
  rq_http11 :: bool

text \<open>A mux, as the list of its GET patterns: the literal segments of each and its handler.\<close>

type_synonym 'h mux = "(string list \<times> 'h) list"

datatype 'h route =
    BadRequest
  | Redirect string
  | MethodNotAllowed
  | NotFound
  | Found 'h

definition mux_match :: "'h mux \<Rightarrow> string \<Rightarrow> 'h option" where
  "mux_match mux p = map_of mux (path_segments p)"

definition findHandler :: "'h mux \<Rightarrow> 'z http_target_scheme \<Rightarrow> 'h route" where
  "findHandler mux r =
     (if rq_RequestURI r = ''*'' then BadRequest
      else
        let p = (if rq_method r = ''CONNECT'' then rq_escaped r else cleanPath (rq_escaped r))
        in if p \<noteq> rq_escaped r then Redirect p
           else
             case mux_match mux p of
               None \<Rightarrow> NotFound
             | Some h \<Rightarrow>
                 if rq_method r = ''GET'' \<or> rq_method r = ''HEAD'' then Found h
                 else MethodNotAllowed)"

section \<open>Facts\<close>

lemma header_Get_Set [simp]:
  "header_Get k (header_Set k' v hs) = (if k = k' then Some v else header_Get k hs)"
proof -
  have "map_of [h \<leftarrow> hs. fst h \<noteq> k'] k = (if k = k' then None else map_of hs k)"
    by (induction hs) auto
  then show ?thesis by (auto simp: header_Get_def header_Set_def map_add_def split: option.splits)
qed

lemma header_Get_Del [simp]:
  "header_Get k (header_Del k' hs) = (if k = k' then None else header_Get k hs)"
  by (induction hs) (auto simp: header_Get_def header_Del_def)

lemma header_Get_Nil [simp]: "header_Get k [] = None"
  by (simp add: header_Get_def)

lemma rw_simps [simp]:
  "rw_status (rw_WriteHeader c w) = (case rw_status w of None \<Rightarrow> Some c | Some d \<Rightarrow> Some d)"
  "rw_header (rw_WriteHeader c w) = rw_header w"
  "rw_body (rw_WriteHeader c w) = rw_body w"
  "rw_sent (rw_WriteHeader c w) = (if rw_status w = None then rw_header w else rw_sent w)"
  by (auto simp: rw_WriteHeader_def split: option.splits)

lemma rw_Write_simps [simp]:
  "rw_status (rw_Write b w) = (case rw_status w of None \<Rightarrow> Some 200 | Some d \<Rightarrow> Some d)"
  "rw_header (rw_Write b w) = rw_header w"
  "rw_body (rw_Write b w) = rw_body w @ b"
  "rw_sent (rw_Write b w) = (if rw_status w = None then rw_header w else rw_sent w)"
  by (simp_all add: rw_Write_def Let_def)

lemma findHandler_Found:
  "findHandler mux r = Found h \<Longrightarrow>
     mux_match mux (rq_escaped r) = Some h \<and> (rq_method r = ''GET'' \<or> rq_method r = ''HEAD'')"
  by (auto simp: findHandler_def Let_def split: if_splits option.splits)

end
