(* ===== verification/Go_Netip.thy ===== *)
theory Go_Netip
  imports Go_Text "HOL-Library.Word"
begin

unbundle bit_operations_syntax

text \<open>
  Go's \<open>net/netip\<close>: addresses as 32-bit and 128-bit words, an IPv6 address with its zone, and
  \<open>Prefix\<close> with \<open>ParsePrefix\<close> and \<open>Contains\<close>. \<open>AddrZero\<close> is the zero \<open>Addr\<close>.
\<close>

section \<open>Addresses\<close>

datatype addr = AddrZero | Addr4 "32 word" | Addr6 "128 word" string

fun BitLen :: "addr \<Rightarrow> nat" where
  "BitLen AddrZero = 0"
| "BitLen (Addr4 a) = 32"
| "BitLen (Addr6 a z) = 128"

fun hasZone :: "addr \<Rightarrow> bool" where
  "hasZone (Addr6 a z) = (z \<noteq> [])"
| "hasZone _ = False"

record prefix =
  p_ip :: addr
  p_bits :: int

definition prefix_IsValid :: "prefix \<Rightarrow> bool" where
  "prefix_IsValid p \<longleftrightarrow>
     p_ip p \<noteq> AddrZero \<and> 0 \<le> p_bits p \<and> p_bits p \<le> int (BitLen (p_ip p))"

definition mask6 :: "nat \<Rightarrow> 128 word" where
  "mask6 n = push_bit (128 - n) (- 1)"

definition Contains :: "prefix \<Rightarrow> addr \<Rightarrow> bool" where
  "Contains p ip =
     (if \<not> prefix_IsValid p \<or> hasZone ip then False
      else case (p_ip p, ip) of
          (Addr4 a, Addr4 b) \<Rightarrow> drop_bit (32 - nat (p_bits p)) (b XOR a) = 0
        | (Addr6 a z, Addr6 b z') \<Rightarrow> (b XOR a) AND mask6 (nat (p_bits p)) = 0
        | _ \<Rightarrow> False)"

section \<open>Parsing\<close>

definition octet :: "string \<Rightarrow> nat option" where
  "octet s =
     (if s \<noteq> [] \<and> list_all is_digit s \<and> (hd s = CHR ''0'' \<longrightarrow> length s = 1) \<and>
         length s \<le> 3 \<and> digits_val 0 s \<le> 255
      then Some (digits_val 0 s) else None)"

text \<open>\<open>parseIPv4Fields\<close>: four decimal octets without leading zeros.\<close>

definition parseIPv4Fields :: "string \<Rightarrow> nat list option" where
  "parseIPv4Fields s =
     (let fs = map octet (split_on CHR ''.'' s) in
      if length fs = 4 \<and> None \<notin> set fs then Some (map the fs) else None)"

definition word_of_bytes :: "nat list \<Rightarrow> 'a::len word" where
  "word_of_bytes bs = fold (\<lambda>b acc. acc * 256 + of_nat b) bs 0"

definition parseIPv4 :: "string \<Rightarrow> addr option" where
  "parseIPv4 s = map_option (\<lambda>bs. Addr4 (word_of_bytes bs)) (parseIPv4Fields s)"

definition hex_group :: "char \<Rightarrow> nat option" where
  "hex_group c =
     (let x = chr_code c in
      if 48 \<le> x \<and> x \<le> 57 then Some (x - 48)
      else if 97 \<le> x \<and> x \<le> 102 then Some (x - 87)
      else if 65 \<le> x \<and> x \<le> 70 then Some (x - 55)
      else None)"

definition hex_run :: "string \<Rightarrow> string" where
  "hex_run s = takeWhile (\<lambda>c. hex_group c \<noteq> None) s"

definition hex_value :: "string \<Rightarrow> nat" where
  "hex_value s = fold (\<lambda>c acc. acc * 16 + the (hex_group c)) s 0"

text \<open>
  The loop of \<open>parseIPv6\<close>: the bytes parsed so far, where the ellipsis stands among them, and
  the rest of the input. One round consumes at least one character.
\<close>

function ipv6_loop :: "nat list \<Rightarrow> nat option \<Rightarrow> string \<Rightarrow> (nat list \<times> nat option) option" where
  "ipv6_loop ip ell s =
     (if 16 \<le> length ip then (if s = [] then Some (ip, ell) else None)
      else
        let ds = hex_run s; rest = drop (length ds) s in
        if ds = [] \<or> 4 < length ds then None
        else if rest \<noteq> [] \<and> hd rest = CHR ''.'' then
          (if (ell = None \<and> length ip \<noteq> 12) \<or> 12 < length ip then None
           else map_option (\<lambda>bs. (ip @ bs, ell)) (parseIPv4Fields s))
        else
          let v = hex_value ds; ip' = ip @ [v div 256, v mod 256] in
          case rest of
            [] \<Rightarrow> Some (ip', ell)
          | c # t \<Rightarrow>
              if c \<noteq> CHR '':'' \<or> t = [] then None
              else if hd t = CHR '':'' then
                (if ell \<noteq> None then None
                 else if tl t = [] then Some (ip', Some (length ip'))
                 else ipv6_loop ip' (Some (length ip')) (tl t))
              else ipv6_loop ip' ell t)"
  by pat_completeness auto
termination
proof (relation "measure (\<lambda>(ip, ell, s). length s)", goal_cases)
  case 1
  then show ?case by simp
next
  case (2 ip ell s ds rest v ip' c t)
  have "length (c # t) \<le> length s" using 2 by (metis length_drop diff_le_self)
  then show ?case by (cases t) auto
next
  case (3 ip ell s ds rest v ip' c t)
  have "length (c # t) \<le> length s" using 3 by (metis length_drop diff_le_self)
  then show ?case by simp
qed

declare ipv6_loop.simps [simp del]

definition expand_ellipsis :: "nat list \<times> nat option \<Rightarrow> nat list option" where
  "expand_ellipsis r =
     (case r of
        (ip, None) \<Rightarrow> (if length ip < 16 then None else Some ip)
      | (ip, Some e) \<Rightarrow>
          if length ip < 16 then Some (take e ip @ replicate (16 - length ip) 0 @ drop e ip)
          else None)"

definition parseIPv6 :: "string \<Rightarrow> addr option" where
  "parseIPv6 s0 =
     (let (s, zone, found) = Cut CHR ''%'' s0 in
      if found \<and> zone = [] then None
      else if s = ''::'' then Some (Addr6 0 zone)
      else
        let (ell, t) = (if take 2 s = ''::'' then (Some 0, drop 2 s) else (None, s)) in
        case ipv6_loop [] ell t of
          None \<Rightarrow> None
        | Some r \<Rightarrow> map_option (\<lambda>bs. Addr6 (word_of_bytes bs) zone) (expand_ellipsis r))"

definition ParseAddr :: "string \<Rightarrow> addr option" where
  "ParseAddr s =
     (case find (\<lambda>c. c = CHR ''.'' \<or> c = CHR '':'' \<or> c = CHR ''%'') s of
        None \<Rightarrow> None
      | Some c \<Rightarrow>
          if c = CHR ''.'' then parseIPv4 s else if c = CHR '':'' then parseIPv6 s else None)"

definition ParsePrefix :: "string \<Rightarrow> prefix option" where
  "ParsePrefix s =
     (case last_index CHR ''/'' s of
        None \<Rightarrow> None
      | Some i \<Rightarrow>
          (case ParseAddr (take i s) of
             None \<Rightarrow> None
           | Some ip \<Rightarrow>
               if hasZone ip then None
               else
                 let bitsStr = drop (Suc i) s in
                 if 1 < length bitsStr \<and>
                    (chr_code (hd bitsStr) < 49 \<or> 57 < chr_code (hd bitsStr)) then None
                 else
                   case Atoi bitsStr of
                     None \<Rightarrow> None
                   | Some b \<Rightarrow>
                       if b < 0 \<or> int (BitLen ip) < b then None
                       else Some \<lparr>p_ip = ip, p_bits = b\<rparr>))"

section \<open>Printing\<close>

definition byte_at :: "nat \<Rightarrow> 'a::len word \<Rightarrow> nat" where
  "byte_at i w = unat (drop_bit (8 * i) w AND 255)"

definition dotted :: "'a::len word \<Rightarrow> string" where
  "dotted w =
     dec_digits (byte_at 3 w) @ ''.'' @ dec_digits (byte_at 2 w) @ ''.'' @
     dec_digits (byte_at 1 w) @ ''.'' @ dec_digits (byte_at 0 w)"

fun hex_digits :: "nat \<Rightarrow> string" where
  "hex_digits n =
     (if n < 16 then [''0123456789abcdef'' ! n]
      else hex_digits (n div 16) @ [''0123456789abcdef'' ! (n mod 16)])"

declare hex_digits.simps [simp del]

definition groups6 :: "128 word \<Rightarrow> nat list" where
  "groups6 w = map (\<lambda>i. 256 * byte_at (2 * i + 1) w + byte_at (2 * i) w) [7, 6, 5, 4, 3, 2, 1, 0]"

definition zero_run :: "nat list \<Rightarrow> nat \<Rightarrow> nat" where
  "zero_run gs i = length (takeWhile (\<lambda>g. g = 0) (drop i gs))"

text \<open>Where the first longest run of zero groups starts, if it is longer than one group.\<close>

definition best_run :: "nat list \<Rightarrow> (nat \<times> nat) option" where
  "best_run gs =
     (let best = fold (\<lambda>i (s, l). if l < zero_run gs i then (i, zero_run gs i) else (s, l)) [0..<8] (0, 0)
      in if 1 < snd best then Some best else None)"

fun colons :: "nat list \<Rightarrow> string" where
  "colons [] = []"
| "colons [g] = hex_digits g"
| "colons (g # gs) = hex_digits g @ CHR '':'' # colons gs"

definition String6 :: "128 word \<Rightarrow> string" where
  "String6 w =
     (let gs = groups6 w in
      case best_run gs of
        None \<Rightarrow> colons gs
      | Some (s, l) \<Rightarrow> colons (take s gs) @ ''::'' @ colons (drop (s + l) gs))"

definition zone_suffix :: "string \<Rightarrow> string" where
  "zone_suffix z = (if z = [] then [] else CHR ''%'' # z)"

fun addr_String :: "addr \<Rightarrow> string" where
  "addr_String AddrZero = ''invalid IP''"
| "addr_String (Addr4 a) = dotted a"
| "addr_String (Addr6 a z) =
     (if drop_bit 32 a = 0xffff then ''::ffff:'' @ dotted a else String6 a) @ zone_suffix z"

section \<open>Facts\<close>

lemma drop_bit_agree:
  fixes x y :: "'a::len word"
  assumes "n \<le> LENGTH('a)"
  shows "drop_bit (LENGTH('a) - n) (x XOR y) = 0 \<longleftrightarrow>
    (\<forall>i < n. bit x (LENGTH('a) - 1 - i) = bit y (LENGTH('a) - 1 - i))"
proof
  assume a: "drop_bit (LENGTH('a) - n) (x XOR y) = 0"
  show "\<forall>i < n. bit x (LENGTH('a) - 1 - i) = bit y (LENGTH('a) - 1 - i)"
  proof (intro allI impI)
    fix i assume i: "i < n"
    have "bit (drop_bit (LENGTH('a) - n) (x XOR y)) (n - 1 - i) = bit (0 :: 'a word) (n - 1 - i)"
      using a by simp
    moreover have "LENGTH('a) - n + (n - 1 - i) = LENGTH('a) - 1 - i" using i assms by simp
    ultimately show "bit x (LENGTH('a) - 1 - i) = bit y (LENGTH('a) - 1 - i)"
      by (simp add: bit_drop_bit_eq bit_xor_iff)
  qed
next
  assume a: "\<forall>i < n. bit x (LENGTH('a) - 1 - i) = bit y (LENGTH('a) - 1 - i)"
  show "drop_bit (LENGTH('a) - n) (x XOR y) = 0"
  proof (rule bit_word_eqI)
    fix j assume "j < LENGTH('a)"
    show "bit (drop_bit (LENGTH('a) - n) (x XOR y)) j = bit (0 :: 'a word) j"
    proof (cases "j < n")
      case True
      then have "bit x (LENGTH('a) - 1 - (n - 1 - j)) = bit y (LENGTH('a) - 1 - (n - 1 - j))"
        by (intro a [rule_format]) simp
      moreover have "LENGTH('a) - 1 - (n - 1 - j) = LENGTH('a) - n + j" using True assms by simp
      ultimately show ?thesis by (simp only: bit_drop_bit_eq bit_xor_iff comp_def bit_0_eq bot_apply) simp
    next
      case False
      then have "LENGTH('a) \<le> LENGTH('a) - n + j" using assms by simp
      then show ?thesis by (auto simp: bit_drop_bit_eq bit_xor_iff dest: bit_imp_le_length)
    qed
  qed
qed

lemma mask_drop:
  "n \<le> 128 \<Longrightarrow> (x AND mask6 n = 0) \<longleftrightarrow> drop_bit (128 - n) x = 0"
proof -
  assume n: "n \<le> 128"
  have "x AND mask6 n = push_bit (128 - n) (drop_bit (128 - n) x)"
    by (rule bit_word_eqI) (auto simp: mask6_def bit_simps)
  moreover have "drop_bit k x = 0" if "push_bit k (drop_bit k x) = 0" for k
  proof (rule bit_word_eqI)
    fix j assume "j < LENGTH(128)"
    have "bit (push_bit k (drop_bit k x)) (k + j) = bit (0 :: 128 word) (k + j)" using that by simp
    then show "bit (drop_bit k x) j = bit (0 :: 128 word) j"
      by (auto simp: bit_simps dest: bit_imp_le_length)
  qed
  ultimately show ?thesis by (metis push_bit_of_0)
qed

text \<open>The leading bits of two addresses of the same family agree.\<close>

fun same_network :: "nat \<Rightarrow> addr \<Rightarrow> addr \<Rightarrow> bool" where
  "same_network n (Addr4 a) (Addr4 b) = (\<forall>i < n. bit b (31 - i) = bit a (31 - i))"
| "same_network n (Addr6 a z) (Addr6 b z') = (\<forall>i < n. bit b (127 - i) = bit a (127 - i))"
| "same_network n _ _ = False"

lemma Contains_iff:
  "Contains p ip \<longleftrightarrow>
     prefix_IsValid p \<and> \<not> hasZone ip \<and> same_network (nat (p_bits p)) (p_ip p) ip"
proof (cases "prefix_IsValid p \<and> \<not> hasZone ip")
  case ok: True
  show ?thesis
  proof (cases "p_ip p")
    case AddrZero
    then show ?thesis using ok by (simp add: prefix_IsValid_def nat_le_iff)
  next
    case (Addr4 a)
    then have "nat (p_bits p) \<le> LENGTH(32)" using ok by (simp add: prefix_IsValid_def nat_le_iff)
    from drop_bit_agree [OF this, of _ a] show ?thesis using ok Addr4 
      by (cases ip) (simp_all add: Contains_def)
  next
    case (Addr6 a z)
    then have n: "nat (p_bits p) \<le> LENGTH(128)" using ok by (simp add: prefix_IsValid_def nat_le_iff)
    then have "nat (p_bits p) \<le> 128" by simp
    from mask_drop [OF this] drop_bit_agree [OF n, of _ a] show ?thesis using ok Addr6
      by (cases ip) (simp_all add: Contains_def)
  qed
qed (auto simp: Contains_def)

lemma word_of_bytes_snoc: "word_of_bytes (bs @ [b]) = word_of_bytes bs * 256 + of_nat b"
  by (simp add: word_of_bytes_def)

text \<open>\<open>ParsePrefix\<close> only yields valid prefixes, without a zone.\<close>

lemma parseIPv4_shape: "parseIPv4 s = Some ip \<Longrightarrow> \<exists>a. ip = Addr4 a"
  by (auto simp: parseIPv4_def)

lemma parseIPv6_shape: "parseIPv6 s = Some ip \<Longrightarrow> \<exists>a z. ip = Addr6 a z"
  by (auto simp: parseIPv6_def Let_def split: prod.splits if_splits option.splits)

lemma ParseAddr_nonzero: "ParseAddr s = Some ip \<Longrightarrow> ip \<noteq> AddrZero"
  by (auto simp: ParseAddr_def split: option.splits if_splits dest: parseIPv4_shape parseIPv6_shape)

lemma ParsePrefix_valid: "ParsePrefix s = Some p \<Longrightarrow> prefix_IsValid p \<and> \<not> hasZone (p_ip p)"
  by (auto simp: ParsePrefix_def prefix_IsValid_def Let_def split: option.splits if_splits
      dest: ParseAddr_nonzero)

end
