(* ===== verification/Go_Base64.thy ===== *)
theory Go_Base64
  imports Go_Text
begin

text \<open>
  \<open>base64.RawURLEncoding.DecodeString\<close>: the URL alphabet without padding. Carriage returns and
  line feeds are skipped wherever they stand, the last group may be two or three characters, and
  its unused low bits are not checked (the encoding is not \<open>Strict\<close>).
\<close>

definition b64_val :: "char \<Rightarrow> nat option" where
  "b64_val c =
     (let x = chr_code c in
      if 65 \<le> x \<and> x \<le> 90 then Some (x - 65)
      else if 97 \<le> x \<and> x \<le> 122 then Some (x - 71)
      else if 48 \<le> x \<and> x \<le> 57 then Some (x + 4)
      else if x = 45 then Some 62
      else if x = 95 then Some 63
      else None)"

definition byte :: "nat \<Rightarrow> char" where
  "byte n = char_of (n mod 256)"

fun decode_quanta :: "nat list \<Rightarrow> bytes option" where
  "decode_quanta [] = Some []"
| "decode_quanta [a] = None"
| "decode_quanta [a, b] = Some [byte (a * 4 + b div 16)]"
| "decode_quanta [a, b, c] = Some [byte (a * 4 + b div 16), byte (b * 16 + c div 4)]"
| "decode_quanta (a # b # c # d # r) =
     map_option (\<lambda>t. [byte (a * 4 + b div 16), byte (b * 16 + c div 4), byte (c * 64 + d)] @ t)
       (decode_quanta r)"

definition b64_clean :: "string \<Rightarrow> string" where
  "b64_clean s = [c \<leftarrow> s. c \<noteq> CHR 0x0A \<and> c \<noteq> CHR 0x0D]"

definition RawURL_decode :: "string \<Rightarrow> bytes option" where
  "RawURL_decode s =
     (let vs = map b64_val (b64_clean s)
      in if None \<in> set vs then None else decode_quanta (map the vs))"

section \<open>Facts\<close>

lemma decode_quanta_None: "decode_quanta xs = None \<longleftrightarrow> length xs mod 4 = 1"
  by (induction xs rule: decode_quanta.induct) (auto simp: mod_Suc)

lemma decode_quanta_empty: "decode_quanta xs = Some [] \<longleftrightarrow> xs = []"
  by (cases xs rule: decode_quanta.cases) auto

lemma decode_quanta_length:
  "decode_quanta xs = Some b \<Longrightarrow> length b = length xs * 3 div 4"
  by (induction xs arbitrary: b rule: decode_quanta.induct) auto

text \<open>A field that decodes to at least one byte, by its characters alone.\<close>

definition b64_nonempty :: "string \<Rightarrow> bool" where
  "b64_nonempty s \<longleftrightarrow>
     b64_clean s \<noteq> [] \<and> list_all (\<lambda>c. b64_val c \<noteq> None) (b64_clean s) \<and>
     length (b64_clean s) mod 4 \<noteq> 1"

lemma RawURL_decode_nonempty:
  "(\<exists>b. RawURL_decode s = Some b \<and> b \<noteq> []) \<longleftrightarrow> b64_nonempty s"
proof -
  let ?vs = "map b64_val (b64_clean s)"
  have all: "None \<notin> set ?vs \<longleftrightarrow> list_all (\<lambda>c. b64_val c \<noteq> None) (b64_clean s)"
    by (force simp: list_all_iff)
  have "(\<exists>b. decode_quanta (map the ?vs) = Some b \<and> b \<noteq> []) \<longleftrightarrow>
      b64_clean s \<noteq> [] \<and> length (b64_clean s) mod 4 \<noteq> 1"
  proof (cases "decode_quanta (map the ?vs)")
    case None
    then show ?thesis using decode_quanta_None [of "map the ?vs"] by simp
  next
    case (Some b)
    then have "length (b64_clean s) mod 4 \<noteq> 1"
      using decode_quanta_None [of "map the ?vs"] by simp
    moreover have "b \<noteq> [] \<longleftrightarrow> b64_clean s \<noteq> []"
      using Some decode_quanta_empty [of "map the ?vs"] by auto
    ultimately show ?thesis using Some by simp
  qed
  then show ?thesis using all by (auto simp: RawURL_decode_def b64_nonempty_def Let_def)
qed

end
