(* ===== verification/Jwks.thy ===== *)
theory Jwks
  imports Go_Json Go_Base64
begin

text \<open>
  \<open>internal/oidc/jwks.go\<close>: the JWK and JWKS shapes, the canonical serialisation \<open>Marshal\<close>,
  and the gate every upstream key set passes, \<open>ParseAndValidate\<close>. Decoding follows
  \<open>encoding/json\<close> with \<open>DisallowUnknownFields\<close>: field names match up to Unicode case folding,
  null leaves a string field as it was, a repeated \<open>keys\<close> array decodes over the elements of
  the one before it, and the first type or unknown-field error is the one returned.
\<close>

section \<open>Data\<close>

record jwk =
  Kid :: string
  Kty :: string
  Alg :: string
  Use :: string
  KeyN :: string
  KeyE :: string

record jwks =
  Keys :: "jwk list"

definition MaxJWKSKeys :: nat where "MaxJWKSKeys = 200"
definition MaxJWKSBodyBytes :: nat where "MaxJWKSBodyBytes = 1048576"
definition AlgRS256 :: string where "AlgRS256 = ''RS256''"
definition KtyRSA :: string where "KtyRSA = ''RSA''"
definition UseSig :: string where "UseSig = ''sig''"

datatype json_error = SyntaxError | TypeMismatch | UnknownField string

datatype key_error =
    MissingKid | KtyNotAllowed string | AlgNotAllowed string | UseNotAllowed string
  | MissingN | MissingE | NNotBase64url | ENotBase64url | DuplicateKid string

datatype jwks_error =
    DecodeFailed json_error | TrailingData | EmptyKeySet | TooManyKeys nat | KeyRejected nat key_error

section \<open>Marshal\<close>

definition member :: "string \<Rightarrow> string \<Rightarrow> string" where
  "member n v = quote n @ CHR '':'' # quote v"

definition marshal_jwk :: "jwk \<Rightarrow> bytes" where
  "marshal_jwk k =
     CHR ''{'' # member ''kid'' (Kid k) @ CHR '','' # member ''kty'' (Kty k) @
     CHR '','' # member ''alg'' (Alg k) @ CHR '','' # member ''use'' (Use k) @
     CHR '','' # member ''n'' (KeyN k) @ CHR '','' # member ''e'' (KeyE k) @ ''}''"

fun marshal_elems :: "jwk list \<Rightarrow> bytes" where
  "marshal_elems [] = []"
| "marshal_elems [k] = marshal_jwk k"
| "marshal_elems (k # ks) = marshal_jwk k @ CHR '','' # marshal_elems ks"

definition Marshal :: "jwks \<Rightarrow> bytes" where
  "Marshal j = CHR ''{'' # quote ''keys'' @ CHR '':'' # CHR ''['' # marshal_elems (Keys j) @ '']}''"

section \<open>Decoding into the structs\<close>

definition zero_jwk :: jwk where
  "zero_jwk = \<lparr>Kid = [], Kty = [], Alg = [], Use = [], KeyN = [], KeyE = []\<rparr>"

text \<open>
  The folded name of a field: ASCII letters in upper case, and the two other code points whose
  case folding is an ASCII letter, U+017F (C5 BF) and U+212A (E2 84 AA).
\<close>

definition ascii_upper :: "char \<Rightarrow> char" where
  "ascii_upper c = (if 97 \<le> chr_code c \<and> chr_code c \<le> 122 then char_of (chr_code c - 32) else c)"

fun fold_name :: "string \<Rightarrow> string" where
  "fold_name (a # b # c # s) =
     (if a = CHR 0xE2 \<and> b = CHR 0x84 \<and> c = CHR 0xAA then CHR ''K'' # fold_name s
      else if a = CHR 0xC5 \<and> b = CHR 0xBF then CHR ''S'' # fold_name (c # s)
      else ascii_upper a # fold_name (b # c # s))"
| "fold_name [a, b] =
     (if a = CHR 0xC5 \<and> b = CHR 0xBF then [CHR ''S''] else [ascii_upper a, ascii_upper b])"
| "fold_name [a] = [ascii_upper a]"
| "fold_name [] = []"

text \<open>\<open>saveError\<close> keeps the first error.\<close>

type_synonym saved = "json_error option"

definition save_error :: "json_error \<Rightarrow> saved \<Rightarrow> saved" where
  "save_error e s = (case s of None \<Rightarrow> Some e | Some f \<Rightarrow> Some f)"

fun decode_string :: "json \<Rightarrow> string \<times> saved \<Rightarrow> string \<times> saved" where
  "decode_string (JStr s) (old, e) = (s, e)"
| "decode_string JNull (old, e) = (old, e)"
| "decode_string _ (old, e) = (old, save_error TypeMismatch e)"

definition decode_field :: "string \<Rightarrow> json \<Rightarrow> jwk \<times> saved \<Rightarrow> jwk \<times> saved" where
  "decode_field name v st =
     (let (k, e) = st; f = fold_name name in
      if f = ''KID'' then (let (s, e') = decode_string v (Kid k, e) in (k\<lparr>Kid := s\<rparr>, e'))
      else if f = ''KTY'' then (let (s, e') = decode_string v (Kty k, e) in (k\<lparr>Kty := s\<rparr>, e'))
      else if f = ''ALG'' then (let (s, e') = decode_string v (Alg k, e) in (k\<lparr>Alg := s\<rparr>, e'))
      else if f = ''USE'' then (let (s, e') = decode_string v (Use k, e) in (k\<lparr>Use := s\<rparr>, e'))
      else if f = ''N'' then (let (s, e') = decode_string v (KeyN k, e) in (k\<lparr>KeyN := s\<rparr>, e'))
      else if f = ''E'' then (let (s, e') = decode_string v (KeyE k, e) in (k\<lparr>KeyE := s\<rparr>, e'))
      else (k, save_error (UnknownField name) e))"

definition decode_jwk :: "json \<Rightarrow> jwk \<times> saved \<Rightarrow> jwk \<times> saved" where
  "decode_jwk v st =
     (case v of
        JObj ms \<Rightarrow> fold (\<lambda>(n, x). decode_field n x) ms st
      | JNull \<Rightarrow> st
      | _ \<Rightarrow> (fst st, save_error TypeMismatch (snd st)))"

text \<open>
  A slice is its elements and, beyond its length, the elements an earlier decode left in the
  backing array: those are the starting values of the elements decoded there.
\<close>

type_synonym slice = "jwk list \<times> jwk list"

fun decode_elems :: "json list \<Rightarrow> jwk list \<Rightarrow> saved \<Rightarrow> jwk list \<times> saved" where
  "decode_elems [] old e = ([], e)"
| "decode_elems (v # vs) old e =
     (let (k, e1) = decode_jwk v (case old of [] \<Rightarrow> zero_jwk | x # _ \<Rightarrow> x, e);
          (ks, e2) = decode_elems vs (tl old) e1
      in (k # ks, e2))"

definition decode_slice :: "json \<Rightarrow> slice \<times> saved \<Rightarrow> slice \<times> saved" where
  "decode_slice v st =
     (let ((live, spare), e) = st in
      case v of
        JArr [] \<Rightarrow> (([], []), e)
      | JArr vs \<Rightarrow>
          (let (ks, e') = decode_elems vs (live @ spare) e
           in ((ks, drop (length vs) (live @ spare)), e'))
      | JNull \<Rightarrow> (([], []), e)
      | _ \<Rightarrow> (fst st, save_error TypeMismatch e))"

definition decode_top :: "string \<Rightarrow> json \<Rightarrow> slice \<times> saved \<Rightarrow> slice \<times> saved" where
  "decode_top name v st =
     (if fold_name name = ''KEYS'' then decode_slice v st
      else (fst st, save_error (UnknownField name) (snd st)))"

definition decode_jwks :: "json \<Rightarrow> slice \<times> saved" where
  "decode_jwks v =
     (case v of
        JObj ms \<Rightarrow> fold (\<lambda>(n, x). decode_top n x) ms (([], []), None)
      | JNull \<Rightarrow> (([], []), None)
      | _ \<Rightarrow> (([], []), Some TypeMismatch))"

section \<open>Validation\<close>

definition validateKey :: "jwk \<Rightarrow> (key_error, unit) result" where
  "validateKey k =
     (if Kid k = [] then Inl MissingKid
      else if Kty k \<noteq> KtyRSA then Inl (KtyNotAllowed (Kty k))
      else if Alg k \<noteq> AlgRS256 then Inl (AlgNotAllowed (Alg k))
      else if Use k \<noteq> UseSig then Inl (UseNotAllowed (Use k))
      else if KeyN k = [] then Inl MissingN
      else if KeyE k = [] then Inl MissingE
      else if (case RawURL_decode (KeyN k) of None \<Rightarrow> True | Some b \<Rightarrow> length b = 0)
        then Inl NNotBase64url
      else if (case RawURL_decode (KeyE k) of None \<Rightarrow> True | Some b \<Rightarrow> length b = 0)
        then Inl ENotBase64url
      else Inr ())"

fun validate_keys :: "nat \<Rightarrow> string set \<Rightarrow> jwk list \<Rightarrow> jwk list \<Rightarrow> (jwks_error, jwks) result" where
  "validate_keys i seen out [] = Inr \<lparr>Keys = out\<rparr>"
| "validate_keys i seen out (k # ks) =
     (case validateKey k of
        Inl e \<Rightarrow> Inl (KeyRejected i e)
      | Inr _ \<Rightarrow>
          if Kid k \<in> seen then Inl (KeyRejected i (DuplicateKid (Kid k)))
          else validate_keys (Suc i) (insert (Kid k) seen)
                 (out @ [\<lparr>Kid = Kid k, Kty = Kty k, Alg = Alg k, Use = Use k,
                          KeyN = KeyN k, KeyE = KeyE k\<rparr>]) ks)"

definition check_keys :: "jwk list \<Rightarrow> (jwks_error, jwks) result" where
  "check_keys ks =
     (if length ks = 0 then Inl EmptyKeySet
      else if MaxJWKSKeys < length ks then Inl (TooManyKeys (length ks))
      else validate_keys 0 {} [] ks)"

definition ParseAndValidate :: "bytes \<Rightarrow> (jwks_error, jwks) result" where
  "ParseAndValidate body =
     (case read_value MValue [] body of
        None \<Rightarrow> Inl (DecodeFailed SyntaxError)
      | Some (v, rest) \<Rightarrow>
          (case decode_jwks v of
             (_, Some e) \<Rightarrow> Inl (DecodeFailed e)
           | ((ks, _), None) \<Rightarrow>
               if decoder_more rest then Inl TrailingData else check_keys ks))"

section \<open>What an accepted key set is\<close>

definition valid_key :: "jwk \<Rightarrow> bool" where
  "valid_key k \<longleftrightarrow>
     Kid k \<noteq> [] \<and> Kty k = ''RSA'' \<and> Alg k = ''RS256'' \<and> Use k = ''sig'' \<and>
     b64_nonempty (KeyN k) \<and> b64_nonempty (KeyE k)"

definition valid_jwks :: "jwks \<Rightarrow> bool" where
  "valid_jwks j \<longleftrightarrow>
     1 \<le> length (Keys j) \<and> length (Keys j) \<le> 200 \<and> distinct (map Kid (Keys j)) \<and>
     (\<forall>k \<in> set (Keys j). valid_key k)"

definition utf8_key :: "jwk \<Rightarrow> bool" where
  "utf8_key k \<longleftrightarrow>
     valid_utf8 (Kid k) \<and> valid_utf8 (Kty k) \<and> valid_utf8 (Alg k) \<and> valid_utf8 (Use k) \<and>
     valid_utf8 (KeyN k) \<and> valid_utf8 (KeyE k)"

lemmas key_consts = KtyRSA_def AlgRS256_def UseSig_def

lemma b64_nonempty_Nil: "b64_nonempty s \<Longrightarrow> s \<noteq> []"
  by (auto simp: b64_nonempty_def b64_clean_def)

lemma decoded_nonempty:
  "(case RawURL_decode s of None \<Rightarrow> True | Some b \<Rightarrow> length b = 0) \<longleftrightarrow> \<not> b64_nonempty s"
  using RawURL_decode_nonempty [of s] by (auto split: option.splits)

lemma validateKey_iff [guards]: "validateKey k = Inr u \<longleftrightarrow> valid_key k"
  by (auto simp: validateKey_def valid_key_def key_consts decoded_nonempty dest: b64_nonempty_Nil)

lemma validateKey_cases:
  obtains (ok) "valid_key k" "validateKey k = Inr ()"
    | (bad) e where "\<not> valid_key k" "validateKey k = Inl e"
  using validateKey_iff [of k "()"] by (cases "validateKey k") auto

lemma validate_keys_ok [guards]:
  "validate_keys i seen out ks = Inr j \<longleftrightarrow>
     (\<forall>k \<in> set ks. valid_key k) \<and> distinct (map Kid ks) \<and> Kid ` set ks \<inter> seen = {} \<and>
     Keys j = out @ ks"
proof (induction ks arbitrary: i seen out)
  case Nil
  then show ?case by (cases j) auto
next
  case (Cons k ks)
  show ?case
  proof (cases rule: validateKey_cases [of k])
    case ok
    then show ?thesis using Cons.IH by auto
  qed auto
qed

lemma check_keys_ok [guards]:
  "check_keys ks = Inr j \<longleftrightarrow> Keys j = ks \<and> valid_jwks j"
  by (auto simp: check_keys_def validate_keys_ok valid_jwks_def MaxJWKSKeys_def Suc_le_eq)

lemma ParseAndValidate_iff [guards]:
  "ParseAndValidate body = Inr j \<longleftrightarrow>
     (\<exists>v rest spare. read_value MValue [] body = Some (v, rest) \<and>
        decode_jwks v = ((Keys j, spare), None) \<and> \<not> decoder_more rest \<and> valid_jwks j)"
  by (auto simp: ParseAndValidate_def check_keys_ok split: option.splits prod.splits if_splits)

end
