(* ===== verification/Errors.thy ===== *)
theory Errors
  imports Jwks
begin

text \<open>
  Go error values and their chains. A program error is a constructor of \<open>go_error\<close>: the two
  context errors, opaque errors of the libraries (\<open>ErrText\<close>), \<open>fmt.Errorf\<close> with a percent-w verb
  (\<open>ErrWrap\<close>), the \<open>*url.Error\<close> an \<open>http.Client\<close> puts around a transport's error, the
  sentinels of the source, and its two structured errors, \<open>*fetchError\<close> (fetcher.go) and
  \<open>*mintError\<close> (minter.go). \<open>errors.Is\<close> and \<open>errors.As\<close> walk the chain of \<open>Unwrap\<close>.
\<close>

datatype fetchErrorKind =
    fetchErrBuildRequest | fetchErrUpstream | fetchErrUpstreamCode | fetchErrReadBody
  | fetchErrBodyTooLarge | fetchErrJWKSInvalid | fetchErrTokenRead | fetchErrTokenEmpty

fun fetch_kind_string :: "fetchErrorKind \<Rightarrow> string" where
  "fetch_kind_string fetchErrBuildRequest = ''request_build''"
| "fetch_kind_string fetchErrUpstream = ''upstream_request''"
| "fetch_kind_string fetchErrUpstreamCode = ''upstream_status''"
| "fetch_kind_string fetchErrReadBody = ''body_read''"
| "fetch_kind_string fetchErrBodyTooLarge = ''body_too_large''"
| "fetch_kind_string fetchErrJWKSInvalid = ''jwks_invalid''"
| "fetch_kind_string fetchErrTokenRead = ''token_read''"
| "fetch_kind_string fetchErrTokenEmpty = ''token_empty''"

datatype mintErrorKind = mintErrMissingCredentials | mintErrMissingTags | mintErrCreateKey

fun mint_kind_string :: "mintErrorKind \<Rightarrow> string" where
  "mint_kind_string mintErrMissingCredentials = ''missing_client_credentials''"
| "mint_kind_string mintErrMissingTags = ''missing_tags''"
| "mint_kind_string mintErrCreateKey = ''create_auth_key_failed''"

datatype go_error =
    ErrText string
  | ErrCanceled
  | ErrDeadlineExceeded
  | ErrServerClosed
  | ErrIssuerHostMismatch
  | ErrLeadershipLost
  | ErrJWKS jwks_error
  | ErrWrap string go_error
  | ErrURL go_error
  | ErrFetch (fe_kind: fetchErrorKind) (fe_url: string) (fe_statusCode: int)
      (fe_bodySizeBytes: int) (fe_err: "go_error option")
  | ErrMint mintErrorKind "go_error option"

fun chain :: "go_error \<Rightarrow> go_error list" where
  "chain (ErrWrap s e) = ErrWrap s e # chain e"
| "chain (ErrURL e) = ErrURL e # chain e"
| "chain (ErrFetch k u c b (Some e)) = ErrFetch k u c b (Some e) # chain e"
| "chain (ErrMint k (Some e)) = ErrMint k (Some e) # chain e"
| "chain e = [e]"

section \<open>Error texts\<close>

text \<open>
  The \<open>Error\<close> methods of the two structured errors. The text of the wrapped error is \<open>inner\<close>, what
  the verb for quoted strings makes of a path \<open>quoted\<close>.
\<close>

definition verb_v :: "(go_error \<Rightarrow> string) \<Rightarrow> go_error option \<Rightarrow> string" where
  "verb_v inner eo = (case eo of None \<Rightarrow> ''<nil>'' | Some e \<Rightarrow> inner e)"

fun fetchError_Error ::
  "(go_error \<Rightarrow> string) \<Rightarrow> (string \<Rightarrow> string) \<Rightarrow> fetchErrorKind \<Rightarrow> string \<Rightarrow> int \<Rightarrow> int \<Rightarrow>
     go_error option \<Rightarrow> string" where
  "fetchError_Error inner quoted fetchErrBuildRequest u c b e = ''build request: '' @ verb_v inner e"
| "fetchError_Error inner quoted fetchErrUpstream u c b e = ''fetch '' @ u @ '': '' @ verb_v inner e"
| "fetchError_Error inner quoted fetchErrUpstreamCode u c b e = ''fetch '' @ u @ '': status '' @ Itoa c"
| "fetchError_Error inner quoted fetchErrReadBody u c b e = ''read body: '' @ verb_v inner e"
| "fetchError_Error inner quoted fetchErrBodyTooLarge u c b e = ''response body exceeds '' @ Itoa b @ '' bytes''"
| "fetchError_Error inner quoted fetchErrJWKSInvalid u c b e =
     (case e of None \<Rightarrow> ''jwks validation failed'' | Some x \<Rightarrow> inner x)"
| "fetchError_Error inner quoted fetchErrTokenRead u c b e = ''read token '' @ quoted u @ '': '' @ verb_v inner e"
| "fetchError_Error inner quoted fetchErrTokenEmpty u c b e = ''token file is empty''"

fun mintError_Error :: "(go_error \<Rightarrow> string) \<Rightarrow> mintErrorKind \<Rightarrow> go_error option \<Rightarrow> string" where
  "mintError_Error inner mintErrMissingCredentials e = ''oauth minter: client id and secret required''"
| "mintError_Error inner mintErrMissingTags e = ''oauth minter: at least one tag required''"
| "mintError_Error inner mintErrCreateKey e = ''create auth key: '' @ verb_v inner e"

section \<open>Identity along the chain\<close>

definition errors_Is :: "go_error \<Rightarrow> go_error \<Rightarrow> bool" where
  "errors_Is e target \<longleftrightarrow> target \<in> set (chain e)"

definition is_fetch :: "go_error \<Rightarrow> bool" where
  "is_fetch e = (case e of ErrFetch _ _ _ _ _ \<Rightarrow> True | _ \<Rightarrow> False)"

definition is_mint :: "go_error \<Rightarrow> bool" where
  "is_mint e = (case e of ErrMint _ _ \<Rightarrow> True | _ \<Rightarrow> False)"

text \<open>\<open>errors.As\<close> to \<open>*fetchError\<close> and \<open>*mintError\<close>: the first in the chain.\<close>

definition as_fetchError :: "go_error \<Rightarrow> go_error option" where
  "as_fetchError e = find is_fetch (chain e)"

definition as_mintError :: "go_error \<Rightarrow> go_error option" where
  "as_mintError e = find is_mint (chain e)"

lemma chain_hd [simp]: "chain e \<noteq> []" "hd (chain e) = e"
  by (induction e rule: chain.induct) auto

lemma as_fetchError_self [simp]:
  "as_fetchError (ErrFetch k u c b r) = Some (ErrFetch k u c b r)"
  by (cases r) (auto simp: as_fetchError_def is_fetch_def)

lemma as_fetchError_is:
  assumes "as_fetchError e = Some f"
  shows "\<exists>k u c b r. f = ErrFetch k u c b r"
proof -
  have "is_fetch f" using assms by (auto simp: as_fetchError_def find_Some_iff)
  then show ?thesis by (cases f) (auto simp: is_fetch_def)
qed

end
