(* ===== verification/Go_Float.thy ===== *)
theory Go_Float
  imports Prelude Complex_Main "HOL-Library.Log_Nat"
begin

text \<open>
  Go's \<open>float64\<close> arithmetic as the source meets it, through \<open>Duration.Seconds\<close> and
  \<open>ParseDuration\<close>: IEEE 754 binary64 with rounding to nearest, ties to even. A finite float is
  the rational number it denotes; \<open>fl\<close> rounds an exact result to 53 significant bits. The
  magnitudes that occur lie between \<open>10^-19\<close> and \<open>10^32\<close>, far from overflow and from the
  subnormal numbers, so \<open>fl\<close> has no exponent range.
\<close>

section \<open>Rounding to an integer, ties to even\<close>

definition rne :: "rat \<Rightarrow> int" where
  "rne x =
     (let f = \<lfloor>x\<rfloor>; r = x - of_int f
      in if r < 1 / 2 then f else if 1 / 2 < r then f + 1
         else if even f then f else f + 1)"

lemma rne_error: "\<bar>of_int (rne x) - x\<bar> \<le> 1 / 2"
proof -
  have f: "of_int \<lfloor>x\<rfloor> \<le> x" "x < of_int \<lfloor>x\<rfloor> + 1" by linarith+
  have c: "rne x = \<lfloor>x\<rfloor> \<and> x - of_int \<lfloor>x\<rfloor> \<le> 1 / 2 \<or> rne x = \<lfloor>x\<rfloor> + 1 \<and> 1 / 2 \<le> x - of_int \<lfloor>x\<rfloor>"
    by (auto simp: rne_def Let_def)
  from c show ?thesis
  proof
    assume "rne x = \<lfloor>x\<rfloor> \<and> x - of_int \<lfloor>x\<rfloor> \<le> 1 / 2"
    then show ?thesis using f by linarith
  next
    assume "rne x = \<lfloor>x\<rfloor> + 1 \<and> 1 / 2 \<le> x - of_int \<lfloor>x\<rfloor>"
    then have "rne x = \<lfloor>x\<rfloor> + 1" and "1 / 2 \<le> x - of_int \<lfloor>x\<rfloor>" by simp_all
    then show ?thesis using f by simp
  qed
qed

lemma rne_of_int [simp]: "rne (of_int n) = n"
  by (simp add: rne_def)

section \<open>The binary exponent\<close>

definition two_powi :: "int \<Rightarrow> rat" where
  "two_powi k = (if 0 \<le> k then 2 ^ nat k else 1 / 2 ^ nat (- k))"

definition bin_exp :: "rat \<Rightarrow> int" where
  "bin_exp x =
     (let (a, b) = quotient_of x;
          k = bitlen a - bitlen b
      in if two_powi k \<le> x then k else k - 1)"

lemma two_powi_pos [simp]: "0 < two_powi k"
  by (simp add: two_powi_def)

lemma two_powi_nonzero [simp]: "two_powi k \<noteq> 0"
  using two_powi_pos [of k] by linarith

lemma two_powi_powi: "two_powi k = 2 powi k"
  by (simp add: two_powi_def power_int_def inverse_eq_divide power_one_over)

lemma two_powi_add: "two_powi (j + k) = two_powi j * two_powi k"
  by (simp add: two_powi_powi power_int_add)

lemma two_powi_nat: "two_powi (int n) = 2 ^ n"
  by (simp add: two_powi_def)

lemma two_powi_mono: "j \<le> k \<Longrightarrow> two_powi j \<le> two_powi k"
  by (simp add: two_powi_powi power_int_increasing)

lemma floorlog_two:
  assumes "0 < n"
  shows "two_powi (int (floorlog 2 n) - 1) \<le> of_nat n \<and> of_nat n < two_powi (int (floorlog 2 n))"
proof -
  let ?s = "floorlog 2 n"
  have b: "2 ^ (?s - 1) \<le> n" "n < 2 ^ ?s" using floorlog_bounds [of n 2] assms by auto
  have s: "0 < ?s" using b(2) assms by (cases ?s) auto
  have "two_powi (int ?s - 1) = 2 ^ (?s - 1)"
    using two_powi_nat [of "?s - 1"] s by (simp add: of_nat_diff)
  moreover have "(2::rat) ^ (?s - 1) \<le> of_nat n"
    using b(1) by (metis of_nat_le_iff of_nat_numeral of_nat_power)
  moreover have "(of_nat n :: rat) < 2 ^ ?s"
    using b(2) by (metis of_nat_less_iff of_nat_numeral of_nat_power)
  ultimately show ?thesis by (simp add: two_powi_nat)
qed

lemma bin_exp_bounds:
  assumes "0 < x"
  shows "two_powi (bin_exp x) \<le> x \<and> x < two_powi (bin_exp x + 1)"
proof -
  obtain a b where q: "quotient_of x = (a, b)" by (cases "quotient_of x")
  have b: "0 < b" using q by (rule quotient_of_denom_pos)
  have x: "x = of_int a / of_int b" using q by (rule quotient_of_div)
  have a: "0 < a" using assms b by (simp add: x zero_less_divide_iff)
  let ?m = "int (floorlog 2 (nat a))" and ?n = "int (floorlog 2 (nat b))"
  have A: "two_powi (?m - 1) \<le> of_int a" "of_int a < two_powi ?m"
    using floorlog_two [of "nat a"] a by auto
  have B: "two_powi (?n - 1) \<le> of_int b" "of_int b < two_powi ?n"
    using floorlog_two [of "nat b"] b by auto
  have lo: "two_powi (?m - ?n - 1) \<le> x"
  proof -
    have "two_powi (?m - ?n - 1) * of_int b \<le> two_powi (?m - ?n - 1) * two_powi ?n"
      using B(2) by (intro mult_left_mono) (auto intro: less_imp_le)
    also have "\<dots> = two_powi (?m - 1)" by (simp flip: two_powi_add)
    finally show ?thesis using A(1) b by (simp add: x pos_le_divide_eq)
  qed
  have hi: "x < two_powi (?m - ?n + 1)"
  proof -
    have "two_powi ?m = two_powi (?m - ?n + 1) * two_powi (?n - 1)" by (simp flip: two_powi_add)
    also have "\<dots> \<le> two_powi (?m - ?n + 1) * of_int b"
      using B(1) by (intro mult_left_mono) (auto intro: less_imp_le)
    finally show ?thesis using A(2) b by (simp add: x pos_divide_less_eq)
  qed
  show ?thesis using lo hi by (auto simp: bin_exp_def bitlen_def q Let_def)
qed

section \<open>Rounding to a float\<close>

definition fl :: "rat \<Rightarrow> rat" where
  "fl x =
     (if x = 0 then 0
      else let u = two_powi (bin_exp \<bar>x\<bar> - 52) in of_int (rne (x / u)) * u)"

lemma fl_zero [simp]: "fl 0 = 0"
  by (simp add: fl_def)

lemma fl_error: "\<bar>fl x - x\<bar> \<le> \<bar>x\<bar> / 2 ^ 53"
proof (cases "x = 0")
  case False
  let ?e = "bin_exp \<bar>x\<bar>"
  let ?u = "two_powi (?e - 52)"
  have u: "0 < ?u" by simp
  have "fl x - x = (of_int (rne (x / ?u)) - x / ?u) * ?u"
    using False by (simp add: fl_def Let_def algebra_simps)
  then have "\<bar>fl x - x\<bar> = \<bar>of_int (rne (x / ?u)) - x / ?u\<bar> * ?u"
    by (simp only: abs_mult abs_of_pos [OF u])
  also have "\<dots> \<le> 1 / 2 * ?u" 
    by (rule mult_right_mono [OF rne_error less_imp_le [OF u]])
  also have "\<dots> = two_powi ?e / 2 ^ 53"
    using two_powi_add [of ?e "-52"] by (simp add: two_powi_def [of "-52"])
  also have "\<dots> \<le> \<bar>x\<bar> / 2 ^ 53"
    using bin_exp_bounds [of "\<bar>x\<bar>"] False by (intro divide_right_mono) auto
  finally show ?thesis .
qed simp

lemma fl_of_int_exact:
  assumes "\<bar>n\<bar> < 2 ^ 53"
  shows "fl (of_int n) = of_int n"
proof (cases "n = 0")
  case False
  let ?x = "of_int n :: rat"
  let ?e = "bin_exp \<bar>?x\<bar>"
  have "two_powi ?e \<le> \<bar>?x\<bar>" using bin_exp_bounds [of "\<bar>?x\<bar>"] False by auto
  also have "\<bar>?x\<bar> = of_int \<bar>n\<bar>" by simp
  also have "\<dots> < of_int (2 ^ 53)" using assms of_int_less_iff by blast
  finally have "two_powi ?e < two_powi 53" by (simp add: two_powi_def [of 53])
  then have e: "?e \<le> 52" using two_powi_mono [of 53 ?e] by linarith
  let ?k = "nat (52 - ?e)"
  have u: "two_powi (?e - 52) * 2 ^ ?k = 1"
    using e two_powi_add [of "?e - 52" "52 - ?e"]
    by (simp add: two_powi_nat [symmetric] two_powi_def [of 0])
  then have "?x / two_powi (?e - 52) = of_int (n * 2 ^ ?k)"
    by (simp add: divide_eq_eq mult.assoc mult.commute mult.left_commute)
  then have "fl ?x = of_int (n * 2 ^ ?k) * two_powi (?e - 52)"
    using False by (simp only: fl_def Let_def rne_of_int) simp
  then show ?thesis using u by (simp add: mult.assoc mult.commute)
qed simp

lemma fl_between:
  assumes "0 \<le> x"
  shows "x - x / 2 ^ 53 \<le> fl x \<and> fl x \<le> x + x / 2 ^ 53"
  using fl_error [of x] assms by linarith

lemma fl_nonneg:
  assumes "0 \<le> x"
  shows "0 \<le> fl x"
proof -
  have "0 \<le> x - x / 2 ^ 53" using assms by (simp add: field_simps)
  then show ?thesis using fl_between [OF assms] by linarith
qed

lemma fl_nonpos:
  assumes "x \<le> 0"
  shows "fl x \<le> 0"
proof -
  have "x + - x / 2 ^ 53 \<le> 0" using assms by (simp add: field_simps)
  moreover have "fl x - x \<le> - x / 2 ^ 53" using fl_error [of x] assms by simp
  ultimately show ?thesis by linarith
qed

section \<open>Rounding is monotone\<close>

lemma rne_bounds: "\<lfloor>x\<rfloor> \<le> rne x \<and> rne x \<le> \<lfloor>x\<rfloor> + 1"
  by (simp add: rne_def Let_def)

lemma rne_mono: "x \<le> y \<Longrightarrow> rne x \<le> rne y"
proof (cases "\<lfloor>x\<rfloor> = \<lfloor>y\<rfloor>")
  case True
  assume "x \<le> y"
  then show ?thesis using True by (auto simp: rne_def Let_def)
next
  case False
  assume "x \<le> y"
  then have "\<lfloor>x\<rfloor> < \<lfloor>y\<rfloor>" using False floor_mono [of x y] by linarith
  then show ?thesis using rne_bounds [of x] rne_bounds [of y] by linarith
qed

lemma bin_exp_mono:
  assumes "0 < x" and "x \<le> y"
  shows "bin_exp x \<le> bin_exp y"
proof (rule ccontr)
  assume "\<not> ?thesis"
  then have "two_powi (bin_exp y + 1) \<le> two_powi (bin_exp x)" by (intro two_powi_mono) simp
  then show False using bin_exp_bounds [of x] bin_exp_bounds [of y] assms by linarith
qed

text \<open>Rounding stays within the binade.\<close>

lemma fl_binade:
  assumes "0 < x"
  shows "two_powi (bin_exp x) \<le> fl x \<and> fl x \<le> two_powi (bin_exp x + 1)"
proof -
  let ?u = "two_powi (bin_exp x - 52)"
  have e: "two_powi (bin_exp x) = of_int (2 ^ 52) * ?u" "two_powi (bin_exp x + 1) = of_int (2 ^ 53) * ?u"
    using two_powi_add [of 52 "bin_exp x - 52"] two_powi_add [of 53 "bin_exp x - 52"]
    by (simp_all add: two_powi_def [of 52] two_powi_def [of 53] add.commute)
  have u: "0 < ?u" by simp
  have "of_int (2 ^ 52) \<le> x / ?u" "x / ?u \<le> of_int (2 ^ 53)"
    using bin_exp_bounds [OF assms] unfolding e
    by (simp_all add: pos_le_divide_eq [OF u] pos_divide_le_eq [OF u])
  then have "rne (of_int (2 ^ 52)) \<le> rne (x / ?u)" "rne (x / ?u) \<le> rne (of_int (2 ^ 53))"
    by (auto intro!: rne_mono)
  then have "2 ^ 52 \<le> rne (x / ?u)" "rne (x / ?u) \<le> 2 ^ 53" unfolding rne_of_int by simp_all
  then have "of_int (2 ^ 52) \<le> (of_int (rne (x / ?u)) :: rat)" "(of_int (rne (x / ?u)) :: rat) \<le> of_int (2 ^ 53)"
    by (simp_all only: of_int_le_iff)
  moreover have "fl x = of_int (rne (x / ?u)) * ?u" using assms by (simp add: fl_def Let_def)
  ultimately show ?thesis unfolding e using u by (simp only: mult_right_mono less_imp_le) 
qed

lemma fl_mono:
  assumes "0 \<le> x" and "x \<le> y"
  shows "fl x \<le> fl y"
proof (cases "x = 0")
  case True
  then show ?thesis using assms fl_nonneg [of y] by simp
next
  case False
  then have x: "0 < x" and y: "0 < y" using assms by auto
  show ?thesis
  proof (cases "bin_exp x = bin_exp y")
    case True
    let ?u = "two_powi (bin_exp y - 52)"
    have u: "0 < ?u" by simp
    have le: "x / ?u \<le> y / ?u" using assms(2) less_imp_le [OF u] by (rule divide_right_mono)
    have "rne (x / ?u) \<le> rne (y / ?u)" using le by (rule rne_mono)
    then have "(of_int (rne (x / ?u)) :: rat) \<le> of_int (rne (y / ?u))" by (simp only: of_int_le_iff)
    then have "of_int (rne (x / ?u)) * ?u \<le> of_int (rne (y / ?u)) * ?u"
      using less_imp_le [OF u] by (rule mult_right_mono)
    then show ?thesis using x y True by (simp add: fl_def Let_def)
  next
    case False
    then have "bin_exp x + 1 \<le> bin_exp y" using bin_exp_mono [OF x assms(2)] by simp
    then have "two_powi (bin_exp x + 1) \<le> two_powi (bin_exp y)" by (rule two_powi_mono)
    then show ?thesis using fl_binade [OF x] fl_binade [OF y] by linarith
  qed
qed

section \<open>Conversions\<close>

text \<open>\<open>float64(n)\<close> and \<open>int(x)\<close>, which truncates toward zero.\<close>

definition float_of_int :: "int \<Rightarrow> rat" where
  "float_of_int n = fl (of_int n)"

definition int_of_float :: "rat \<Rightarrow> int" where
  "int_of_float x = (if 0 \<le> x then \<lfloor>x\<rfloor> else \<lceil>x\<rceil>)"

end
