(* ===== verification/Go_Time.thy ===== *)
theory Go_Time
  imports Go_Text Go_Float "HOL-Library.Signed_Division"
begin

text \<open>
  Go's package \<open>time\<close> as the source uses it. A \<open>time.Duration\<close> is an \<open>int64\<close> count of
  nanoseconds, modelled by \<open>int\<close> with the wrap-around of \<open>+\<close>, \<open>-\<close> and \<open>*\<close> written out by
  \<open>wrap64\<close>. A \<open>time.Time\<close> is the reading of the clock in nanoseconds since Go's zero time, so the
  zero time is 0; \<open>Sub\<close> saturates at the ends of the \<open>int64\<close> range as Go's does.
\<close>

type_synonym duration = int
type_synonym time = int

section \<open>int64\<close>

definition wrap64 :: "int \<Rightarrow> int" where
  "wrap64 x = (x + 2 ^ 63) mod 2 ^ 64 - 2 ^ 63"

definition in64 :: "int \<Rightarrow> bool" where
  "in64 x \<longleftrightarrow> - (2 ^ 63) \<le> x \<and> x < 2 ^ 63"

lemma wrap64_in64 [simp]: "in64 (wrap64 x)"
  by (simp add: wrap64_def in64_def)

lemma wrap64_id: "in64 x \<Longrightarrow> wrap64 x = x"
  by (simp add: wrap64_def in64_def)

lemma wrap64_over: "2 ^ 63 \<le> x \<Longrightarrow> x < 2 ^ 64 + 2 ^ 63 \<Longrightarrow> wrap64 x = x - 2 ^ 64"
proof -
  assume a: "2 ^ 63 \<le> x" "x < 2 ^ 64 + 2 ^ 63"
  have "(x + 2 ^ 63) mod 2 ^ 64 = (x + 2 ^ 63 - 2 ^ 64) mod 2 ^ 64"
    by (rule minus_mod_self2 [symmetric])
  also have "\<dots> = x + 2 ^ 63 - 2 ^ 64" using a by (intro mod_pos_pos_trivial) auto
  finally show ?thesis by (simp add: wrap64_def)
qed

lemma wrap64_under: "x < - (2 ^ 63) \<Longrightarrow> - (2 ^ 64) - 2 ^ 63 \<le> x \<Longrightarrow> wrap64 x = x + 2 ^ 64"
proof -
  assume a: "x < - (2 ^ 63)" "- (2 ^ 64) - 2 ^ 63 \<le> x"
  have "(x + 2 ^ 63) mod 2 ^ 64 = (x + 2 ^ 63 + 2 ^ 64) mod 2 ^ 64"
    by (rule mod_add_self2 [symmetric])
  also have "\<dots> = x + 2 ^ 63 + 2 ^ 64" using a by (intro mod_pos_pos_trivial) auto
  finally show ?thesis by (simp add: wrap64_def)
qed

section \<open>Durations and times\<close>

definition Millisecond :: duration where "Millisecond = 1000000"
definition Second :: duration where "Second = 1000000000"
definition Minute :: duration where "Minute = 60 * 1000000000"
definition Hour :: duration where "Hour = 3600 * 1000000000"

lemmas time_units = Millisecond_def Second_def Minute_def Hour_def

definition IsZero :: "time \<Rightarrow> bool" where
  "IsZero t \<longleftrightarrow> t = 0"

definition Sub :: "time \<Rightarrow> time \<Rightarrow> duration" where
  "Sub t u = max (- (2 ^ 63)) (min (2 ^ 63 - 1) (t - u))"

lemma Sub_exact: "in64 (t - u) \<Longrightarrow> Sub t u = t - u"
  by (auto simp: Sub_def in64_def)

lemma Sub_le: "0 \<le> t - u \<Longrightarrow> Sub t u \<le> t - u"
  by (simp add: Sub_def)

lemma in64_Sub [simp]: "in64 (Sub t u)"
  by (auto simp: Sub_def in64_def)

text \<open>
  \<open>Duration.Seconds\<close> adds the float of the whole seconds and the float of the rest over
  \<open>1e9\<close>; \<open>Milliseconds\<close> is an integer division. Both divide toward zero.
\<close>

definition Seconds :: "duration \<Rightarrow> rat" where
  "Seconds d =
     fl (float_of_int (d sdiv Second) + fl (float_of_int (d smod Second) / 1000000000))"

definition Milliseconds :: "duration \<Rightarrow> int" where
  "Milliseconds d = d sdiv Millisecond"

text \<open>\<open>int(d.Seconds())\<close>, the number in every \<open>max-age\<close> header.\<close>

definition whole_seconds :: "duration \<Rightarrow> int" where
  "whole_seconds d = int_of_float (Seconds d)"

text \<open>
  The two roundings never carry a fraction over to the next second below \<open>2^22\<close> seconds (48
  days): there \<open>whole_seconds\<close> is the integer quotient.
\<close>

lemma carry_free:
  fixes s q f y :: rat
  assumes "s \<le> 2 ^ 22 - 1" and "q \<le> 999999999 / 1000000000" and "f \<le> q + q / 2 ^ 53"
    and "y \<le> (s + f) + (s + f) / 2 ^ 53"
  shows "y < s + 1"
proof -
  have "f \<le> 999999999 / 1000000000 + 1 / 2 ^ 53" using assms(2,3) by simp
  then show ?thesis using assms(1,4) by (simp add: field_simps)
qed

lemma borrow_free:
  fixes s q f y :: rat
  assumes "s \<le> 2 ^ 22 - 1" and "1 / 1000000000 \<le> q" and "q \<le> 1"
    and "q - q / 2 ^ 53 \<le> f" and "(s + f) - (s + f) / 2 ^ 53 \<le> y"
  shows "s \<le> y"
proof -
  have "1 / 1000000000 - 1 / 2 ^ 53 \<le> f" using assms(2-4) by simp
  then show ?thesis using assms(1,5) by (simp add: field_simps)
qed

lemma whole_seconds_floor:
  assumes "0 \<le> d" and "d < 2 ^ 22 * Second"
  shows "whole_seconds d = d div Second"
proof -
  let ?s = "d div Second" and ?n = "d mod Second"
  have s: "0 \<le> ?s" "?s < 2 ^ 22" using assms by (auto simp: Second_def)
  have n: "0 \<le> ?n" "?n \<le> 999999999" using pos_mod_bound [of Second d] by (auto simp: Second_def)
  have quot: "d sdiv Second = ?s" and rem: "d smod Second = ?n"
    using assms(1) by (auto simp: signed_divide_int_def signed_modulo_int_def sgn_if Second_def
        minus_div_mult_eq_mod)
  have fs: "float_of_int ?s = of_int ?s" and fn: "float_of_int ?n = of_int ?n"
    using s n by (auto simp: float_of_int_def intro!: fl_of_int_exact)
  let ?q = "of_int ?n / 1000000000 :: rat"
  have q: "0 \<le> ?q" "?q \<le> 999999999 / 1000000000" using n by (auto simp: divide_le_cancel)
  let ?x = "of_int ?s + fl ?q"
  have fq: "?q - ?q / 2 ^ 53 \<le> fl ?q" "fl ?q \<le> ?q + ?q / 2 ^ 53" 
    using fl_between [OF q(1)] by blast+
  have fq0: "0 \<le> fl ?q" using q(1) by (rule fl_nonneg)
  have sr: "0 \<le> (of_int ?s :: rat)" "(of_int ?s :: rat) \<le> 2 ^ 22 - 1"
  proof -
    show "0 \<le> (of_int ?s :: rat)" using s by simp
    have "(of_int ?s :: rat) \<le> of_int (2 ^ 22 - 1)" using s(2) by (intro of_int_le_iff [THEN iffD2]) simp
    then show "(of_int ?s :: rat) \<le> 2 ^ 22 - 1" by simp
  qed
  have fx: "?x - ?x / 2 ^ 53 \<le> fl ?x" "fl ?x \<le> ?x + ?x / 2 ^ 53"
    using fl_between [of ?x] fq0 sr by auto
  have up: "fl ?x < of_int ?s + 1" using sr(2) q(2) fq(2) fx(2) by (rule carry_free)
  have low: "of_int ?s \<le> fl ?x"
  proof (cases "?n = 0")
    case True
    then show ?thesis using s by (simp add: fl_of_int_exact)
  next
    case False
    then have "1 \<le> (of_int ?n :: rat)" using n by (metis int_one_le_iff_zero_less of_int_1_le_iff order_le_less)
    then have "1 / 1000000000 \<le> ?q" by simp
    moreover have "?q \<le> 1" using q(2) by simp
    ultimately show ?thesis using borrow_free [OF sr(2) _ _ fq(1) fx(1)] by blast
  qed
  have "\<lfloor>fl ?x\<rfloor> = ?s" using up low by (intro floor_unique) auto
  moreover have "0 \<le> fl ?x" using fl_nonneg fq0 sr by simp
  ultimately show ?thesis
    by (simp add: whole_seconds_def Seconds_def quot rem fs fn int_of_float_def)
qed

text \<open>\<open>Seconds\<close> is monotone: rounding never reorders two durations.\<close>

lemma Seconds_parts:
  assumes "0 \<le> d"
  shows "Seconds d = fl (float_of_int (d div Second) + fl (of_int (d mod Second) / 1000000000))"
proof -
  have "0 \<le> d mod Second" "d mod Second < Second" by (simp_all add: Second_def)
  moreover have "d sdiv Second = d div Second" "d smod Second = d mod Second"
    using assms by (auto simp: signed_divide_int_def signed_modulo_int_def sgn_if Second_def
        minus_div_mult_eq_mod)
  ultimately show ?thesis by (simp add: Seconds_def float_of_int_def fl_of_int_exact Second_def)
qed

lemma Seconds_nonneg: "0 \<le> d \<Longrightarrow> 0 \<le> Seconds d"
  unfolding Seconds_parts float_of_int_def by (intro fl_nonneg add_nonneg_nonneg) (simp_all add: Second_def)

lemma Seconds_mono:
  assumes "0 \<le> d" and "d \<le> e" and "in64 e"
  shows "Seconds d \<le> Seconds e"
proof -
  let ?q = "\<lambda>x. of_int (x mod Second) / 1000000000 :: rat"
  have q: "0 \<le> ?q x" "?q x \<le> 1" for x
  proof -
    have "0 \<le> x mod Second" "x mod Second \<le> 1000000000" by (simp_all add: Second_def)
    then have "0 \<le> (of_int (x mod Second) :: rat)" "(of_int (x mod Second) :: rat) \<le> of_int 1000000000"
      by (simp_all only: of_int_0_le_iff of_int_le_iff)
    then show "0 \<le> ?q x" "?q x \<le> 1" by simp_all
  qed
  have "float_of_int (d div Second) + fl (?q d) \<le> float_of_int (e div Second) + fl (?q e)"
  proof (cases "d div Second = e div Second")
    case True
    then have "d mod Second \<le> e mod Second" using assms(2) by (metis add_le_cancel_left mult_div_mod_eq)
    then show ?thesis using True q by (simp add: fl_mono divide_right_mono)
  next
    case False
    have fq: "fl (?q d) \<le> 1" using fl_mono [OF q(1) q(2), of d] fl_of_int_exact [of 1] by simp
    have lt: "d div Second < e div Second" using False zdiv_mono1 [OF assms(2), of Second] by (simp add: Second_def)
    moreover have "0 \<le> d div Second" using assms(1) by (simp add: Second_def)
    moreover have "e div Second < 2 ^ 53" using assms(3) zdiv_mono1 [of e "2 ^ 63" Second]
      by (simp add: in64_def Second_def)
    ultimately have "float_of_int (d div Second) = of_int (d div Second)" "float_of_int (e div Second) = of_int (e div Second)"
      by (auto simp: float_of_int_def intro!: fl_of_int_exact)
    moreover have "(of_int (d div Second) :: rat) + 1 \<le> of_int (e div Second)"
      using lt by (metis of_int_le_iff of_int_1 of_int_add zless_imp_add1_zle)
    ultimately show ?thesis using fq fl_nonneg [OF q(1), of e] by linarith
  qed
  moreover have "0 \<le> float_of_int (d div Second) + fl (?q d)"
    using assms(1) fl_nonneg [OF q(1), of d] by (simp add: float_of_int_def fl_nonneg Second_def)
  ultimately show ?thesis using assms by (simp add: Seconds_parts fl_mono)
qed

lemma Seconds_nonpos:
  assumes "d \<le> 0"
  shows "Seconds d \<le> 0"
proof -
  have "d sdiv Second \<le> 0" "d smod Second \<le> 0"
    using assms by (auto simp: signed_divide_int_def signed_modulo_int_def sgn_if Second_def)
  then show ?thesis unfolding Seconds_def float_of_int_def
    by (intro fl_nonpos add_nonpos_nonpos divide_nonpos_pos) auto
qed

text \<open>Whatever the magnitude, truncation gives the whole seconds or the next second.\<close>

lemma whole_seconds_bound:
  assumes "0 \<le> d" and "in64 d"
  shows "0 \<le> whole_seconds d \<and> whole_seconds d * Second \<le> d + Second"
proof -
  let ?s = "d div Second" and ?q = "of_int (d mod Second) / 1000000000 :: rat"
  have s: "0 \<le> ?s" "?s < 2 ^ 53 - 1"
    using assms zdiv_mono1 [of d "2 ^ 63" Second] by (auto simp: in64_def Second_def)
  have "0 \<le> d mod Second" "d mod Second \<le> 1000000000" by (simp_all add: Second_def)
  then have "0 \<le> (of_int (d mod Second) :: rat)" "(of_int (d mod Second) :: rat) \<le> of_int 1000000000"
    by (simp_all only: of_int_0_le_iff of_int_le_iff)
  then have q: "0 \<le> ?q" "?q \<le> 1" by simp_all
  have "fl ?q \<le> 1" using fl_mono [OF q] fl_of_int_exact [of 1] by simp
  then have "of_int ?s + fl ?q \<le> of_int (?s + 1)" by simp
  then have "fl (of_int ?s + fl ?q) \<le> fl (of_int (?s + 1))"
    using s(1) fl_nonneg [OF q(1)] by (intro fl_mono) auto
  also have "\<dots> = of_int (?s + 1)" using s by (intro fl_of_int_exact) auto
  finally have up: "Seconds d \<le> of_int (?s + 1)"
    using s by (simp add: Seconds_parts [OF assms(1)] float_of_int_def fl_of_int_exact)
  have n: "0 \<le> Seconds d" using assms(1) by (rule Seconds_nonneg)
  then have "whole_seconds d \<le> ?s + 1" using up by (simp add: whole_seconds_def int_of_float_def floor_le_iff)
  then have "whole_seconds d * Second \<le> (?s + 1) * Second" by (intro mult_right_mono) (auto simp: Second_def)
  also have "\<dots> \<le> d + Second" using mult_div_mod_eq [of Second d] pos_mod_sign [of Second d]
    by (simp add: Second_def algebra_simps)
  finally show ?thesis using n by (simp add: whole_seconds_def int_of_float_def)
qed

end
