(* ===== verification/Metrics.thy ===== *)
theory Metrics
  imports Go_Time
begin

text \<open>
  \<open>internal/metrics/metrics.go\<close>. The Prometheus client is not part of the repository: what the
  recorder does to it is the sequence of instrument calls it makes, each an instrument by its
  registered name with its label values. The value of a counter series is the number of its
  increments. The recorder's own state is the set of atomics behind the gauges. A nil receiver is
  \<open>None\<close>; \<open>now\<close> is the reading of \<open>m.now\<close>.
\<close>

section \<open>State\<close>

datatype metric_call =
    Inc string "string list"
  | Observe string "string list" rat

record metrics =
  jwksStaleWindow :: duration
  jwksUpdatedAt :: int
  jwksKidCount :: int
  jwksHasValue :: bool
  m_leader :: bool
  m_publicReady :: bool
  calls :: "metric_call list"

definition resultSuccess :: string where "resultSuccess = ''success''"
definition resultFailure :: string where "resultFailure = ''failure''"
definition errorKindNone :: string where "errorKindNone = ''none''"

definition New_metrics :: "duration \<Rightarrow> metrics" where
  "New_metrics w =
     \<lparr>jwksStaleWindow = w, jwksUpdatedAt = 0, jwksKidCount = 0, jwksHasValue = False,
      m_leader = False, m_publicReady = False, calls = []\<rparr>"

text \<open>
  The instruments, by the name given to the client (which prefixes the namespace
  \<open>oidc_proxy_\<close>) and their label names, in the order of the init functions.
\<close>

definition http_collectors :: "(string \<times> string list) list" where
  "http_collectors =
     [(''http_requests_total'', [''route'', ''method'', ''decision'', ''status_code'']),
      (''http_request_duration_seconds'', [''route'', ''method'', ''decision''])]"

definition jwks_collectors :: "(string \<times> string list) list" where
  "jwks_collectors =
     [(''jwks_prime_total'', [''result'']),
      (''jwks_refresh_total'', [''result'', ''error_kind'']),
      (''jwks_serving_stale_total'', [''error_kind''])]"

definition tsnet_collectors :: "(string \<times> string list) list" where
  "tsnet_collectors =
     [(''tsnet_start_total'', [''result'', ''error_kind'']),
      (''tsnet_state_transitions_total'', [''state'']),
      (''public_listener_restarts_total'', [''reason'']),
      (''issuer_host_verification_total'', [''result'']),
      (''auth_key_mint_total'', [''result'', ''error_kind'']),
      (''leader_election_transitions_total'', [''state''])]"

definition health_collectors :: "(string \<times> string list) list" where
  "health_collectors =
     [(''process_start_time_seconds'', []), (''health_server_start_total'', [])]"

definition initCollectors :: "(string \<times> string list) list" where
  "initCollectors = http_collectors @ jwks_collectors @ tsnet_collectors @ health_collectors"

text \<open>What \<open>registerCollectors\<close> hands to \<open>MustRegister\<close>, but the client's two own collectors.\<close>

definition registered :: "(string \<times> string list) list" where
  "registered =
     [(''build_info'', [''version'', ''go_version''])] @ initCollectors @
     [(''jwks_age_seconds'', []), (''jwks_ready'', []), (''jwks_keys'', []), (''leader'', []),
      (''public_ready'', [])]"

text \<open>\<open>Handler\<close> and \<open>Registry\<close>: the client's scrape handler and registry, for a nil recorder the
  handler that answers 404 and no registry.\<close>

definition metrics_Handler :: "'h \<Rightarrow> 'h \<Rightarrow> metrics option \<Rightarrow> 'h" where
  "metrics_Handler notFound scrape mo = (case mo of None \<Rightarrow> notFound | Some m \<Rightarrow> scrape)"

definition Registry :: "'r \<Rightarrow> metrics option \<Rightarrow> 'r option" where
  "Registry registry mo = (case mo of None \<Rightarrow> None | Some m \<Rightarrow> Some registry)"

section \<open>Helpers\<close>

definition normalizeErrorKind :: "string \<Rightarrow> string" where
  "normalizeErrorKind k = (if TrimSpace k = [] then errorKindNone else TrimSpace k)"

definition buildVersion :: "string option \<Rightarrow> string" where
  "buildVersion info =
     (case info of None \<Rightarrow> ''devel''
      | Some v \<Rightarrow> if TrimSpace v = [] then ''devel'' else v)"

definition call :: "metric_call \<Rightarrow> metrics \<Rightarrow> metrics" where
  "call c m = m\<lparr>calls := calls m @ [c]\<rparr>"

text \<open>Go's zero time is January 1 of year 1; \<open>UnixNano\<close> counts from 1970.\<close>

definition unix_epoch :: time where
  "unix_epoch = 62135596800 * 1000000000"

definition UnixNano :: "time \<Rightarrow> int" where
  "UnixNano t = wrap64 (t - unix_epoch)"

definition time_Unix_nano :: "int \<Rightarrow> time" where
  "time_Unix_nano n = unix_epoch + n"

definition updateJWKSState :: "time \<Rightarrow> int \<Rightarrow> metrics \<Rightarrow> metrics" where
  "updateJWKSState now kidCount m =
     m\<lparr>jwksUpdatedAt := UnixNano now, jwksKidCount := kidCount, jwksHasValue := True\<rparr>"

section \<open>Recording\<close>

definition ObserveHTTPRequest ::
  "string \<Rightarrow> string \<Rightarrow> string \<Rightarrow> int \<Rightarrow> duration \<Rightarrow> metrics option \<Rightarrow> metrics option" where
  "ObserveHTTPRequest route meth decision status d mo =
     (case mo of None \<Rightarrow> None
      | Some m \<Rightarrow>
          Some (call (Observe ''http_request_duration_seconds'' [route, meth, decision] (Seconds d))
            (call (Inc ''http_requests_total'' [route, meth, decision, Itoa status]) m)))"

definition RecordJWKSPrimeSuccess :: "time \<Rightarrow> int \<Rightarrow> metrics option \<Rightarrow> metrics option" where
  "RecordJWKSPrimeSuccess now kidCount mo =
     (case mo of None \<Rightarrow> None
      | Some m \<Rightarrow> Some (updateJWKSState now kidCount (call (Inc ''jwks_prime_total'' [resultSuccess]) m)))"

definition RecordJWKSPrimeFailure :: "metrics option \<Rightarrow> metrics option" where
  "RecordJWKSPrimeFailure mo =
     (case mo of None \<Rightarrow> None | Some m \<Rightarrow> Some (call (Inc ''jwks_prime_total'' [resultFailure]) m))"

definition RecordJWKSRefreshSuccess :: "time \<Rightarrow> int \<Rightarrow> metrics option \<Rightarrow> metrics option" where
  "RecordJWKSRefreshSuccess now kidCount mo =
     (case mo of None \<Rightarrow> None
      | Some m \<Rightarrow> Some (updateJWKSState now kidCount
          (call (Inc ''jwks_refresh_total'' [resultSuccess, errorKindNone]) m)))"

definition RecordJWKSRefreshFailure :: "string \<Rightarrow> metrics option \<Rightarrow> metrics option" where
  "RecordJWKSRefreshFailure k mo =
     (case mo of None \<Rightarrow> None
      | Some m \<Rightarrow> Some (call (Inc ''jwks_refresh_total'' [resultFailure, normalizeErrorKind k]) m))"

definition RecordJWKSServingStale :: "string \<Rightarrow> metrics option \<Rightarrow> metrics option" where
  "RecordJWKSServingStale k mo =
     (case mo of None \<Rightarrow> None
      | Some m \<Rightarrow> Some (call (Inc ''jwks_serving_stale_total'' [normalizeErrorKind k]) m))"

definition RecordTSNetStart :: "string \<Rightarrow> string \<Rightarrow> metrics option \<Rightarrow> metrics option" where
  "RecordTSNetStart result k mo =
     (case mo of None \<Rightarrow> None
      | Some m \<Rightarrow> Some (call (Inc ''tsnet_start_total'' [result, normalizeErrorKind k]) m))"

text \<open>The four records that skip a blank label.\<close>

definition inc_unless_blank :: "string \<Rightarrow> string \<Rightarrow> metrics option \<Rightarrow> metrics option" where
  "inc_unless_blank name v mo =
     (case mo of None \<Rightarrow> None
      | Some m \<Rightarrow> if TrimSpace v = [] then Some m else Some (call (Inc name [v]) m))"

definition RecordTSNetStateTransition :: "string \<Rightarrow> metrics option \<Rightarrow> metrics option" where
  "RecordTSNetStateTransition state = inc_unless_blank ''tsnet_state_transitions_total'' state"

definition RecordPublicListenerRestart :: "string \<Rightarrow> metrics option \<Rightarrow> metrics option" where
  "RecordPublicListenerRestart reason = inc_unless_blank ''public_listener_restarts_total'' reason"

definition RecordIssuerHostVerification :: "string \<Rightarrow> metrics option \<Rightarrow> metrics option" where
  "RecordIssuerHostVerification result = inc_unless_blank ''issuer_host_verification_total'' result"

definition RecordAuthKeyMint :: "string \<Rightarrow> string \<Rightarrow> metrics option \<Rightarrow> metrics option" where
  "RecordAuthKeyMint result k mo =
     (case mo of None \<Rightarrow> None
      | Some m \<Rightarrow> Some (call (Inc ''auth_key_mint_total'' [result, normalizeErrorKind k]) m))"

definition RecordLeaderElectionTransition :: "string \<Rightarrow> metrics option \<Rightarrow> metrics option" where
  "RecordLeaderElectionTransition state = inc_unless_blank ''leader_election_transitions_total'' state"

definition RecordHealthServerStart :: "metrics option \<Rightarrow> metrics option" where
  "RecordHealthServerStart mo =
     (case mo of None \<Rightarrow> None | Some m \<Rightarrow> Some (call (Inc ''health_server_start_total'' []) m))"

definition SetLeader_metric :: "bool \<Rightarrow> metrics option \<Rightarrow> metrics option" where
  "SetLeader_metric v mo = (case mo of None \<Rightarrow> None | Some m \<Rightarrow> Some (m\<lparr>m_leader := v\<rparr>))"

definition SetPublicReady_metric :: "bool \<Rightarrow> metrics option \<Rightarrow> metrics option" where
  "SetPublicReady_metric v mo = (case mo of None \<Rightarrow> None | Some m \<Rightarrow> Some (m\<lparr>m_publicReady := v\<rparr>))"

section \<open>Gauges\<close>

definition jwksAgeSeconds :: "time \<Rightarrow> metrics option \<Rightarrow> rat" where
  "jwksAgeSeconds now mo =
     (case mo of None \<Rightarrow> 0
      | Some m \<Rightarrow>
          if \<not> jwksHasValue m then 0
          else if jwksUpdatedAt m = 0 then 0
          else let age = Seconds (Sub now (time_Unix_nano (jwksUpdatedAt m)))
               in if age < 0 then 0 else age)"

definition jwksReadyValue :: "time \<Rightarrow> metrics option \<Rightarrow> rat" where
  "jwksReadyValue now mo =
     (case mo of None \<Rightarrow> 0
      | Some m \<Rightarrow>
          if \<not> jwksHasValue m then 0
          else if jwksStaleWindow m \<le> 0 then 0
          else if Seconds (jwksStaleWindow m) < jwksAgeSeconds now mo then 0
          else 1)"

definition jwksKidCountValue :: "time \<Rightarrow> metrics option \<Rightarrow> rat" where
  "jwksKidCountValue now mo =
     (if jwksReadyValue now mo = 0 then 0
      else case mo of None \<Rightarrow> 0 | Some m \<Rightarrow> float_of_int (jwksKidCount m))"

definition leaderValue :: "metrics option \<Rightarrow> rat" where
  "leaderValue mo = (case mo of None \<Rightarrow> 0 | Some m \<Rightarrow> if m_leader m then 1 else 0)"

definition publicReadyValue :: "metrics option \<Rightarrow> rat" where
  "publicReadyValue mo = (case mo of None \<Rightarrow> 0 | Some m \<Rightarrow> if m_publicReady m then 1 else 0)"

section \<open>Well-formed calls\<close>

text \<open>
  The client panics on a call to an instrument with the wrong number of label values; a
  recorder is well formed when every call it made names a registered instrument and gives it one
  value per label.
\<close>

definition call_ok :: "metric_call \<Rightarrow> bool" where
  "call_ok c =
     (case c of
        Inc n ls \<Rightarrow> map_option length (map_of registered n) = Some (length ls)
      | Observe n ls _ \<Rightarrow> map_option length (map_of registered n) = Some (length ls))"

definition calls_ok :: "metrics option \<Rightarrow> bool" where
  "calls_ok mo = (case mo of None \<Rightarrow> True | Some m \<Rightarrow> list_all call_ok (calls m))"

definition series :: "metric_call \<Rightarrow> metrics option \<Rightarrow> nat" where
  "series c mo = (case mo of None \<Rightarrow> 0 | Some m \<Rightarrow> count_list (calls m) c)"

lemmas registered_defs =
  registered_def initCollectors_def http_collectors_def jwks_collectors_def tsnet_collectors_def health_collectors_def

lemma calls_call [simp]: "calls (call c m) = calls m @ [c]"
  by (simp add: call_def)

lemma calls_updateJWKSState [simp]: "calls (updateJWKSState now k m) = calls m"
  by (simp add: updateJWKSState_def)

lemma call_ok_names:
  "call_ok (Inc ''http_requests_total'' [a, b, c, d])"
  "call_ok (Observe ''http_request_duration_seconds'' [a, b, c] r)"
  "call_ok (Inc ''jwks_prime_total'' [a])"
  "call_ok (Inc ''jwks_refresh_total'' [a, b])"
  "call_ok (Inc ''jwks_serving_stale_total'' [a])"
  "call_ok (Inc ''tsnet_start_total'' [a, b])"
  "call_ok (Inc ''tsnet_state_transitions_total'' [a])"
  "call_ok (Inc ''public_listener_restarts_total'' [a])"
  "call_ok (Inc ''issuer_host_verification_total'' [a])"
  "call_ok (Inc ''auth_key_mint_total'' [a, b])"
  "call_ok (Inc ''leader_election_transitions_total'' [a])"
  "call_ok (Inc ''health_server_start_total'' [])"
  by (simp_all add: call_ok_def registered_defs)

lemmas record_defs =
  ObserveHTTPRequest_def RecordJWKSPrimeSuccess_def RecordJWKSPrimeFailure_def
  RecordJWKSRefreshSuccess_def RecordJWKSRefreshFailure_def RecordJWKSServingStale_def
  RecordTSNetStart_def RecordTSNetStateTransition_def RecordPublicListenerRestart_def
  RecordIssuerHostVerification_def RecordAuthKeyMint_def RecordLeaderElectionTransition_def
  RecordHealthServerStart_def SetLeader_metric_def SetPublicReady_metric_def inc_unless_blank_def

lemma normalizeErrorKind_nonblank: "normalizeErrorKind k \<noteq> []"
  by (simp add: normalizeErrorKind_def errorKindNone_def)

end
