(* ===== verification/Logx.thy ===== *)
theory Logx
  imports Metrics
begin

text \<open>
  \<open>internal/logx/logx.go\<close> and the observable effects of the program. A logger is its handler, a
  JSON or a text handler with a minimum level; \<open>log_state\<close> is the process-wide default logger and
  the records emitted so far. Every component that logs or counts threads \<open>obs\<close>: the log and
  the recorder it was given (\<open>None\<close> for nil).
\<close>

section \<open>Formats and handlers\<close>

definition FormatJSON :: string where "FormatJSON = ''json''"
definition FormatText :: string where "FormatText = ''text''"

definition ParseFormat :: "string \<Rightarrow> string option" where
  "ParseFormat s =
     (let f = to_lower (TrimSpace s) in
      if f = [] \<or> f = FormatJSON then Some FormatJSON
      else if f = FormatText then Some FormatText
      else None)"

datatype handler = JSONHandler int | TextHandler int

type_synonym logger = "handler option"

definition NewHandler :: "string \<Rightarrow> int \<Rightarrow> handler option" where
  "NewHandler format level =
     (if format = FormatJSON then Some (JSONHandler level)
      else if format = FormatText then Some (TextHandler level)
      else None)"

definition NewLogger :: "string \<Rightarrow> int \<Rightarrow> handler option" where
  "NewLogger format level = (case NewHandler format level of None \<Rightarrow> None | Some h \<Rightarrow> Some h)"

fun handler_level :: "handler \<Rightarrow> int" where
  "handler_level (JSONHandler l) = l"
| "handler_level (TextHandler l) = l"

section \<open>Records\<close>

definition LevelDebug :: int where "LevelDebug = - 4"
definition LevelInfo :: int where "LevelInfo = 0"
definition LevelWarn :: int where "LevelWarn = 4"
definition LevelError :: int where "LevelError = 8"

lemmas levels = LevelDebug_def LevelInfo_def LevelWarn_def LevelError_def

datatype attr_value =
    AString string | AInt int | ABool bool | AStrings "string list" | ADuration duration

type_synonym attr = "string \<times> attr_value"

record log_record =
  lr_handler :: handler
  lr_level :: int
  lr_msg :: string
  lr_attrs :: "attr list"

record log_state =
  default_logger :: handler
  emitted :: "log_record list"

record obs = log_state +
  obs_metrics :: "metrics option"

text \<open>\<open>Logger.LogAttrs\<close>: a record below the handler's level is dropped.\<close>

definition LogAttrs ::
  "handler \<Rightarrow> int \<Rightarrow> string \<Rightarrow> attr list \<Rightarrow> 'z log_state_scheme \<Rightarrow> 'z log_state_scheme" where
  "LogAttrs h level msg attrs s =
     (if handler_level h \<le> level
      then s\<lparr>emitted := emitted s @
             [\<lparr>lr_handler = h, lr_level = level, lr_msg = msg, lr_attrs = attrs\<rparr>]\<rparr>
      else s)"

definition Log ::
  "logger \<Rightarrow> int \<Rightarrow> string \<Rightarrow> string \<Rightarrow> string \<Rightarrow> attr list \<Rightarrow>
     'z log_state_scheme \<Rightarrow> 'z log_state_scheme" where
  "Log logger level component event msg attrs s =
     (let h = (case logger of None \<Rightarrow> default_logger s | Some h \<Rightarrow> h);
          base = [(''component'', AString component), (''event'', AString event)]
      in LogAttrs h level msg (base @ attrs) s)"

definition Debug ::
  "logger \<Rightarrow> string \<Rightarrow> string \<Rightarrow> string \<Rightarrow> attr list \<Rightarrow> 'z log_state_scheme \<Rightarrow> 'z log_state_scheme" where
  "Debug logger component event msg attrs = Log logger LevelDebug component event msg attrs"

definition Info ::
  "logger \<Rightarrow> string \<Rightarrow> string \<Rightarrow> string \<Rightarrow> attr list \<Rightarrow> 'z log_state_scheme \<Rightarrow> 'z log_state_scheme" where
  "Info logger component event msg attrs = Log logger LevelInfo component event msg attrs"

definition Warn ::
  "logger \<Rightarrow> string \<Rightarrow> string \<Rightarrow> string \<Rightarrow> attr list \<Rightarrow> 'z log_state_scheme \<Rightarrow> 'z log_state_scheme" where
  "Warn logger component event msg attrs = Log logger LevelWarn component event msg attrs"

definition Error ::
  "logger \<Rightarrow> string \<Rightarrow> string \<Rightarrow> string \<Rightarrow> attr list \<Rightarrow> 'z log_state_scheme \<Rightarrow> 'z log_state_scheme" where
  "Error logger component event msg attrs = Log logger LevelError component event msg attrs"

lemmas log_defs = Debug_def Info_def Warn_def Error_def

text \<open>The callers' guard \<open>if recorder != nil { recorder.Record... }\<close>.\<close>

definition record_if :: "(metrics option \<Rightarrow> metrics option) \<Rightarrow> obs \<Rightarrow> obs" where
  "record_if f s = (if obs_metrics s \<noteq> None then s\<lparr>obs_metrics := f (obs_metrics s)\<rparr> else s)"

section \<open>Facts\<close>

lemma Log_frame [frame]:
  "log_state.more (Log l v c e m as s) = log_state.more s"
  "default_logger (Log l v c e m as s) = default_logger s"
  by (simp_all add: Log_def LogAttrs_def Let_def)

lemma Log_metrics [frame]: "obs_metrics (Log l v c e m as s) = obs_metrics s"
  by (simp add: Log_def LogAttrs_def Let_def)

lemma Log_level_frame [frame]:
  "obs_metrics (Debug l c e m as s) = obs_metrics s"
  "obs_metrics (Info l c e m as s) = obs_metrics s"
  "obs_metrics (Warn l c e m as s) = obs_metrics s"
  "obs_metrics (Error l c e m as s) = obs_metrics s"
  by (simp_all add: log_defs Log_metrics)

lemma record_if_frame [frame]:
  "emitted (record_if f s) = emitted s"
  "default_logger (record_if f s) = default_logger s"
  by (simp_all add: record_if_def)

lemma record_if_metrics: "f None = None \<Longrightarrow> obs_metrics (record_if f s) = f (obs_metrics s)"
  by (auto simp: record_if_def)

text \<open>Every record of the program opens with its component and event.\<close>

definition has_event :: "log_record \<Rightarrow> bool" where
  "has_event r \<longleftrightarrow>
     (\<exists>c e as. lr_attrs r = (''component'', AString c) # (''event'', AString e) # as)"

lemma Log_has_event:
  "\<forall>r \<in> set (emitted s). has_event r \<Longrightarrow> \<forall>r \<in> set (emitted (Log l v c e m as s)). has_event r"
  by (auto simp: Log_def LogAttrs_def has_event_def Let_def)

end
