(* ===== verification/Netx.thy ===== *)
theory Netx
  imports Go_Http Go_Netip Errors Logx
begin

text \<open>
  \<open>internal/netx/srcip.go\<close>: the source address of a Funnel connection, the CIDR allowlist and the
  audit of every public request. An \<open>exchange\<close> is what a handler acts on besides the request: the
  response, the \<open>auditResponseWriter\<close> around it with its recorded code, the \<open>auditState\<close> of the
  request's context, and the logs and metrics.
\<close>

section \<open>Requests and exchanges\<close>

record request = http_target +
  rq_src :: "(addr \<times> nat) option"

record exchange =
  x_w :: response
  x_rec :: "(int \<times> bool) option"
  x_decision :: "string option"
  x_obs :: obs

definition SrcFromContext :: "request \<Rightarrow> (addr \<times> nat) option" where
  "SrcFromContext r = rq_src r"

definition ContextWithSrc :: "request \<Rightarrow> addr \<times> nat \<Rightarrow> request" where
  "ContextWithSrc r a = r\<lparr>rq_src := Some a\<rparr>"

text \<open>A connection as \<open>ConnContext\<close> unwraps it.\<close>

datatype net_conn = TLSConn net_conn | FunnelConn "addr \<times> nat" | OtherConn

definition ConnContext :: "(addr \<times> nat) option \<Rightarrow> net_conn \<Rightarrow> (addr \<times> nat) option" where
  "ConnContext ctx c =
     (case c of
        TLSConn i \<Rightarrow> (case i of FunnelConn src \<Rightarrow> Some src | _ \<Rightarrow> ctx)
      | _ \<Rightarrow> ctx)"

definition decisionServed :: string where "decisionServed = ''served''"
definition decisionDeniedMissingSrc :: string where "decisionDeniedMissingSrc = ''denied_missing_source''"
definition decisionDeniedCIDR :: string where "decisionDeniedCIDR = ''denied_cidr''"
definition decisionJWKSNotReady :: string where "decisionJWKSNotReady = ''jwks_not_ready''"
definition decisionMethodNotAllowed :: string where "decisionMethodNotAllowed = ''method_not_allowed''"
definition decisionNotFound :: string where "decisionNotFound = ''not_found''"

lemmas decision_defs =
  decisionServed_def decisionDeniedMissingSrc_def decisionDeniedCIDR_def decisionJWKSNotReady_def
  decisionMethodNotAllowed_def decisionNotFound_def

definition setDecision :: "string \<Rightarrow> exchange \<Rightarrow> exchange" where
  "setDecision d x = (case x_decision x of None \<Rightarrow> x | Some _ \<Rightarrow> x\<lparr>x_decision := Some d\<rparr>)"

definition MarkJWKSNotReady :: "exchange \<Rightarrow> exchange" where
  "MarkJWKSNotReady x = setDecision decisionJWKSNotReady x"

text \<open>\<open>withAuditState\<close>: the request's context gets a state whose decision is still empty.\<close>

definition withAuditState :: "exchange \<Rightarrow> exchange" where
  [simp]: "withAuditState x = x\<lparr>x_decision := Some []\<rparr>"

section \<open>The response writer\<close>

definition x_Set :: "string \<Rightarrow> string \<Rightarrow> exchange \<Rightarrow> exchange" where
  "x_Set k v x = x\<lparr>x_w := (x_w x)\<lparr>rw_header := header_Set k v (rw_header (x_w x))\<rparr>\<rparr>"

definition x_Del :: "string \<Rightarrow> exchange \<Rightarrow> exchange" where
  "x_Del k x = x\<lparr>x_w := (x_w x)\<lparr>rw_header := header_Del k (rw_header (x_w x))\<rparr>\<rparr>"

definition rec_WriteHeader :: "int \<Rightarrow> exchange \<Rightarrow> exchange" where
  "rec_WriteHeader code x =
     (let x' = (case x_rec x of
                  Some (c, False) \<Rightarrow> x\<lparr>x_rec := Some (code, True)\<rparr>
                | _ \<Rightarrow> x)
      in x'\<lparr>x_w := rw_WriteHeader code (x_w x')\<rparr>)"

definition rec_Write :: "bytes \<Rightarrow> exchange \<Rightarrow> exchange" where
  "rec_Write b x =
     (let x' = (case x_rec x of Some (c, False) \<Rightarrow> rec_WriteHeader 200 x | _ \<Rightarrow> x)
      in x'\<lparr>x_w := rw_Write b (x_w x')\<rparr>)"

text \<open>\<open>ReadFrom\<close>, by whether the writer below implements \<open>io.ReaderFrom\<close>; the reader's bytes.\<close>

definition rec_ReadFrom :: "bool \<Rightarrow> bytes \<Rightarrow> exchange \<Rightarrow> exchange" where
  "rec_ReadFrom readerFrom b x =
     (if \<not> readerFrom then (if b = [] then x else x\<lparr>x_w := rw_Write b (x_w x)\<rparr>)
      else
        let x' = (case x_rec x of Some (c, False) \<Rightarrow> rec_WriteHeader 200 x | _ \<Rightarrow> x)
        in x'\<lparr>x_w := rw_Write b (x_w x')\<rparr>)"

definition rec_Flush :: "bool \<Rightarrow> exchange \<Rightarrow> exchange" where
  "rec_Flush flusher x = (if flusher then x\<lparr>x_w := rw_Flush (x_w x)\<rparr> else x)"

text \<open>\<open>Hijack\<close> and \<open>Push\<close> forward to the writer below if it supports them; the audit does not see
  what happens on a hijacked connection. \<open>below\<close> is the outcome there, \<open>None\<close> if unsupported.\<close>

definition ErrNotSupported :: go_error where
  "ErrNotSupported = ErrText ''feature not supported''"

definition rec_Hijack :: "(go_error, 'c) result option \<Rightarrow> exchange \<Rightarrow> (go_error, 'c) result \<times> exchange" where
  "rec_Hijack below x = (case below of None \<Rightarrow> (Inl ErrNotSupported, x) | Some out \<Rightarrow> (out, x))"

definition rec_Push :: "go_error option option \<Rightarrow> exchange \<Rightarrow> go_error option \<times> exchange" where
  "rec_Push below x = (case below of None \<Rightarrow> (Some ErrNotSupported, x) | Some out \<Rightarrow> (out, x))"

definition rec_status :: "exchange \<Rightarrow> int" where
  "rec_status x = (case x_rec x of Some (c, True) \<Rightarrow> c | _ \<Rightarrow> 200)"

text \<open>\<open>http.Error\<close> and \<open>http.NotFound\<close> of the standard library, on any writer.\<close>

definition http_Error :: "string \<Rightarrow> int \<Rightarrow> exchange \<Rightarrow> exchange" where
  "http_Error msg code x =
     rec_Write (msg @ [CHR 0x0A])
       (rec_WriteHeader code
         (x_Set ''X-Content-Type-Options'' ''nosniff''
           (x_Set ''Content-Type'' ''text/plain; charset=utf-8'' (x_Del ''Content-Length'' x))))"

section \<open>Middlewares\<close>

type_synonym http_handler = "request \<Rightarrow> exchange \<Rightarrow> exchange"

definition discovery_path :: string where "discovery_path = ''/.well-known/openid-configuration''"
definition jwks_path :: string where "jwks_path = ''/openid/v1/jwks''"

definition routeForPath :: "string \<Rightarrow> string" where
  "routeForPath p =
     (if p = discovery_path then ''discovery'' else if p = jwks_path then ''jwks'' else ''unknown'')"

definition decisionFromStatus :: "int \<Rightarrow> string" where
  "decisionFromStatus s =
     (if s = 405 then decisionMethodNotAllowed else if s = 404 then decisionNotFound
      else decisionServed)"

text \<open>The clock readings of one audited request: at its start, for the log, for the metric.\<close>

record audit_clock =
  ac_start :: time
  ac_log :: time
  ac_metric :: time

definition audit_attrs :: "audit_clock \<Rightarrow> request \<Rightarrow> int \<Rightarrow> string \<Rightarrow> attr list" where
  "audit_attrs clock r status decision =
     [(''route'', AString (routeForPath (rq_path r))), (''path'', AString (rq_path r)),
      (''method'', AString (rq_method r)), (''status'', AInt status),
      (''latency_ms'', AInt (Milliseconds (Sub (ac_log clock) (ac_start clock)))),
      (''source_present'', ABool (SrcFromContext r \<noteq> None)),
      (''decision'', AString decision)] @
     (case SrcFromContext r of
        None \<Rightarrow> []
      | Some (a, port) \<Rightarrow> [(''source_ip'', AString (addr_String a))])"

definition audit_decision :: "exchange \<Rightarrow> string" where
  "audit_decision y =
     (if x_decision y = Some [] \<or> x_decision y = None then decisionFromStatus (rec_status y)
      else the (x_decision y))"

definition AuditMiddleware :: "logger \<Rightarrow> handler \<Rightarrow> audit_clock \<Rightarrow> http_handler \<Rightarrow> http_handler" where
  "AuditMiddleware logger slog_default clock next r x =
     (let lg = (case logger of None \<Rightarrow> slog_default | Some h \<Rightarrow> h);
          y = next r (withAuditState (x\<lparr>x_rec := Some (0, False)\<rparr>));
          status = rec_status y;
          route = routeForPath (rq_path r);
          decision = audit_decision y;
          attrs = audit_attrs clock r status decision;
          s1 = record_if (ObserveHTTPRequest route (rq_method r) decision status
                 (Sub (ac_metric clock) (ac_start clock))) (x_obs y)
      in x\<lparr>x_w := x_w y,
           x_obs := Info (Some lg) ''public_http'' ''http_request'' ''public request handled'' attrs s1\<rparr>)"

record AllowlistConfig =
  al_Enabled :: bool
  al_CIDRs :: "prefix list"

definition Middleware :: "AllowlistConfig \<Rightarrow> http_handler \<Rightarrow> http_handler" where
  "Middleware cfg next r x =
     (if \<not> al_Enabled cfg then next r x
      else
        case SrcFromContext r of
          None \<Rightarrow> http_Error ''forbidden'' 403 (setDecision decisionDeniedMissingSrc x)
        | Some (a, port) \<Rightarrow>
            if list_ex (\<lambda>p. Contains p a) (al_CIDRs cfg) then next r x
            else http_Error ''forbidden'' 403 (setDecision decisionDeniedCIDR x))"

section \<open>Facts\<close>

text \<open>What the audit writer recorded is what the writer below sent.\<close>

definition audit_inv :: "exchange \<Rightarrow> bool" where
  "audit_inv x \<longleftrightarrow>
     (case x_rec x of
        None \<Rightarrow> True
      | Some (c, wrote) \<Rightarrow> rw_status (x_w x) = (if wrote then Some c else None))"

lemma audit_inv_status: "audit_inv x \<Longrightarrow> x_rec x \<noteq> None \<Longrightarrow> rec_status x = final_status (x_w x)"
  by (auto simp: audit_inv_def rec_status_def final_status_def split: option.splits bool.splits if_splits)

lemma audit_inv_ops [intro]:
  "audit_inv x \<Longrightarrow> audit_inv (x_Set k v x)"
  "audit_inv x \<Longrightarrow> audit_inv (x_Del k x)"
  "audit_inv x \<Longrightarrow> audit_inv (setDecision d x)"
  "audit_inv x \<Longrightarrow> audit_inv (rec_WriteHeader c x)"
  by (auto simp: audit_inv_def x_Set_def x_Del_def setDecision_def rec_WriteHeader_def Let_def
      split: option.splits prod.splits bool.splits)

lemma audit_inv_Write [intro]:
  assumes "audit_inv x"
  shows "audit_inv (rec_Write b x)"
proof (cases "x_rec x")
  case None
  then show ?thesis by (simp add: audit_inv_def rec_Write_def)
next
  case (Some p)
  then obtain c wr where "x_rec x = Some (c, wr)" by (cases p) auto
  then show ?thesis using assms
    by (cases wr) (auto simp: audit_inv_def rec_Write_def rec_WriteHeader_def Let_def)
qed

lemma audit_inv_Error [intro]: "audit_inv x \<Longrightarrow> audit_inv (http_Error m c x)"
  unfolding http_Error_def by (intro audit_inv_ops audit_inv_Write)

text \<open>Nothing but the audit writes the log and the metrics; the decision is written once.\<close>

lemma x_obs_ops [frame]:
  "x_obs (x_Set k v x) = x_obs x" "x_obs (x_Del k x) = x_obs x"
  "x_obs (rec_WriteHeader c x) = x_obs x" "x_obs (rec_Write b x) = x_obs x"
  "x_obs (setDecision d x) = x_obs x" "x_obs (http_Error m c x) = x_obs x"
  by (auto simp: x_Set_def x_Del_def rec_WriteHeader_def rec_Write_def setDecision_def http_Error_def
      Let_def split: option.splits prod.splits bool.splits)

lemma x_decision_ops [frame]:
  "x_decision (x_Set k v x) = x_decision x" "x_decision (x_Del k x) = x_decision x"
  "x_decision (rec_WriteHeader c x) = x_decision x" "x_decision (rec_Write b x) = x_decision x"
  "x_decision (http_Error m c x) = x_decision x"
  "x_decision (setDecision d x) = (if x_decision x = None then None else Some d)"
  by (auto simp: x_Set_def x_Del_def rec_WriteHeader_def rec_Write_def setDecision_def http_Error_def
      Let_def split: option.splits prod.splits bool.splits)

lemma x_rec_ops [frame]:
  "x_rec (x_Set k v x) = x_rec x" "x_rec (x_Del k x) = x_rec x" "x_rec (setDecision d x) = x_rec x"
  "(x_rec (rec_WriteHeader c x) = None) = (x_rec x = None)"
  "(x_rec (rec_Write b x) = None) = (x_rec x = None)"
  "(x_rec (http_Error m c x) = None) = (x_rec x = None)"
  by (auto simp: x_Set_def x_Del_def rec_WriteHeader_def rec_Write_def setDecision_def http_Error_def
      Let_def split: option.splits prod.splits bool.splits)

text \<open>The response under the operations.\<close>

lemma x_w_ops [simp]:
  "x_w (x_Set k v x) = (x_w x)\<lparr>rw_header := header_Set k v (rw_header (x_w x))\<rparr>"
  "x_w (x_Del k x) = (x_w x)\<lparr>rw_header := header_Del k (rw_header (x_w x))\<rparr>"
  "x_w (setDecision d x) = x_w x"
  "x_w (rec_WriteHeader c x) = rw_WriteHeader c (x_w x)"
  by (auto simp: x_Set_def x_Del_def setDecision_def rec_WriteHeader_def Let_def
      split: option.splits prod.splits bool.splits)

lemma x_w_Write [simp]: "x_w (rec_Write b x) = rw_Write b (x_w x)"
proof -
  have "rw_Write b (rw_WriteHeader 200 w) = rw_Write b w" for w
    by (simp add: rw_Write_def rw_WriteHeader_def Let_def)
  then show ?thesis
    by (auto simp: rec_Write_def split: option.splits bool.splits)
qed

lemma rw_update_simps [simp]:
  "rw_status (w\<lparr>rw_header := hs\<rparr>) = rw_status w" "rw_body (w\<lparr>rw_header := hs\<rparr>) = rw_body w"
  by simp_all

text \<open>A fresh exchange, as the server hands it to the outermost handler.\<close>

definition fresh_w :: "exchange \<Rightarrow> bool" where
  "fresh_w x \<longleftrightarrow> x_w x = new_response"

lemma http_Error_response:
  assumes "rw_status (x_w x) = None"
  shows "rw_status (x_w (http_Error m c x)) = Some c"
    and "rw_body (x_w (http_Error m c x)) = rw_body (x_w x) @ m @ [CHR 0x0A]"
    and "header_Get ''X-Content-Type-Options'' (final_header (x_w (http_Error m c x))) = Some ''nosniff''"
    and "header_Get ''Content-Type'' (final_header (x_w (http_Error m c x))) = Some ''text/plain; charset=utf-8''"
    and "k \<notin> {''X-Content-Type-Options'', ''Content-Type'', ''Content-Length''} \<Longrightarrow>
      header_Get k (final_header (x_w (http_Error m c x))) = header_Get k (rw_header (x_w x))"
  using assms by (auto simp: http_Error_def final_header_def)

end
