(* ===== verification/Oidc_Log.thy ===== *)
theory Oidc_Log
  imports Errors Logx "HOL-Library.Multiset" "HOL-Library.List_Lexorder" "HOL-Library.Char_ord"
begin

text \<open>
  \<open>internal/oidc/logging.go\<close>: what the JWKS cache writes to the log. Failures are reduced to
  their kind and two numbers before they are logged; successes list the key ids in byte order.
\<close>

definition sortedKids :: "jwks \<Rightarrow> string list" where
  "sortedKids j = sort (map Kid (Keys j))"

definition jwksErrorKind :: "go_error \<Rightarrow> string" where
  "jwksErrorKind e =
     (case as_fetchError e of
        Some f \<Rightarrow> fetch_kind_string (fe_kind f)
      | None \<Rightarrow> ''fetch_failed'')"

fun safeFetchSummary :: "fetchErrorKind \<Rightarrow> string" where
  "safeFetchSummary fetchErrBuildRequest = ''build request failed''"
| "safeFetchSummary fetchErrUpstream = ''upstream request failed''"
| "safeFetchSummary fetchErrUpstreamCode = ''unexpected upstream status''"
| "safeFetchSummary fetchErrReadBody = ''read response body failed''"
| "safeFetchSummary fetchErrBodyTooLarge = ''response body too large''"
| "safeFetchSummary fetchErrJWKSInvalid = ''jwks validation failed''"
| "safeFetchSummary fetchErrTokenRead = ''read service account token failed''"
| "safeFetchSummary fetchErrTokenEmpty = ''service account token file empty''"

definition jwksErrorAttrs :: "go_error \<Rightarrow> attr list" where
  "jwksErrorAttrs e =
     (case as_fetchError e of
        Some f \<Rightarrow>
          [(''error_kind'', AString (jwksErrorKind e)),
           (''error'', AString (safeFetchSummary (fe_kind f)))] @
          (if fe_statusCode f \<noteq> 0 then [(''status_code'', AInt (fe_statusCode f))] else []) @
          (if fe_bodySizeBytes f \<noteq> 0 then [(''body_size_bytes'', AInt (fe_bodySizeBytes f))] else [])
      | None \<Rightarrow>
          [(''error_kind'', AString (jwksErrorKind e)), (''error'', AString ''jwks fetch failed'')])"

definition logJWKSSuccess :: "logger \<Rightarrow> string \<Rightarrow> jwks \<Rightarrow> obs \<Rightarrow> obs" where
  "logJWKSSuccess logger event j =
     Info logger ''jwks_cache'' event ''jwks cache updated''
       [(''kid_count'', AInt (int (length (Keys j)))), (''kids'', AStrings (sortedKids j))]"

definition logJWKSFailure :: "logger \<Rightarrow> int \<Rightarrow> string \<Rightarrow> go_error \<Rightarrow> obs \<Rightarrow> obs" where
  "logJWKSFailure logger level event e =
     Log logger level ''jwks_cache'' event ''jwks cache update failed'' (jwksErrorAttrs e)"

section \<open>Facts\<close>

lemma sortedKids_sorted: "sorted (sortedKids j)"
  by (simp add: sortedKids_def)

lemma sortedKids_mset: "mset (sortedKids j) = mset (map Kid (Keys j))"
  by (simp add: sortedKids_def)

lemma logJWKS_metrics [frame]:
  "obs_metrics (logJWKSSuccess l ev j s) = obs_metrics s"
  "obs_metrics (logJWKSFailure l v ev e s) = obs_metrics s"
  by (simp_all add: logJWKSSuccess_def logJWKSFailure_def frame)

text \<open>The fields of a failure that can reach the log.\<close>

definition log_view :: "go_error \<Rightarrow> (fetchErrorKind \<times> int \<times> int) option" where
  "log_view e = map_option (\<lambda>f. (fe_kind f, fe_statusCode f, fe_bodySizeBytes f)) (as_fetchError e)"

lemma jwksErrorAttrs_view: "log_view e = log_view e' \<Longrightarrow> jwksErrorAttrs e = jwksErrorAttrs e'"
  by (cases "as_fetchError e"; cases "as_fetchError e'")
    (auto simp: log_view_def jwksErrorAttrs_def jwksErrorKind_def)

end
