(* ===== verification/Jwks_Roundtrip.thy ===== *)
theory Jwks_Roundtrip
  imports Jwks
begin

text \<open>
  \<open>Marshal\<close> against \<open>ParseAndValidate\<close>: the serialisation is read back as itself, so a
  validated key set re-emitted is accepted again unchanged; and what text after the document
  the trailing-data check lets through.
\<close>

definition json_of_jwk :: "jwk \<Rightarrow> json" where
  "json_of_jwk k =
     JObj [(''kid'', JStr (Kid k)), (''kty'', JStr (Kty k)), (''alg'', JStr (Alg k)),
           (''use'', JStr (Use k)), (''n'', JStr (KeyN k)), (''e'', JStr (KeyE k))]"

definition json_of_jwks :: "jwks \<Rightarrow> json" where
  "json_of_jwks j = JObj [(''keys'', JArr (map json_of_jwk (Keys j)))]"

section \<open>The text is read as the tree\<close>

lemma valid_utf8_names:
  "valid_utf8 ''kid''" "valid_utf8 ''kty''" "valid_utf8 ''alg''" "valid_utf8 ''use''"
  "valid_utf8 ''n''" "valid_utf8 ''e''" "valid_utf8 ''keys''"
  by (simp_all add: valid_utf8_ascii)

lemma read_jwk:
  assumes "utf8_key k" and "length stk < max_nesting"
    and "\<And>r. read_value m stk (CHR ''{'' # r) = read_value MKeyOrEnd (FObj [] # stk) r"
  shows "read_value m stk (marshal_jwk k @ r) = read_value (MDone (json_of_jwk k)) stk r"
  using assms
  by (simp add: marshal_jwk_def member_def json_run utf8_key_def valid_utf8_names json_of_jwk_def)

lemmas read_jwk_first = read_jwk [OF _ _ read_open_object_first]
lemmas read_jwk_next = read_jwk [OF _ _ read_open_object]

lemma read_elems:
  assumes "\<forall>k \<in> set (k # ks). utf8_key k" and "length stk + 1 < max_nesting"
    and "\<And>r. read_value m (FArr es # stk) (marshal_jwk k @ r) =
           read_value (MDone (json_of_jwk k)) (FArr es # stk) r"
  shows "read_value m (FArr es # stk) (marshal_elems (k # ks) @ CHR '']'' # r) =
    read_value (MDone (JArr (rev es @ map json_of_jwk (k # ks)))) stk r"
  using assms
proof (induction ks arbitrary: k m es)
  case Nil
  then show ?case by (simp add: json_run)
next
  case (Cons k' ks)
  have "read_value MValue (FArr (json_of_jwk k # es) # stk) (marshal_elems (k' # ks) @ CHR '']'' # r) =
      read_value (MDone (JArr (rev (json_of_jwk k # es) @ map json_of_jwk (k' # ks)))) stk r"
    using Cons.prems by (intro Cons.IH) (auto intro!: read_jwk_next)
  then show ?case using Cons.prems(3) by (simp add: json_run)
qed

lemma read_marshal:
  assumes "\<forall>k \<in> set (Keys j). utf8_key k"
  shows "read_value MValue [] (Marshal j @ r) = Some (json_of_jwks j, r)"
proof -
  have arr: "read_value MValueOrEnd (FArr [] # stk) (marshal_elems (Keys j) @ CHR '']'' # r') =
      read_value (MDone (JArr (map json_of_jwk (Keys j)))) stk r'" if "length stk = 1" for r' stk
  proof (cases "Keys j")
    case Nil
    then show ?thesis by (simp add: json_run)
  next
    case (Cons k ks)
    have "read_value MValueOrEnd (FArr [] # stk) (marshal_elems (k # ks) @ CHR '']'' # r') =
        read_value (MDone (JArr (rev [] @ map json_of_jwk (k # ks)))) stk r'"
      using assms Cons that by (intro read_elems) (auto simp: max_nesting_def intro!: read_jwk_first)
    then show ?thesis using Cons by simp
  qed
  show ?thesis
    by (simp add: Marshal_def json_run valid_utf8_names max_nesting_def arr read_value_done json_of_jwks_def)
qed

section \<open>The tree is decoded as the key set\<close>

lemma fold_names:
  "fold_name ''kid'' = ''KID''" "fold_name ''kty'' = ''KTY''" "fold_name ''alg'' = ''ALG''"
  "fold_name ''use'' = ''USE''" "fold_name ''n'' = ''N''" "fold_name ''e'' = ''E''"
  "fold_name ''keys'' = ''KEYS''"
  by code_simp+

lemma decode_field_str:
  "decode_field ''kid'' (JStr s) (k, e) = (k\<lparr>Kid := s\<rparr>, e)"
  "decode_field ''kty'' (JStr s) (k, e) = (k\<lparr>Kty := s\<rparr>, e)"
  "decode_field ''alg'' (JStr s) (k, e) = (k\<lparr>Alg := s\<rparr>, e)"
  "decode_field ''use'' (JStr s) (k, e) = (k\<lparr>Use := s\<rparr>, e)"
  "decode_field ''n'' (JStr s) (k, e) = (k\<lparr>KeyN := s\<rparr>, e)"
  "decode_field ''e'' (JStr s) (k, e) = (k\<lparr>KeyE := s\<rparr>, e)"
  by (simp_all add: decode_field_def Let_def fold_names del: fold_name.simps)

lemma decode_json_of_jwk: "decode_jwk (json_of_jwk k) (zero_jwk, e) = (k, e)"
  by (simp add: decode_jwk_def json_of_jwk_def decode_field_str zero_jwk_def)

lemma decode_elems_json: "decode_elems (map json_of_jwk ks) [] e = (ks, e)"
  by (induction ks) (auto simp: decode_json_of_jwk)

lemma decode_json_of_jwks: "decode_jwks (json_of_jwks j) = ((Keys j, []), None)"
  using decode_elems_json [of "Keys j" None]
  by (cases "Keys j")
    (auto simp: decode_jwks_def json_of_jwks_def decode_top_def decode_slice_def fold_names
      Let_def simp del: fold_name.simps split: prod.splits)

lemma parse_marshal_rest:
  assumes "\<forall>k \<in> set (Keys j). utf8_key k"
  shows "ParseAndValidate (Marshal j @ r) =
    (if decoder_more r then Inl TrailingData else check_keys (Keys j))"
  using assms by (simp add: ParseAndValidate_def read_marshal decode_json_of_jwks)

section \<open>Whatever is decoded is valid UTF-8\<close>

fun utf8_json :: "json \<Rightarrow> bool" where
  "utf8_json (JStr s) = valid_utf8 s"
| "utf8_json (JArr vs) = (\<forall>v \<in> set vs. utf8_json v)"
| "utf8_json (JObj ms) = (\<forall>m \<in> set ms. utf8_json (snd m))"
| "utf8_json _ = True"

fun utf8_frame :: "frame \<Rightarrow> bool" where
  "utf8_frame (FArr es) = (\<forall>v \<in> set es. utf8_json v)"
| "utf8_frame (FObj ms) = (\<forall>m \<in> set ms. utf8_json (snd m))"
| "utf8_frame (FKey ms k) = (\<forall>m \<in> set ms. utf8_json (snd m))"

fun utf8_mode :: "mode \<Rightarrow> bool" where
  "utf8_mode (MDone v) = utf8_json v"
| "utf8_mode _ = True"

fun utf8_tok :: "jtok \<Rightarrow> bool" where
  "utf8_tok (TStr s) = valid_utf8 s"
| "utf8_tok _ = True"

lemma token_at_utf8: "token_at s = Some (t, r) \<Longrightarrow> utf8_tok t"
  by (cases s) (auto simp: keyword_def dest: lex_string_valid split: if_splits)

lemma start_value_utf8:
  "start_value stk t = Some (m, stk') \<Longrightarrow> utf8_tok t \<Longrightarrow> \<forall>f \<in> set stk. utf8_frame f \<Longrightarrow>
     utf8_mode m \<and> (\<forall>f \<in> set stk'. utf8_frame f)"
  by (cases t) (auto split: if_splits)

lemma end_value_utf8:
  "end_value v stk t = Some (m, stk') \<Longrightarrow> utf8_json v \<Longrightarrow> \<forall>f \<in> set stk. utf8_frame f \<Longrightarrow>
     utf8_mode m \<and> (\<forall>f \<in> set stk'. utf8_frame f)"
  by (induction v stk t rule: end_value.induct) auto

lemma jstep_utf8:
  assumes "jstep m stk t = Some (m', stk')" and "utf8_tok t" and "utf8_mode m"
    and "\<forall>f \<in> set stk. utf8_frame f"
  shows "utf8_mode m' \<and> (\<forall>f \<in> set stk'. utf8_frame f)"
proof -
  have keys: "read_key stk t = Some (m', stk') \<Longrightarrow> ?thesis"
    using assms(4) by (auto simp: read_key_def split: list.splits frame.splits jtok.splits)
  have empty: "close_empty stk t = Some (m', stk') \<Longrightarrow> ?thesis"
    using assms(4) by (auto simp: close_empty_def split: list.splits frame.splits jtok.splits)
  have start: "start_value stk t = Some (m', stk') \<Longrightarrow> ?thesis"
    using start_value_utf8 assms(2,4) by blast
  show ?thesis
  proof (cases m)
    case (MDone v)
    then show ?thesis using end_value_utf8 [of v stk t m' stk'] assms by simp
  next
    case MValueOrEnd
    then show ?thesis using assms(1) empty start by (auto split: option.splits)
  next
    case MKeyOrEnd
    then show ?thesis using assms(1) empty keys by (auto split: option.splits)
  next
    case MColon
    then show ?thesis using assms(1,4) by (auto split: if_splits)
  qed (use assms(1) start keys in auto)
qed

lemma read_value_utf8:
  "read_value m stk s = Some (v, r) \<Longrightarrow> utf8_mode m \<Longrightarrow> \<forall>f \<in> set stk. utf8_frame f \<Longrightarrow> utf8_json v"
proof (induction m stk s rule: read_value.induct)
  case (1 m stk s)
  show ?case
  proof (cases "\<exists>u. m = MDone u \<and> stk = []")
    case True
    then show ?thesis using "1.prems" by (auto simp: read_value_done)
  next
    case False
    then obtain t u m' stk' where st: "next_token s = Some (t, u)" "jstep m stk t = Some (m', stk')"
        "read_value m' stk' u = Some (v, r)"
      using "1.prems"(1) by (subst (asm) read_value.simps) (auto split: option.splits mode.splits list.splits)
    have "utf8_tok t" using st(1) by (auto simp: next_token_def dest: token_at_utf8)
    then have "utf8_mode m' \<and> (\<forall>f \<in> set stk'. utf8_frame f)"
      using st(2) "1.prems" by (intro jstep_utf8) auto
    then show ?thesis using "1.IH" st False by (cases m; cases stk) auto
  qed
qed

lemma utf8_zero [simp]: "utf8_key zero_jwk"
  by (simp add: utf8_key_def zero_jwk_def)

lemma decode_string_utf8:
  "decode_string v (s, e) = (t, e') \<Longrightarrow> utf8_json v \<Longrightarrow> valid_utf8 s \<Longrightarrow> valid_utf8 t"
  by (cases v) auto

lemma decode_field_utf8:
  "utf8_json v \<Longrightarrow> utf8_key (fst st) \<Longrightarrow> utf8_key (fst (decode_field n v st))"
  by (cases st)
    (auto simp: decode_field_def Let_def utf8_key_def split: prod.splits dest: decode_string_utf8)

lemma fold_decode_field_utf8:
  "\<forall>m \<in> set ms. utf8_json (snd m) \<Longrightarrow> utf8_key (fst st) \<Longrightarrow>
     utf8_key (fst (fold (\<lambda>(n, x). decode_field n x) ms st))"
  by (rule fold_invariant [where Q = "\<lambda>m. utf8_json (snd m)" and P = "\<lambda>s. utf8_key (fst s)"])
    (auto intro!: decode_field_utf8)

lemma decode_jwk_utf8:
  "utf8_json v \<Longrightarrow> utf8_key (fst st) \<Longrightarrow> utf8_key (fst (decode_jwk v st))"
  by (cases v) (auto simp: decode_jwk_def fold_decode_field_utf8)

lemma decode_elems_utf8:
  "\<forall>v \<in> set vs. utf8_json v \<Longrightarrow> \<forall>k \<in> set old. utf8_key k \<Longrightarrow>
     \<forall>k \<in> set (fst (decode_elems vs old e)). utf8_key k"
proof (induction vs arbitrary: old e)
  case (Cons v vs)
  let ?st = "(case old of [] \<Rightarrow> zero_jwk | x # _ \<Rightarrow> x, e)"
  have "utf8_key (fst (decode_jwk v ?st))"
    using Cons.prems by (intro decode_jwk_utf8) (auto split: list.splits)
  moreover have "\<forall>k \<in> set (tl old). utf8_key k" using Cons.prems(2) by (cases old) auto
  ultimately show ?case using Cons.IH [of "tl old"] Cons.prems(1)
    by (auto simp: Let_def split: prod.splits) (metis fst_conv)+
qed simp

definition utf8_slice :: "slice \<Rightarrow> bool" where
  "utf8_slice s \<longleftrightarrow> (\<forall>k \<in> set (fst s @ snd s). utf8_key k)"

lemma decode_slice_utf8:
  assumes "utf8_json v" and "utf8_slice (fst st)"
  shows "utf8_slice (fst (decode_slice v st))"
proof (cases "\<exists>x vs. v = JArr (x # vs)")
  case True
  then obtain x vs where v: "v = JArr (x # vs)" by blast
  obtain live spare e where st: "st = ((live, spare), e)" by (cases st) auto
  have "\<forall>k \<in> set (fst (decode_elems (x # vs) (live @ spare) e)). utf8_key k"
    using assms v st by (intro decode_elems_utf8) (auto simp: utf8_slice_def)
  moreover have "\<forall>k \<in> set (drop (length (x # vs)) (live @ spare)). utf8_key k"
    using assms(2) st set_drop_subset by (fastforce simp: utf8_slice_def)
  ultimately show ?thesis
    by (auto simp: v st decode_slice_def utf8_slice_def simp del: decode_elems.simps split: prod.splits)
next
  case False
  then show ?thesis using assms(2)
    by (cases v) (auto simp: decode_slice_def utf8_slice_def Let_def split: prod.splits list.splits)
qed

lemma fold_decode_top_utf8:
  "\<forall>m \<in> set ms. utf8_json (snd m) \<Longrightarrow> utf8_slice (fst st) \<Longrightarrow>
     utf8_slice (fst (fold (\<lambda>(n, x). decode_top n x) ms st))"
  by (rule fold_invariant [where Q = "\<lambda>m. utf8_json (snd m)" and P = "\<lambda>s. utf8_slice (fst s)"])
    (auto simp: decode_top_def intro!: decode_slice_utf8)

lemma decode_jwks_utf8: "utf8_json v \<Longrightarrow> utf8_slice (fst (decode_jwks v))"
  by (cases v) (auto simp: decode_jwks_def utf8_slice_def [of "([], [])"] fold_decode_top_utf8)

lemma parsed_utf8:
  assumes "ParseAndValidate body = Inr j"
  shows "\<forall>k \<in> set (Keys j). utf8_key k"
proof -
  obtain v rest spare where v: "read_value MValue [] body = Some (v, rest)"
      "decode_jwks v = ((Keys j, spare), None)"
    using assms by (auto simp: ParseAndValidate_iff)
  have "utf8_json v" using v(1) by (rule read_value_utf8) auto
  from decode_jwks_utf8 [OF this] v(2) show ?thesis by (auto simp: utf8_slice_def)
qed

section \<open>Accepted documents\<close>

lemma parsed_valid: "ParseAndValidate body = Inr j \<Longrightarrow> valid_jwks j"
  by (auto simp: ParseAndValidate_iff)

lemma marshal_accepted:
  assumes "valid_jwks j" and "\<forall>k \<in> set (Keys j). utf8_key k" and "\<not> decoder_more r"
  shows "ParseAndValidate (Marshal j @ r) = Inr j"
  using assms by (simp add: parse_marshal_rest check_keys_ok)

lemma decoder_more_Nil [simp]: "\<not> decoder_more []"
  by (simp add: decoder_more_def)

lemma reparse:
  assumes "ParseAndValidate body = Inr j"
  shows "ParseAndValidate (Marshal j) = Inr j"
  using marshal_accepted [OF parsed_valid [OF assms] parsed_utf8 [OF assms], of "[]"] by simp

lemma validate_keys_error:
  "validate_keys n seen out ks = Inl (KeyRejected m e) \<Longrightarrow>
     \<exists>i < length ks. m = n + i \<and> (\<forall>k \<in> set (take i ks). valid_key k) \<and>
       distinct (map Kid (take i ks)) \<and>
       (validateKey (ks ! i) = Inl e \<or>
        valid_key (ks ! i) \<and> e = DuplicateKid (Kid (ks ! i)) \<and>
        Kid (ks ! i) \<in> seen \<union> Kid ` set (take i ks)) \<and>
       Kid ` set (take i ks) \<inter> seen = {}"
proof (induction ks arbitrary: n seen out)
  case (Cons k ks)
  show ?case
  proof (cases rule: validateKey_cases [of k])
    case ok
    show ?thesis
    proof (cases "Kid k \<in> seen")
      case True
      then show ?thesis using ok Cons.prems by (intro exI [of _ 0]) auto
    next
      case False
      then have "\<exists>out'. validate_keys (Suc n) (insert (Kid k) seen) out' ks = Inl (KeyRejected m e)"
        using ok Cons.prems by auto
      then obtain i where i: "i < length ks" "m = Suc n + i" "\<forall>k \<in> set (take i ks). valid_key k"
          "distinct (map Kid (take i ks))" "Kid ` set (take i ks) \<inter> insert (Kid k) seen = {}"
          "validateKey (ks ! i) = Inl e \<or> valid_key (ks ! i) \<and> e = DuplicateKid (Kid (ks ! i)) \<and>
             Kid (ks ! i) \<in> insert (Kid k) seen \<union> Kid ` set (take i ks)"
        using Cons.IH [of "Suc n" "insert (Kid k) seen"] by meson
      show ?thesis using i(1-5) ok False i(6) by (intro exI [of _ "Suc i"]) auto
    qed
  next
    case (bad e')
    then show ?thesis using Cons.prems by (intro exI [of _ 0]) auto
  qed
qed simp

section \<open>A sample key set\<close>

definition sample_jwks :: jwks where
  "sample_jwks =
     \<lparr>Keys = [\<lparr>Kid = ''k1'', Kty = ''RSA'', Alg = ''RS256'', Use = ''sig'', KeyN = ''3q2-7w'',
              KeyE = ''AQAB''\<rparr>]\<rparr>"

lemma sample_valid: "valid_jwks sample_jwks"
  by code_simp

lemma sample_utf8: "\<forall>k \<in> set (Keys sample_jwks). utf8_key k"
  by code_simp

section \<open>Properties\<close>

text \<open>C18: Serialising a valid key set whose strings are UTF-8 and parsing the bytes back gives the
  same key set, whatever white space follows it. Every parsed key set is such a one (\<open>parse_gate\<close>).\<close>

theorem marshal_parse_roundtrip:
  assumes "valid_jwks j" and "\<forall>k \<in> set (Keys j). utf8_key k" and "list_all is_space r"
  shows "ParseAndValidate (Marshal j @ r) = Inr j"
proof -
  have "dropWhile is_space r = []" using assms(3) by (simp add: list_all_iff)
  then have "\<not> decoder_more r" by (simp only: decoder_more_def list.case not_False_eq_True)
  then show ?thesis by (rule marshal_accepted [OF assms(1,2)])
qed

theorem marshal_parse_roundtrip_witness:
  "ParseAndValidate (Marshal sample_jwks @ '' '') = Inr sample_jwks"
  by (rule marshal_parse_roundtrip [OF sample_valid sample_utf8]) code_simp

text \<open>C1: The gate. Whatever bytes the upstream sent, an accepted key set has 1 to 200 keys with
  distinct ids, each an RSA RS256 signing key with nonempty base64url material, every string is
  UTF-8, and its canonical form is a fixed point of parsing.\<close>

theorem parse_gate:
  assumes "ParseAndValidate body = Inr j"
  shows "1 \<le> length (Keys j) \<and> length (Keys j) \<le> 200 \<and> distinct (map Kid (Keys j)) \<and>
    (\<forall>k \<in> set (Keys j). valid_key k \<and> utf8_key k) \<and> ParseAndValidate (Marshal j) = Inr j"
  using parsed_valid [OF assms] parsed_utf8 [OF assms] reparse [OF assms]
  by (auto simp: valid_jwks_def)

theorem parse_gate_witness: "length (Keys sample_jwks) \<le> 200"
  using parse_gate [of "Marshal sample_jwks"] marshal_accepted [OF sample_valid sample_utf8, of "[]"]
  by simp

text \<open>A rejection names the first offending key. Every key before it is valid and their ids
  are distinct, and the error is the key's own or that its id is one of theirs.\<close>

lemma rejection_names_first_bad_key:
  assumes "check_keys ks = Inl (KeyRejected i e)"
  shows "i < length ks \<and> (\<forall>k \<in> set (take i ks). valid_key k) \<and> distinct (map Kid (take i ks)) \<and>
    (validateKey (ks ! i) = Inl e \<or>
     valid_key (ks ! i) \<and> e = DuplicateKid (Kid (ks ! i)) \<and> Kid (ks ! i) \<in> Kid ` set (take i ks))"
proof -
  have "validate_keys 0 {} [] ks = Inl (KeyRejected i e)"
    using assms by (auto simp: check_keys_def split: if_splits)
  from validate_keys_error [OF this] show ?thesis by auto
qed

lemma rejection_names_first_bad_key_witness:
  "distinct (map Kid (take 1 (Keys sample_jwks @ Keys sample_jwks)))"
proof -
  have "check_keys (Keys sample_jwks @ Keys sample_jwks) = Inl (KeyRejected 1 (DuplicateKid ''k1''))"
    by code_simp
  then show ?thesis using rejection_names_first_bad_key by blast
qed

text \<open>The check for trailing data is \<open>Decoder.More\<close>, which answers false before a closing
  bracket or brace: a valid document followed by one, and by anything after it, is accepted.\<close>

lemma trailing_bracket_accepted:
  assumes "valid_jwks j" and "\<forall>k \<in> set (Keys j). utf8_key k" and "c = CHR '']'' \<or> c = CHR ''}''"
  shows "ParseAndValidate (Marshal j @ c # junk) = Inr j"
proof -
  have "\<not> decoder_more (c # junk)"
    using assms(3) by (elim disjE) (simp_all add: decoder_more_def is_space_def)
  then show ?thesis by (rule marshal_accepted [OF assms(1,2)])
qed

end
