(* ===== verification/Fetcher.thy ===== *)
theory Fetcher
  imports Errors Oidc_Log Jwks_Roundtrip Go_Http
begin

text \<open>
  \<open>internal/oidc/fetcher.go\<close>. What one \<open>Fetch\<close> meets outside the program is the record
  \<open>fetch_env\<close>: whether the request could be built, what reading the token file gives at this
  request, and the upstream's answer to a request. A response is its status, the bytes its body
  yields, and the error the body ends with, if it does not end cleanly.
\<close>

section \<open>Construction\<close>

definition DefaultJWKSUpstreamURL :: string where
  "DefaultJWKSUpstreamURL = ''https://kubernetes.default.svc/openid/v1/jwks''"

definition DefaultSATokenPath :: string where
  "DefaultSATokenPath = ''/var/run/secrets/kubernetes.io/serviceaccount/token''"

definition DefaultSACAPath :: string where
  "DefaultSACAPath = ''/var/run/secrets/kubernetes.io/serviceaccount/ca.crt''"

definition fetchClientTimeout :: duration where
  [simp]: "fetchClientTimeout = 10 * Second"

definition fetchTLSHandshake :: duration where
  [simp]: "fetchTLSHandshake = 5 * Second"

definition fetchIdleConnTimeout :: duration where
  [simp]: "fetchIdleConnTimeout = 90 * Second"

definition fetchExpectContinue :: duration where
  [simp]: "fetchExpectContinue = 1 * Second"

definition fetchMaxIdleConns :: int where
  [simp]: "fetchMaxIdleConns = 4"

record http_client =
  cl_RootCAs :: bytes
  cl_MinVersion :: int
  cl_ForceAttemptHTTP2 :: bool
  cl_MaxIdleConns :: int
  cl_IdleConnTimeout :: duration
  cl_TLSHandshakeTimeout :: duration
  cl_ExpectContinueTimeout :: duration
  cl_Timeout :: duration
  cl_followRedirects :: bool

record HTTPFetcher =
  f_url :: string
  f_tokenPath :: string
  f_client :: http_client
  f_logger :: handler

text \<open>
  \<open>ca_file\<close> is what \<open>os.ReadFile\<close> gives for the CA path and \<open>appendCerts\<close> whether
  \<open>AppendCertsFromPEM\<close> found a certificate; version TLS 1.2 is \<open>0x0303\<close>.
\<close>

definition NewHTTPFetcher ::
  "string \<Rightarrow> string \<Rightarrow> string \<Rightarrow> logger \<Rightarrow> handler \<Rightarrow> (go_error, bytes) result \<Rightarrow> (bytes \<Rightarrow> bool) \<Rightarrow>
     (go_error, HTTPFetcher) result" where
  "NewHTTPFetcher url tokenPath caPath logger slog_default ca_file appendCerts =
     (let lg = (case logger of None \<Rightarrow> slog_default | Some h \<Rightarrow> h) in
      case ca_file of
        Inl e \<Rightarrow> Inl (ErrWrap (''read CA '' @ caPath) e)
      | Inr pem \<Rightarrow>
          if \<not> appendCerts pem then Inl (ErrText (''CA '' @ caPath @ '': no PEM blocks''))
          else Inr
            \<lparr>f_url = url, f_tokenPath = tokenPath,
             f_client =
               \<lparr>cl_RootCAs = pem, cl_MinVersion = 0x0303, cl_ForceAttemptHTTP2 = True,
                cl_MaxIdleConns = fetchMaxIdleConns, cl_IdleConnTimeout = fetchIdleConnTimeout,
                cl_TLSHandshakeTimeout = fetchTLSHandshake, cl_ExpectContinueTimeout = fetchExpectContinue,
                cl_Timeout = fetchClientTimeout, cl_followRedirects = False\<rparr>,
             f_logger = lg\<rparr>)"

section \<open>Requests\<close>

record http_request =
  hr_method :: string
  hr_url :: string
  hr_header :: "(string \<times> string) list"

record http_response =
  rs_status :: int
  rs_body :: bytes
  rs_body_err :: "go_error option"

record fetch_env =
  build_err :: "go_error option"
  token_file :: "(go_error, bytes) result"
  upstream :: "http_request \<Rightarrow> (go_error, http_response) result"

fun trimTrailingNewline :: "bytes \<Rightarrow> bytes" where
  "trimTrailingNewline b =
     (if b \<noteq> [] \<and> (last b = CHR 0x0A \<or> last b = CHR 0x0D) then trimTrailingNewline (butlast b)
      else b)"

declare trimTrailingNewline.simps [simp del]

definition RoundTrip :: "string \<Rightarrow> fetch_env \<Rightarrow> http_request \<Rightarrow> (go_error, http_response) result" where
  "RoundTrip tokenPath env req =
     (case token_file env of
        Inl e \<Rightarrow> Inl (ErrFetch fetchErrTokenRead tokenPath 0 0 (Some e))
      | Inr raw \<Rightarrow>
          (let tok = trimTrailingNewline raw in
           if length tok = 0 then Inl (ErrFetch fetchErrTokenEmpty tokenPath 0 0 None)
           else upstream env
             (req\<lparr>hr_header := header_Set ''Authorization'' (''Bearer '' @ tok) (hr_header req)\<rparr>)))"

text \<open>
  \<open>http.Client.Do\<close> with \<open>CheckRedirect\<close> answering \<open>ErrUseLastResponse\<close>: one round trip, a
  redirect is returned like any response, and a transport error is wrapped in a \<open>*url.Error\<close>.
\<close>

definition client_Do :: "string \<Rightarrow> fetch_env \<Rightarrow> http_request \<Rightarrow> (go_error, http_response) result" where
  "client_Do tokenPath env req =
     (case RoundTrip tokenPath env req of Inl e \<Rightarrow> Inl (ErrURL e) | Inr r \<Rightarrow> Inr r)"

text \<open>\<open>io.ReadAll(io.LimitReader(body, n))\<close>.\<close>

definition ReadAll_limited :: "nat \<Rightarrow> http_response \<Rightarrow> (go_error, bytes) result" where
  "ReadAll_limited n r =
     (if n \<le> length (rs_body r) then Inr (take n (rs_body r))
      else case rs_body_err r of None \<Rightarrow> Inr (rs_body r) | Some e \<Rightarrow> Inl e)"

definition Fetch :: "HTTPFetcher \<Rightarrow> fetch_env \<Rightarrow> (go_error, jwks) result" where
  "Fetch f env =
     (case build_err env of
        Some e \<Rightarrow> Inl (ErrFetch fetchErrBuildRequest (f_url f) 0 0 (Some e))
      | None \<Rightarrow>
     (let req = \<lparr>hr_method = ''GET'', hr_url = f_url f,
                 hr_header = header_Set ''Accept'' ''application/jwk-set+json, application/json'' []\<rparr>
      in
      case client_Do (f_tokenPath f) env req of
        Inl e \<Rightarrow> Inl (ErrFetch fetchErrUpstream (f_url f) 0 0 (Some e))
      | Inr resp \<Rightarrow>
      if rs_status resp \<noteq> 200
      then Inl (ErrFetch fetchErrUpstreamCode (f_url f) (rs_status resp) 0 None)
      else
      (case ReadAll_limited (MaxJWKSBodyBytes + 1) resp of
         Inl e \<Rightarrow> Inl (ErrFetch fetchErrReadBody (f_url f) 0 0 (Some e))
       | Inr body \<Rightarrow>
      if MaxJWKSBodyBytes < length body
      then Inl (ErrFetch fetchErrBodyTooLarge (f_url f) 0 (int (length body)) None)
      else
      (case ParseAndValidate body of
         Inl e \<Rightarrow> Inl (ErrFetch fetchErrJWKSInvalid (f_url f) 0 0 (Some (ErrJWKS e)))
       | Inr jwks \<Rightarrow> Inr jwks))))"

section \<open>Facts\<close>

lemma trimTrailingNewline_eq:
  "trimTrailingNewline b = rev (dropWhile (\<lambda>c. c = CHR 0x0A \<or> c = CHR 0x0D) (rev b))"
proof (induction b rule: rev_induct)
  case Nil
  then show ?case by (simp add: trimTrailingNewline.simps)
next
  case (snoc c b)
  then show ?case by (simp add: trimTrailingNewline.simps [of "b @ [c]"])
qed

text \<open>A fetched key set came from one answered request that carried the current token.\<close>

definition fetch_request :: "HTTPFetcher \<Rightarrow> bytes \<Rightarrow> http_request" where
  "fetch_request f raw =
     \<lparr>hr_method = ''GET'', hr_url = f_url f,
      hr_header = [(''Accept'', ''application/jwk-set+json, application/json''),
                   (''Authorization'', ''Bearer '' @ trimTrailingNewline raw)]\<rparr>"

lemma Fetch_ok:
  "Fetch f env = Inr j \<longleftrightarrow>
     build_err env = None \<and>
     (\<exists>raw resp. token_file env = Inr raw \<and> trimTrailingNewline raw \<noteq> [] \<and>
        upstream env (fetch_request f raw) = Inr resp \<and> rs_status resp = 200 \<and>
        rs_body_err resp = None \<and> length (rs_body resp) \<le> MaxJWKSBodyBytes \<and>
        ParseAndValidate (rs_body resp) = Inr j)"
  by (auto simp: Fetch_def client_Do_def RoundTrip_def ReadAll_limited_def fetch_request_def
      header_Set_def Let_def split: option.splits sum.splits if_splits)

lemma Fetch_valid: "Fetch f env = Inr j \<Longrightarrow> valid_jwks j \<and> (\<forall>k \<in> set (Keys j). utf8_key k)"
  by (auto simp: Fetch_ok dest: parsed_valid parsed_utf8)

text \<open>Every failure is a \<open>*fetchError\<close> of one of six kinds; \<open>Fetch\<close> never returns the two token kinds.\<close>

lemma Fetch_error_kind:
  assumes "Fetch f env = Inl e"
  shows "\<exists>k c b r. e = ErrFetch k (f_url f) c b r \<and> k \<notin> {fetchErrTokenRead, fetchErrTokenEmpty}"
  using assms
  by (auto simp: Fetch_def Let_def split: option.splits sum.splits if_splits)

section \<open>Properties\<close>

text \<open>An upstream that answers every request with the sample key set.\<close>

definition sample_fetcher :: HTTPFetcher where
  "sample_fetcher =
     \<lparr>f_url = DefaultJWKSUpstreamURL, f_tokenPath = DefaultSATokenPath,
      f_client = \<lparr>cl_RootCAs = [], cl_MinVersion = 0x0303, cl_ForceAttemptHTTP2 = True,
        cl_MaxIdleConns = 4, cl_IdleConnTimeout = 0, cl_TLSHandshakeTimeout = 0,
        cl_ExpectContinueTimeout = 0, cl_Timeout = 0, cl_followRedirects = False\<rparr>,
      f_logger = JSONHandler 0\<rparr>"

definition sample_env :: fetch_env where
  "sample_env =
     \<lparr>build_err = None, token_file = Inr ''token'',
      upstream = (\<lambda>req. Inr \<lparr>rs_status = 200, rs_body = Marshal sample_jwks, rs_body_err = None\<rparr>)\<rparr>"

lemma sample_fetch: "Fetch sample_fetcher sample_env = Inr sample_jwks"
proof -
  have "ParseAndValidate (Marshal sample_jwks) = Inr sample_jwks"
    using marshal_accepted [OF sample_valid sample_utf8, of "[]"] by simp
  moreover have "trimTrailingNewline ''token'' = ''token''" by code_simp
  moreover have "length (Marshal sample_jwks) \<le> 200" by code_simp
  then have "length (Marshal sample_jwks) \<le> MaxJWKSBodyBytes" by (simp add: MaxJWKSBodyBytes_def)
  ultimately show ?thesis by (simp add: Fetch_ok sample_env_def)
qed

text \<open>C20: A fetch succeeds exactly when the request could be built, the token file was readable
  and not blank, the one request sent (a GET of the upstream with that token as its bearer) was
  answered 200 with a cleanly ended body of at most 1 MiB, and the body passes the gate.\<close>

theorem Fetch_success_iff:
  "Fetch f env = Inr j \<longleftrightarrow>
     build_err env = None \<and>
     (\<exists>raw resp. token_file env = Inr raw \<and> trimTrailingNewline raw \<noteq> [] \<and>
        upstream env (fetch_request f raw) = Inr resp \<and> rs_status resp = 200 \<and>
        rs_body_err resp = None \<and> length (rs_body resp) \<le> MaxJWKSBodyBytes \<and>
        ParseAndValidate (rs_body resp) = Inr j)"
  by (rule Fetch_ok)

text \<open>C37: The error kinds for an unreadable and for an empty token file never reach the log or a
  metric label. \<open>Fetch\<close> wraps a transport error in its own \<open>upstream_request\<close> error, which
  \<open>errors.As\<close> finds first.\<close>

theorem token_kinds_masked:
  assumes "build_err env = None"
    and "(\<exists>e. token_file env = Inl e) \<or> (\<exists>raw. token_file env = Inr raw \<and> trimTrailingNewline raw = [])"
  shows "\<exists>e. Fetch f env = Inl e \<and> jwksErrorKind e = ''upstream_request'' \<and>
    jwksErrorAttrs e = [(''error_kind'', AString ''upstream_request''),
                        (''error'', AString ''upstream request failed'')]"
  using assms
  by (auto simp: Fetch_def client_Do_def RoundTrip_def jwksErrorKind_def jwksErrorAttrs_def Let_def)

theorem token_kinds_masked_witness:
  "\<exists>e. Fetch sample_fetcher (sample_env\<lparr>token_file := Inr []\<rparr>) = Inl e \<and>
     jwksErrorKind e = ''upstream_request''"
proof -
  have "trimTrailingNewline [] = []" by code_simp
  then show ?thesis
    using token_kinds_masked [of "sample_env\<lparr>token_file := Inr []\<rparr>" sample_fetcher]
    by (auto simp: sample_env_def)
qed

end
