(* ===== verification/Cache.thy ===== *)
theory Cache
  imports Fetcher
begin

text \<open>
  \<open>internal/oidc/cache.go\<close>: the JWKS cache. Its lock makes \<open>store\<close>, \<open>Current\<close> and \<open>Ready\<close>
  atomic. \<open>Prime\<close> and a tick of \<open>Run\<close> are given here as one operation each; theory Cache_Steps takes
  them apart and lets readers in between. Every reading of a clock is an argument. The fetcher is the outcome of its one \<open>Fetch\<close> call. The body is the list of its
  bytes, empty for nil.
\<close>

section \<open>State\<close>

record cache =
  ttl :: duration
  maxAge :: duration
  c_logger :: handler
  current :: bytes
  updatedAt :: time
  ready :: bool

definition NewCache :: "duration \<Rightarrow> duration \<Rightarrow> logger \<Rightarrow> handler \<Rightarrow> cache" where
  "NewCache t m logger slog_default =
     \<lparr>ttl = t, maxAge = m, c_logger = (case logger of None \<Rightarrow> slog_default | Some h \<Rightarrow> h),
      current = [], updatedAt = 0, ready = False\<rparr>"

section \<open>Reading\<close>

definition freshnessLocked :: "time \<Rightarrow> cache \<Rightarrow> bool \<times> duration" where
  "freshnessLocked now c =
     (if \<not> ready c \<or> length (current c) = 0 \<or> IsZero (updatedAt c) then (False, 0)
      else
        let age = max (Sub now (updatedAt c)) 0;
            staleWindow = wrap64 (maxAge c + ttl c);
            remaining = wrap64 (staleWindow - age)
        in if remaining \<le> 0 then (False, 0)
           else if maxAge c < remaining then (True, maxAge c)
           else (True, remaining))"

definition cache_control :: "duration \<Rightarrow> string" where
  "cache_control d = ''public, max-age='' @ Itoa (whole_seconds d)"

definition Current :: "time \<Rightarrow> cache \<Rightarrow> bytes \<times> string" where
  "Current now c =
     (let (ok, remaining) = freshnessLocked now c in
      if \<not> ok then ([], ''no-store'') else (current c, cache_control remaining))"

definition Ready :: "time \<Rightarrow> cache \<Rightarrow> bool" where
  "Ready now c = fst (freshnessLocked now c)"

definition remainingFreshness :: "time \<Rightarrow> cache \<Rightarrow> bool \<times> duration" where
  "remainingFreshness now c = freshnessLocked now c"

section \<open>Writing\<close>

definition store :: "bytes \<Rightarrow> time \<Rightarrow> cache \<Rightarrow> cache" where
  "store body now c = c\<lparr>current := body, updatedAt := now, ready := True\<rparr>"

text \<open>
  \<open>json.Marshal\<close> cannot fail on the \<open>JWKS\<close> struct, but the source handles an error of
  \<open>jwks.Marshal()\<close>: the outcome of the call is an argument, \<open>marshal j\<close> being what the
  code's own serialisation gives.
\<close>

type_synonym marshaller = "jwks \<Rightarrow> (go_error, bytes) result"

definition json_Marshal :: marshaller where
  "json_Marshal j = Inr (Marshal j)"

definition marshal_failed_attrs :: "attr list" where
  "marshal_failed_attrs =
     [(''error_kind'', AString ''marshal_failed''), (''error'', AString ''marshal jwks failed'')]"

text \<open>
  \<open>Prime\<close>: the fetch outcome, the clock at \<open>store\<close> and the recorder's clock; the error
  returned, if any.
\<close>

definition Prime ::
  "marshaller \<Rightarrow> (go_error, jwks) result \<Rightarrow> time \<Rightarrow> time \<Rightarrow> cache \<times> obs \<Rightarrow>
     (cache \<times> obs) \<times> go_error option" where
  "Prime marshal fetched now mnow st =
     (let (c, s) = st in
      case fetched of
        Inl e \<Rightarrow>
          ((c, logJWKSFailure (Some (c_logger c)) LevelError ''jwks_prime_failure'' e
                 (record_if RecordJWKSPrimeFailure s)), Some e)
      | Inr jwks \<Rightarrow>
          (case marshal jwks of
             Inl e \<Rightarrow>
               ((c, Error (Some (c_logger c)) ''jwks_cache'' ''jwks_prime_failure''
                      ''jwks cache update failed'' marshal_failed_attrs
                      (record_if RecordJWKSPrimeFailure s)), Some e)
           | Inr body \<Rightarrow>
               ((store body now c,
                 logJWKSSuccess (Some (c_logger c)) ''jwks_prime_success'' jwks
                   (record_if (RecordJWKSPrimeSuccess mnow (int (length (Keys jwks)))) s)), None)))"

definition refresh ::
  "marshaller \<Rightarrow> (go_error, jwks) result \<Rightarrow> time \<Rightarrow> time \<Rightarrow> cache \<times> obs \<Rightarrow>
     (cache \<times> obs) \<times> go_error option" where
  "refresh marshal fetched now mnow st =
     (let (c, s) = st in
      case fetched of
        Inl e \<Rightarrow> ((c, s), Some e)
      | Inr jwks \<Rightarrow>
          (case marshal jwks of
             Inl e \<Rightarrow>
               ((c, Warn (Some (c_logger c)) ''jwks_cache'' ''jwks_refresh_failure''
                      ''jwks cache update failed'' marshal_failed_attrs
                      (record_if (RecordJWKSRefreshFailure ''marshal_failed'') s)), Some e)
           | Inr body \<Rightarrow>
               ((store body now c,
                 logJWKSSuccess (Some (c_logger c)) ''jwks_refresh_success'' jwks
                   (record_if (RecordJWKSRefreshSuccess mnow (int (length (Keys jwks)))) s)), None)))"

text \<open>What one tick of \<open>Run\<close> meets: the fetch outcome and three clock readings.\<close>

record tick =
  t_fetch :: "(go_error, jwks) result"
  t_store :: time
  t_metric :: time
  t_fresh :: time

definition on_tick :: "marshaller \<Rightarrow> tick \<Rightarrow> cache \<times> obs \<Rightarrow> cache \<times> obs" where
  "on_tick marshal t st =
     (let ((c, s), err) = refresh marshal (t_fetch t) (t_store t) (t_metric t) st in
      case err of
        None \<Rightarrow> (c, s)
      | Some e \<Rightarrow>
          (let errorKind = jwksErrorKind e;
               s1 = record_if (RecordJWKSRefreshFailure errorKind) s;
               s2 = logJWKSFailure (Some (c_logger c)) LevelWarn ''jwks_refresh_failure'' e s1;
               (ok, remaining) = remainingFreshness (t_fresh t) c
           in if ok
              then (c, Warn (Some (c_logger c)) ''jwks_cache'' ''jwks_serving_stale''
                         ''serving stale jwks''
                         [(''stale_remaining_seconds'', AInt (whole_seconds remaining))]
                         (record_if (RecordJWKSServingStale errorKind) s2))
              else (c, s2)))"

text \<open>\<open>Run\<close> over the events its \<open>select\<close> takes, until the context is done.\<close>

datatype run_event = CtxDone | TickerFired tick

fun Run :: "marshaller \<Rightarrow> run_event list \<Rightarrow> cache \<times> obs \<Rightarrow> cache \<times> obs" where
  "Run marshal [] st = st"
| "Run marshal (CtxDone # es) st = st"
| "Run marshal (TickerFired t # es) st = Run marshal es (on_tick marshal t st)"

section \<open>Facts: freshness\<close>

lemma fresh_empty [simp]: "current c = [] \<Longrightarrow> freshnessLocked now c = (False, 0)"
  by (simp add: freshnessLocked_def)

lemma Ready_Current: "Ready now c \<longleftrightarrow> fst (Current now c) \<noteq> []"
  by (auto simp: Ready_def Current_def freshnessLocked_def Let_def)

lemma not_ready_no_store: "\<not> Ready now c \<Longrightarrow> Current now c = ([], ''no-store'')"
  by (auto simp: Ready_def Current_def split: prod.splits)

text \<open>
  With positive settings whose sum is an \<open>int64\<close>, freshness is what the comment on
  \<open>freshnessLocked\<close> promises, in exact arithmetic.
\<close>

definition sane :: "cache \<Rightarrow> bool" where
  "sane c \<longleftrightarrow> 0 < ttl c \<and> 0 < maxAge c \<and> maxAge c + ttl c < 2 ^ 63"

definition exact_age :: "time \<Rightarrow> cache \<Rightarrow> int" where
  "exact_age now c = max (now - updatedAt c) 0"

lemma Sub_age: "max (Sub now u) 0 = min (max (now - u) 0) (2 ^ 63 - 1)"
  by (auto simp: Sub_def)

lemma freshness_spec:
  assumes "sane c"
  shows "freshnessLocked now c =
    (if ready c \<and> current c \<noteq> [] \<and> updatedAt c \<noteq> 0 \<and> exact_age now c < maxAge c + ttl c
     then (True, min (maxAge c) (maxAge c + ttl c - exact_age now c))
     else (False, 0))"
proof -
  let ?w = "maxAge c + ttl c"
  define a where "a = max (Sub now (updatedAt c)) 0"
  have a: "a = min (exact_age now c) (2 ^ 63 - 1)" by (simp only: a_def Sub_age exact_age_def)
  have w: "0 < maxAge c" "0 < ttl c" "?w < 2 ^ 63" using assms by (auto simp: sane_def)
  have b: "0 \<le> a" "a < 2 ^ 63" by (auto simp: a_def Sub_def)
  have ww: "wrap64 ?w = ?w" and r: "wrap64 (?w - a) = ?w - a"
    using w b by (intro wrap64_id; simp add: in64_def)+
  have f: "freshnessLocked now c =
      (if \<not> ready c \<or> length (current c) = 0 \<or> updatedAt c = 0 then (False, 0)
       else if ?w - a \<le> 0 then (False, 0)
       else if maxAge c < ?w - a then (True, maxAge c) else (True, ?w - a))"
    by (simp only: freshnessLocked_def Let_def IsZero_def a_def [symmetric] ww r)
  show ?thesis
  proof (cases "exact_age now c < ?w")
    case True
    then have "a = exact_age now c" using a w(3) by linarith
    then show ?thesis using f True by (simp add: min_def)
  next
    case False
    then have "?w \<le> a" using a w(3) by linarith
    then show ?thesis using f False by simp
  qed
qed

lemma store_fields [simp]:
  "current (store b t c) = b" "updatedAt (store b t c) = t" "ready (store b t c)"
  "ttl (store b t c) = ttl c" "maxAge (store b t c) = maxAge c" "c_logger (store b t c) = c_logger c"
  by (simp_all add: store_def)

lemma Marshal_nonempty [simp]: "Marshal j \<noteq> []"
  by (simp add: Marshal_def)

end
