(* ===== verification/Cache_Run.thy ===== *)
theory Cache_Run
  imports Cache
begin

text \<open>
  Runs of the cache: any sequence of \<open>Prime\<close> and ticks of \<open>Run\<close>. The abstract specification of
  the cache is the pair of the last key set fetched and the time it was stored at; the concrete
  cache after a run is determined by it.
\<close>

datatype cache_op = DoPrime "(go_error, jwks) result" time time | DoTick tick

fun exec_op :: "marshaller \<Rightarrow> cache_op \<Rightarrow> cache \<times> obs \<Rightarrow> cache \<times> obs" where
  "exec_op marshal (DoPrime fetched now mnow) st = fst (Prime marshal fetched now mnow st)"
| "exec_op marshal (DoTick t) st = on_tick marshal t st"

definition exec :: "marshaller \<Rightarrow> cache_op list \<Rightarrow> cache \<times> obs \<Rightarrow> cache \<times> obs" where
  "exec marshal ops st = fold (exec_op marshal) ops st"

fun op_fetch :: "cache_op \<Rightarrow> (go_error, jwks) result" where
  "op_fetch (DoPrime fetched now mnow) = fetched"
| "op_fetch (DoTick t) = t_fetch t"

fun op_time :: "cache_op \<Rightarrow> time" where
  "op_time (DoPrime fetched now mnow) = now"
| "op_time (DoTick t) = t_store t"

definition good :: "cache_op \<Rightarrow> (jwks \<times> time) list" where
  "good p = (case op_fetch p of Inl e \<Rightarrow> [] | Inr j \<Rightarrow> [(j, op_time p)])"

text \<open>The last good fetch of a run.\<close>

definition last_good :: "cache_op list \<Rightarrow> (jwks \<times> time) option" where
  "last_good ops =
     (let gs = concat (map good ops) in if gs = [] then None else Some (last gs))"

text \<open>What the cache must answer, from the last good fetch alone.\<close>

definition spec_current :: "duration \<Rightarrow> duration \<Rightarrow> (jwks \<times> time) option \<Rightarrow> time \<Rightarrow> bytes \<times> string" where
  "spec_current m t g now =
     (case g of
        None \<Rightarrow> ([], ''no-store'')
      | Some (j, t0) \<Rightarrow>
          if t0 \<noteq> 0 \<and> max (now - t0) 0 < m + t
          then (Marshal j, cache_control (min m (m + t - max (now - t0) 0)))
          else ([], ''no-store''))"

section \<open>One operation\<close>

definition apply_good :: "(jwks \<times> time) list \<Rightarrow> cache \<Rightarrow> cache" where
  "apply_good gs c = (case gs of [] \<Rightarrow> c | _ \<Rightarrow> store (Marshal (fst (last gs))) (snd (last gs)) c)"

lemma store_store [simp]: "store b t (store b' t' c) = store b t c"
  by (simp add: store_def)

lemma apply_good_append: "apply_good hs (apply_good gs c) = apply_good (gs @ hs) c"
  by (auto simp: apply_good_def split: list.splits)

lemma refresh_cache:
  "refresh json_Marshal fetched now mnow (c, s) = ((c', s'), err) \<Longrightarrow>
     c' = (case fetched of Inl e \<Rightarrow> c | Inr j \<Rightarrow> store (Marshal j) now c) \<and>
     err = (case fetched of Inl e \<Rightarrow> Some e | Inr j \<Rightarrow> None)"
  by (auto simp: refresh_def json_Marshal_def split: sum.splits)

lemma on_tick_cache:
  "fst (on_tick json_Marshal t (c, s)) =
     (case t_fetch t of Inl e \<Rightarrow> c | Inr j \<Rightarrow> store (Marshal j) (t_store t) c)"
proof -
  obtain c' s' err where r: "refresh json_Marshal (t_fetch t) (t_store t) (t_metric t) (c, s) = ((c', s'), err)"
    by (metis prod.exhaust)
  then show ?thesis using refresh_cache [OF r]
    by (auto simp: on_tick_def Let_def split: option.splits prod.splits)
qed

lemma exec_op_cache: "fst (exec_op json_Marshal p (c, s)) = apply_good (good p) c"
proof (cases p)
  case (DoPrime fetched now mnow)
  then show ?thesis
    by (auto simp: Prime_def json_Marshal_def good_def apply_good_def split: sum.splits)
next
  case (DoTick t)
  then show ?thesis
    by (auto simp: on_tick_cache good_def apply_good_def simp del: exec_op.simps(1) split: sum.splits)
qed

lemma exec_cache:
  "fst (exec json_Marshal ops (c, s)) = apply_good (concat (map good ops)) c"
proof (induction ops arbitrary: c s)
  case Nil
  then show ?case by (simp add: exec_def apply_good_def)
next
  case (Cons p ops)
  obtain c1 s1 where st: "exec_op json_Marshal p (c, s) = (c1, s1)" by fastforce
  then have "c1 = apply_good (good p) c" using exec_op_cache [of p c s] by simp
  then show ?case using Cons.IH [of c1 s1] by (simp add: exec_def st apply_good_append)
qed

definition empty_cache :: "cache \<Rightarrow> bool" where
  "empty_cache c \<longleftrightarrow> current c = [] \<and> \<not> ready c"

lemma NewCache_empty: "empty_cache (NewCache t m lg d)"
  by (simp add: NewCache_def empty_cache_def)

lemma Current_store:
  "sane c \<Longrightarrow> Current now (store (Marshal j) t0 c) = spec_current (maxAge c) (ttl c) (Some (j, t0)) now"
  using freshness_spec [of "store (Marshal j) t0 c" now]
  by (auto simp: Current_def spec_current_def sane_def exact_age_def)

text \<open>The refinement: a run answers as the specification does.\<close>

lemma exec_refines:
  assumes "sane c" and "empty_cache c"
  shows "Current now (fst (exec json_Marshal ops (c, s))) =
    spec_current (maxAge c) (ttl c) (last_good ops) now"
proof (cases "concat (map good ops)")
  case Nil
  then have "fst (exec json_Marshal ops (c, s)) = c"
    by (simp only: exec_cache apply_good_def list.case)
  then show ?thesis using assms(2) Nil
    by (simp add: Current_def empty_cache_def last_good_def spec_current_def)
next
  case (Cons g gs)
  obtain j t0 where l: "last (g # gs) = (j, t0)" by fastforce
  have "fst (exec json_Marshal ops (c, s)) = store (Marshal j) t0 c"
    using Cons l by (simp add: exec_cache apply_good_def)
  moreover have "last_good ops = Some (j, t0)"
    unfolding last_good_def Let_def Cons using l by simp
  ultimately show ?thesis using Current_store [OF assms(1)] by simp
qed

lemma exec_Ready:
  assumes "sane c" and "empty_cache c"
  shows "Ready now (fst (exec json_Marshal ops (c, s))) \<longleftrightarrow>
    (\<exists>j t0. last_good ops = Some (j, t0) \<and> t0 \<noteq> 0 \<and> max (now - t0) 0 < maxAge c + ttl c)"
  using exec_refines [OF assms, of now ops s]
  by (auto simp: Ready_Current spec_current_def split: option.splits prod.splits if_splits)

lemma last_good_mem:
  "last_good ops = Some (j, t0) \<Longrightarrow> \<exists>p \<in> set ops. op_fetch p = Inr j \<and> op_time p = t0"
proof -
  assume "last_good ops = Some (j, t0)"
  then have "(j, t0) \<in> set (concat (map good ops))"
    using last_in_set [of "concat (map good ops)"]
    by (simp only: last_good_def Let_def option.inject option.distinct simp_thms split: if_splits)
  then show ?thesis by (auto simp: good_def split: sum.splits)
qed

section \<open>The fetcher's contract\<close>

text \<open>
  The interface \<open>Fetcher\<close>: the outcome of a call in its environment, and what the cache relies
  on, that a key set it returns has passed validation.
\<close>

locale jwks_fetcher =
  fixes fetch :: "'e \<Rightarrow> (go_error, jwks) result"
  assumes fetch_valid: "fetch env = Inr j \<Longrightarrow> valid_jwks j \<and> (\<forall>k \<in> set (Keys j). utf8_key k)"
begin

lemma stored_reparses:
  "fetch env = Inr j \<Longrightarrow> ParseAndValidate (Marshal j) = Inr j"
  using marshal_accepted [of j "[]"] fetch_valid by simp

lemma served_reparses:
  assumes "sane c" and "empty_cache c" and "\<forall>p \<in> set ops. op_fetch p \<in> range fetch"
    and "Current now (fst (exec json_Marshal ops (c, s))) = (body, cc)" and "body \<noteq> []"
  shows "\<exists>j. ParseAndValidate body = Inr j \<and> valid_jwks j \<and> body = Marshal j"
proof -
  obtain j t0 where g: "last_good ops = Some (j, t0)" and b: "body = Marshal j"
    using exec_refines [OF assms(1,2), of now ops s] assms(4,5)
    by (auto simp: spec_current_def split: option.splits prod.splits if_splits)
  obtain p where p: "p \<in> set ops" "op_fetch p = Inr j" using last_good_mem [OF g] by blast
  then obtain env where "fetch env = Inr j" using assms(3) by fastforce
  then show ?thesis using stored_reparses fetch_valid b by blast
qed

end

interpretation http_fetcher: jwks_fetcher "Fetch f" for f
  by unfold_locales (rule Fetch_valid)

section \<open>Properties\<close>

definition sample_obs :: obs where
  "sample_obs = \<lparr>default_logger = JSONHandler 0, emitted = [], obs_metrics = Some (New_metrics 0)\<rparr>"

definition sample_cache :: cache where
  "sample_cache = NewCache Second Second None (JSONHandler 0)"

definition sample_ops :: "cache_op list" where
  "sample_ops = [DoPrime (Inr sample_jwks) 60 60]"

lemma sample_sane: "sane sample_cache" "empty_cache sample_cache"
  "sane (NewCache Second Second None (JSONHandler 0))"
  by code_simp+

lemma sample_current:
  "Current 61 (fst (exec json_Marshal sample_ops (sample_cache, sample_obs))) =
     (Marshal sample_jwks, ''public, max-age=1'')"
proof -
  have "spec_current Second Second (last_good sample_ops) 61 =
      (Marshal sample_jwks, ''public, max-age=1'')" by code_simp
  moreover have "maxAge sample_cache = Second" "ttl sample_cache = Second"
    by (simp_all add: sample_cache_def NewCache_def)
  ultimately show ?thesis using exec_refines [OF sample_sane(1,2), of 61 sample_ops] by simp
qed

text \<open>C3: The cache refines its abstract specification. Take a new cache with positive maximum age and
  refresh interval whose sum fits an \<open>int64\<close> (\<open>stale_window_overflow\<close> is the other case). After any
  run of \<open>Prime\<close> and refresh ticks, whatever failed in between, \<open>Current\<close> answers from the last good
  fetch alone: its canonical bytes with a lifetime of at most the remaining window, or nothing with
  \<open>no-store\<close>.\<close>

theorem cache_refines_last_good:
  assumes "sane (NewCache t m lg d)"
  shows "Current now (fst (exec json_Marshal ops (NewCache t m lg d, s))) =
    spec_current m t (last_good ops) now"
  using exec_refines [OF assms NewCache_empty, of now ops s] by (simp add: NewCache_def)

theorem cache_refines_last_good_witness:
  "Current 61 (fst (exec json_Marshal sample_ops (NewCache Second Second None (JSONHandler 0), sample_obs))) =
     (Marshal sample_jwks, ''public, max-age=1'')"
proof -
  have "spec_current Second Second (last_good sample_ops) 61 =
      (Marshal sample_jwks, ''public, max-age=1'')" by code_simp
  then show ?thesis
    by (simp only: cache_refines_last_good [OF sample_sane(3), of 61 sample_ops sample_obs])
qed

text \<open>C4: Whatever such a cache serves after a run whose fetches came from the HTTP fetcher is
  the canonical form of a key set that passes the gate again: 1 to 200 RS256 signing keys with
  distinct ids and nonempty base64url material.\<close>

theorem served_body_revalidates:
  assumes "sane (NewCache t m lg d)"
    and "\<forall>p \<in> set ops. \<exists>env. op_fetch p = Fetch f env"
    and "Current now (fst (exec json_Marshal ops (NewCache t m lg d, s))) = (body, cc)"
    and "body \<noteq> []"
  shows "\<exists>j. ParseAndValidate body = Inr j \<and> valid_jwks j \<and> body = Marshal j"
proof -
  have "\<forall>p \<in> set ops. op_fetch p \<in> range (Fetch f)" using assms(2) by blast
  then show ?thesis using assms by (intro http_fetcher.served_reparses [OF _ NewCache_empty])
qed

theorem served_body_revalidates_witness:
  "\<exists>j. ParseAndValidate (Marshal sample_jwks) = Inr j \<and> valid_jwks j \<and> Marshal sample_jwks = Marshal j"
proof (rule served_body_revalidates [OF sample_sane(3), of sample_ops sample_fetcher 61 sample_obs])
  show "\<forall>p \<in> set sample_ops. \<exists>env. op_fetch p = Fetch sample_fetcher env"
    using sample_fetch by (auto simp: sample_ops_def intro!: exI [of _ sample_env])
  show "Current 61 (fst (exec json_Marshal sample_ops (NewCache Second Second None (JSONHandler 0),
      sample_obs))) = (Marshal sample_jwks, ''public, max-age=1'')"
    using sample_current by (simp only: sample_cache_def)
qed simp

lemma header_exact:
  assumes "0 < m" "0 < t" "m + t < 2 ^ 22 * Second" "a < m + t" "0 \<le> a"
  shows "whole_seconds (min m (m + t - a)) * Second \<le> m \<and>
    a + whole_seconds (min m (m + t - a)) * Second \<le> m + t"
proof -
  let ?d = "min m (m + t - a)"
  have w: "whole_seconds ?d = ?d div Second" using assms by (intro whole_seconds_floor) auto
  have "?d div Second * Second \<le> ?d"
    by (simp only: minus_mod_eq_div_mult [symmetric]) (simp only: pos_mod_sign Second_def diff_le_eq le_add_same_cancel1 zero_less_numeral)
  then show ?thesis unfolding w by linarith
qed

lemma header_lifetime:
  assumes "0 < m" "0 < t" "m + t < 2 ^ 63" "a < m + t" "0 \<le> a"
  shows "\<exists>n \<ge> 0. cache_control (min m (m + t - a)) = ''public, max-age='' @ Itoa n \<and>
    n * Second \<le> m + Second \<and> a + n * Second \<le> m + t + Second \<and>
    (m + t < 2 ^ 22 * Second \<longrightarrow> n * Second \<le> m \<and> a + n * Second \<le> m + t)"
proof -
  let ?d = "min m (m + t - a)"
  let ?n = "whole_seconds ?d"
  have "0 \<le> ?d" "in64 ?d" using assms by (auto simp: in64_def)
  then have b: "0 \<le> ?n" "?n * Second \<le> ?d + Second" using whole_seconds_bound by blast+
  then have "?n * Second \<le> m + Second" "a + ?n * Second \<le> m + t + Second" by auto
  moreover have "m + t < 2 ^ 22 * Second \<longrightarrow> ?n * Second \<le> m \<and> a + ?n * Second \<le> m + t"
    using header_exact [of m t a] assms by blast
  ultimately show ?thesis using b(1) unfolding cache_control_def by blast
qed

text \<open>C19: No response may be cached beyond the stale window. Let maximum age and refresh interval be
  positive with a sum that fits an \<open>int64\<close> (the other case is \<open>stale_window_overflow\<close>). The \<open>max-age\<close> of
  a served body is a number of whole seconds, at most the configured maximum, and an answer given
  at \<open>now\<close> expires no later than the store time plus maximum age plus refresh interval: exactly so
  for a sum below \<open>2^22\<close> seconds (48 days), and up to one second beyond that, where the float of
  \<open>Seconds\<close> may round up.\<close>

theorem max_age_within_stale_window:
  assumes "sane c" and "empty_cache c"
    and "Current now (fst (exec json_Marshal ops (c, s))) = (body, cc)" and "body \<noteq> []"
  shows "\<exists>j t0 n. last_good ops = Some (j, t0) \<and> body = Marshal j \<and>
    cc = ''public, max-age='' @ Itoa n \<and> 0 \<le> n \<and> n * Second \<le> maxAge c + Second \<and>
    max now t0 + n * Second \<le> t0 + maxAge c + ttl c + Second \<and>
    (maxAge c + ttl c < 2 ^ 22 * Second \<longrightarrow>
       n * Second \<le> maxAge c \<and> max now t0 + n * Second \<le> t0 + maxAge c + ttl c)"
proof -
  obtain j t0 where g: "last_good ops = Some (j, t0)" and b: "body = Marshal j"
    and a: "max (now - t0) 0 < maxAge c + ttl c"
    and h: "cc = cache_control (min (maxAge c) (maxAge c + ttl c - max (now - t0) 0))"
    using exec_refines [OF assms(1,2), of now ops s] assms(3,4)
    by (auto simp: spec_current_def split: option.splits prod.splits if_splits)
  obtain n where n: "0 \<le> n" "cc = ''public, max-age='' @ Itoa n" "n * Second \<le> maxAge c + Second"
    "max (now - t0) 0 + n * Second \<le> maxAge c + ttl c + Second"
    "maxAge c + ttl c < 2 ^ 22 * Second \<longrightarrow>
       n * Second \<le> maxAge c \<and> max (now - t0) 0 + n * Second \<le> maxAge c + ttl c"
    using header_lifetime [of "maxAge c" "ttl c" "max (now - t0) 0"] assms(1) a h
    by (auto simp: sane_def)
  have "max now t0 = t0 + max (now - t0) 0" by simp
  then show ?thesis using g b n by (intro exI [of _ j] exI [of _ t0] exI [of _ n]) auto
qed

theorem max_age_within_stale_window_witness:
  "\<exists>j t0 n. last_good sample_ops = Some (j, t0) \<and> ''public, max-age=1'' = ''public, max-age='' @ Itoa n \<and>
     max 61 t0 + n * Second \<le> t0 + maxAge sample_cache + ttl sample_cache"
proof -
  have "maxAge sample_cache + ttl sample_cache < 2 ^ 22 * Second" by code_simp
  with max_age_within_stale_window [OF sample_sane(1,2) sample_current] show ?thesis
    by (simp only: Marshal_nonempty not_False_eq_True True_implies_equals) blast
qed

text \<open>C36: The stale window is an \<open>int64\<close> sum that validation does not bound. When it
  overflows, a cache that has just stored a key set is not ready, and it becomes ready only once
  the stored keys are older than the excess over \<open>2^63\<close>.\<close>

theorem stale_window_overflow:
  assumes "0 < ttl c" and "ttl c < 2 ^ 63" and "0 < maxAge c" and "maxAge c < 2 ^ 63"
    and "2 ^ 63 \<le> maxAge c + ttl c" and "t0 \<noteq> 0"
  shows "Ready now (store (Marshal j) t0 c) \<longleftrightarrow>
    maxAge c + ttl c - 2 ^ 63 < min (max (now - t0) 0) (2 ^ 63 - 1)"
proof -
  define w where "w = maxAge c + ttl c"
  define a where "a = max (Sub now t0) 0"
  have a: "a = min (max (now - t0) 0) (2 ^ 63 - 1)" by (simp only: a_def Sub_age)
  have ab: "0 \<le> a" "a < 2 ^ 63" by (auto simp: a)
  have w: "2 ^ 63 \<le> w" "w < 2 ^ 64" using assms by (auto simp: w_def)
  have ww: "wrap64 w = w - 2 ^ 64" using w by (intro wrap64_over) auto
  have "0 < wrap64 (w - 2 ^ 64 - a) \<longleftrightarrow> w - 2 ^ 63 < a"
  proof (cases "w - 2 ^ 63 < a")
    case True
    have "wrap64 (w - 2 ^ 64 - a) = w - 2 ^ 64 - a + 2 ^ 64"
      using True w ab by (intro wrap64_under) auto
    then show ?thesis using True w ab by simp
  next
    case False
    have "wrap64 (w - 2 ^ 64 - a) = w - 2 ^ 64 - a"
      using False w ab by (intro wrap64_id) (auto simp: in64_def)
    then show ?thesis using False w ab by simp
  qed
  moreover have "Ready now (store (Marshal j) t0 c) \<longleftrightarrow> 0 < wrap64 (w - 2 ^ 64 - a)"
    using assms(6) ww unfolding w_def a_def
    by (simp add: Ready_def freshnessLocked_def Let_def IsZero_def)
  ultimately show ?thesis by (simp only: w_def a)
qed

theorem stale_window_overflow_witness:
  "\<not> Ready 60 (store (Marshal sample_jwks) 60 (NewCache (2 ^ 62) (2 ^ 62) None (JSONHandler 0)))"
  by (simp add: stale_window_overflow NewCache_def)

section \<open>What a tick records\<close>

definition tick_calls :: "cache \<Rightarrow> tick \<Rightarrow> metric_call list" where
  "tick_calls c t =
     (case t_fetch t of
        Inr j \<Rightarrow> [Inc ''jwks_refresh_total'' [resultSuccess, errorKindNone]]
      | Inl e \<Rightarrow>
          Inc ''jwks_refresh_total'' [resultFailure, normalizeErrorKind (jwksErrorKind e)] #
          (if Ready (t_fresh t) c
           then [Inc ''jwks_serving_stale_total'' [normalizeErrorKind (jwksErrorKind e)]] else []))"

definition recorded :: "obs \<Rightarrow> metric_call list" where
  "recorded s = (case obs_metrics s of None \<Rightarrow> [] | Some m \<Rightarrow> calls m)"

lemma recorded_frame [frame]:
  "recorded (Info l c e m as s) = recorded s" "recorded (Warn l c e m as s) = recorded s"
  "recorded (Error l c e m as s) = recorded s"
  "recorded (logJWKSSuccess l e j s) = recorded s" "recorded (logJWKSFailure l v e x s) = recorded s"
  by (simp_all add: recorded_def frame)

lemma recorded_record_if:
  "obs_metrics s = Some m \<Longrightarrow> recorded (record_if f s) = (case f (Some m) of None \<Rightarrow> [] | Some m' \<Rightarrow> calls m')"
  by (simp add: recorded_def record_if_def)

text \<open>What a refresh tick counts, from the outcome of its fetch alone: one success, or one
  failure under its kind and, exactly when the old keys are still fresh, one serving-stale.\<close>

lemma tick_metrics:
  assumes "obs_metrics s = Some m"
  shows "recorded (snd (on_tick json_Marshal t (c, s))) = recorded s @ tick_calls c t"
proof (cases "t_fetch t")
  case (Inr j)
  then show ?thesis using assms
    by (simp add: on_tick_def refresh_def json_Marshal_def tick_calls_def frame recorded_record_if
        record_defs) (simp add: recorded_def)
next
  case (Inl e)
  have "fst (freshnessLocked (t_fresh t) c) = Ready (t_fresh t) c" by (simp add: Ready_def)
  then show ?thesis using assms Inl
    by (cases "freshnessLocked (t_fresh t) c")
      (auto simp: on_tick_def refresh_def tick_calls_def remainingFreshness_def frame
        recorded_def record_if_def record_defs Let_def)
qed

text \<open>C23: A failed tick keeps no secret of the error: two failures with the same kind, status
  and body size leave the same log records and the same metrics, whatever the URL, the token error
  or the text inside.\<close>

theorem tick_non_interference:
  assumes "t_fetch t = Inl e" and "t_fetch t' = Inl e'" and "log_view e = log_view e'"
    and "t_fresh t = t_fresh t'"
  shows "on_tick json_Marshal t (c, s) = on_tick json_Marshal t' (c, s)"
proof -
  have k: "jwksErrorKind e = jwksErrorKind e'"
    using assms(3) by (cases "as_fetchError e"; cases "as_fetchError e'")
      (auto simp: log_view_def jwksErrorKind_def)
  have a: "jwksErrorAttrs e = jwksErrorAttrs e'" using assms(3) by (rule jwksErrorAttrs_view)
  show ?thesis using assms k a by (simp add: on_tick_def refresh_def logJWKSFailure_def)
qed

theorem tick_non_interference_witness:
  "on_tick json_Marshal
     \<lparr>t_fetch = Inl (ErrFetch fetchErrUpstream ''https://a'' 0 0 (Some ErrCanceled)), t_store = 0,
      t_metric = 0, t_fresh = 61\<rparr> (sample_cache, sample_obs) =
   on_tick json_Marshal
     \<lparr>t_fetch = Inl (ErrFetch fetchErrUpstream ''https://b'' 0 0 (Some (ErrText ''secret''))), t_store = 0,
      t_metric = 0, t_fresh = 61\<rparr> (sample_cache, sample_obs)"
  by (rule tick_non_interference [where e = "ErrFetch fetchErrUpstream ''https://a'' 0 0 (Some ErrCanceled)"
        and e' = "ErrFetch fetchErrUpstream ''https://b'' 0 0 (Some (ErrText ''secret''))"])
    (simp_all add: log_view_def)

end
