(* ===== verification/Handler.thy ===== *)
theory Handler
  imports Discovery Netx Cache_Run
begin

text \<open>
  \<open>internal/oidc/handler.go\<close>: the public routes and the health routes, on \<open>ServeMux\<close>. A request
  reads the cache twice, once for \<open>Current\<close> and once for \<open>Ready\<close>; a refresh or an expiry may fall
  between, so the two answers are separate arguments. The other readings of a request are those
  of the functions the handler was given (\<open>None\<close> for a nil one).
\<close>

section \<open>The handler\<close>

record oidc_handler =
  Discovery :: bytes
  DiscoveryMaxAge :: duration
  has_MetricsHandler :: bool

definition New_oidc_handler :: "string \<Rightarrow> duration \<Rightarrow> oidc_handler" where
  "New_oidc_handler issuer age =
     \<lparr>Discovery = Render issuer, DiscoveryMaxAge = age, has_MetricsHandler = False\<rparr>"

text \<open>\<open>NewHandler\<close>'s default readiness, kept for \<open>Ready\<close> and \<open>LeaderReady\<close>.\<close>

definition default_Ready :: "bool \<Rightarrow> bool option \<Rightarrow> bool" where
  "default_Ready jwksReady publicReady =
     (jwksReady \<and> (case publicReady of None \<Rightarrow> True | Some b \<Rightarrow> b))"

definition handleDiscovery :: "oidc_handler \<Rightarrow> exchange \<Rightarrow> exchange" where
  "handleDiscovery h x =
     rec_Write (Discovery h)
       (x_Set ''Cache-Control'' (''public, max-age='' @ Itoa (whole_seconds (DiscoveryMaxAge h)))
         (x_Set ''X-Content-Type-Options'' ''nosniff''
           (x_Set ''Content-Type'' ''application/json'' x)))"

definition handleJWKS :: "bytes \<times> string \<Rightarrow> bool \<Rightarrow> exchange \<Rightarrow> exchange" where
  "handleJWKS cur rdy x =
     (let (body, cc) = cur in
      if \<not> rdy \<or> length body = 0
      then http_Error ''jwks not ready'' 503
             (x_Set ''Cache-Control'' ''no-store'' (MarkJWKSNotReady x))
      else
        rec_Write body
          (x_Set ''Cache-Control'' cc
            (x_Set ''X-Content-Type-Options'' ''nosniff''
              (x_Set ''Content-Type'' ''application/jwk-set+json'' x))))"

text \<open>The three probe handlers have the same body.\<close>

definition handle_probe :: "bool option \<Rightarrow> exchange \<Rightarrow> exchange" where
  "handle_probe f x =
     (let y = x_Set ''Cache-Control'' ''no-store''
                (x_Set ''X-Content-Type-Options'' ''nosniff''
                  (x_Set ''Content-Type'' ''text/plain; charset=utf-8'' x))
      in if f = Some False
         then rec_Write (''not ready'' @ [CHR 0x0A]) (rec_WriteHeader 503 y)
         else rec_Write (''ok'' @ [CHR 0x0A]) y)"

section \<open>The muxes\<close>

datatype public_route = RDiscovery | RJWKS

definition ServeMux :: "public_route mux" where
  "ServeMux =
     [([''.well-known'', ''openid-configuration''], RDiscovery),
      ([''openid'', ''v1'', ''jwks''], RJWKS)]"

datatype health_route = RLive | RReady | RLeader | RHealth | RMetrics

definition HealthMux :: "bool \<Rightarrow> health_route mux" where
  "HealthMux metrics =
     [([''livez''], RLive), ([''readyz''], RReady), ([''leaderz''], RLeader),
      ([''healthz''], RHealth)] @ (if metrics then [([''metrics''], RMetrics)] else [])"

text \<open>What varies between releases of Go: the status and the URL text of a mux redirect.\<close>

record mux_env =
  redirect_code :: int
  redirect_text :: string
  redirect_url :: "string \<Rightarrow> string"

definition http_Redirect :: "mux_env \<Rightarrow> string \<Rightarrow> http_handler" where
  "http_Redirect env p r x =
     (let hadCT = (header_Get ''Content-Type'' (rw_header (x_w x)) \<noteq> None);
          y = x_Set ''Location'' (redirect_url env p) x;
          z = (if \<not> hadCT \<and> (rq_method r = ''GET'' \<or> rq_method r = ''HEAD'')
               then x_Set ''Content-Type'' ''text/html; charset=utf-8'' y else y);
          u = rec_WriteHeader (redirect_code env) z
      in if \<not> hadCT \<and> rq_method r = ''GET'' then rec_Write (redirect_text env) u else u)"

definition mux_ServeHTTP :: "'h mux \<Rightarrow> mux_env \<Rightarrow> ('h \<Rightarrow> exchange \<Rightarrow> exchange) \<Rightarrow> http_handler" where
  "mux_ServeHTTP mux env serve r x =
     (case findHandler mux r of
        BadRequest \<Rightarrow>
          rec_WriteHeader 400 (if rq_http11 r then x_Set ''Connection'' ''close'' x else x)
      | Redirect p \<Rightarrow> http_Redirect env p r x
      | MethodNotAllowed \<Rightarrow>
          http_Error ''Method Not Allowed'' 405 (x_Set ''Allow'' ''GET, HEAD'' x)
      | NotFound \<Rightarrow> http_Error ''404 page not found'' 404 x
      | Found h \<Rightarrow> serve h x)"

record public_view =
  pv_current :: "bytes \<times> string"
  pv_ready :: bool

definition serve_public :: "oidc_handler \<Rightarrow> public_view \<Rightarrow> public_route \<Rightarrow> exchange \<Rightarrow> exchange" where
  "serve_public h v route x =
     (case route of
        RDiscovery \<Rightarrow> handleDiscovery h x
      | RJWKS \<Rightarrow> handleJWKS (pv_current v) (pv_ready v) x)"

record health_view =
  hv_live :: "bool option"
  hv_ready :: "bool option"
  hv_leader :: "bool option"

text \<open>The scrape handler is the Prometheus client's, an argument.\<close>

definition serve_health :: "(exchange \<Rightarrow> exchange) \<Rightarrow> health_view \<Rightarrow> health_route \<Rightarrow> exchange \<Rightarrow> exchange" where
  "serve_health scrape v route x =
     (case route of
        RLive \<Rightarrow> handle_probe (hv_live v) x
      | RReady \<Rightarrow> handle_probe (hv_ready v) x
      | RLeader \<Rightarrow> handle_probe (hv_leader v) x
      | RHealth \<Rightarrow> handle_probe (hv_ready v) x
      | RMetrics \<Rightarrow> scrape x)"

text \<open>The handler the public listener serves, as \<open>buildRunnerConfig\<close> (main.go) composes it.\<close>

definition public_handler ::
  "logger \<Rightarrow> handler \<Rightarrow> AllowlistConfig \<Rightarrow> oidc_handler \<Rightarrow> mux_env \<Rightarrow> audit_clock \<Rightarrow> public_view \<Rightarrow>
     http_handler" where
  "public_handler logger slog_default cfg h env clock v =
     AuditMiddleware logger slog_default clock
       (Middleware cfg (mux_ServeHTTP ServeMux env (serve_public h v)))"

section \<open>Handlers below the audit\<close>

text \<open>
  The contract between the audit and what it wraps: the recorded status stays the sent one, and
  only the audit writes logs and metrics.
\<close>

definition audited :: "http_handler \<Rightarrow> exchange \<Rightarrow> request \<Rightarrow> exchange" where
  "audited inner x r = inner r (x\<lparr>x_rec := Some (0, False), x_decision := Some []\<rparr>)"

locale inner_handler =
  fixes inner :: http_handler
  assumes inner_audit: "audit_inv x \<Longrightarrow> audit_inv (inner r x)"
    and inner_obs: "x_obs (inner r x) = x_obs x"
    and inner_rec: "(x_rec (inner r x) = None) = (x_rec x = None)"
begin

lemma allowlisted: "inner_handler (Middleware cfg inner)"
proof (unfold_locales, goal_cases)
  case (1 x r)
  then show ?case
    by (auto simp: Middleware_def inner_audit split: option.splits intro!: audit_inv_Error audit_inv_ops(3))
qed (auto simp: Middleware_def inner_obs inner_rec frame split: option.splits)

lemma audited_status:
  assumes "rw_status (x_w x) = None"
  shows "rec_status (audited inner x r) = final_status (x_w (audited inner x r))"
proof -
  let ?y = "x\<lparr>x_rec := Some (0, False), x_decision := Some []\<rparr>"
  have "audit_inv ?y" using assms by (simp add: audit_inv_def)
  then have "audit_inv (inner r ?y)" by (rule inner_audit)
  moreover have "x_rec (inner r ?y) \<noteq> None" using inner_rec [of r ?y] by simp
  ultimately show ?thesis unfolding audited_def by (rule audit_inv_status)
qed

lemma audited_obs: "x_obs (audited inner x r) = x_obs x"
  by (simp add: audited_def inner_obs)

text \<open>One record and one observation per request, both of the status sent.\<close>

lemma audit_once:
  assumes "rw_status (x_w x) = None" and "x' = AuditMiddleware (Some lg) df clock inner r x"
    and "code = final_status (x_w x')" and "decision = audit_decision (audited inner x r)"
  shows "recorded (x_obs x') = recorded (x_obs x) @
      (if obs_metrics (x_obs x) = None then [] else
        [Inc ''http_requests_total'' [routeForPath (rq_path r), rq_method r, decision, Itoa code],
         Observe ''http_request_duration_seconds'' [routeForPath (rq_path r), rq_method r, decision]
           (Seconds (Sub (ac_metric clock) (ac_start clock)))])"
    and "emitted (x_obs x') = emitted (x_obs x) @
      (if handler_level lg \<le> LevelInfo then
        [\<lparr>lr_handler = lg, lr_level = LevelInfo, lr_msg = ''public request handled'',
          lr_attrs = (''component'', AString ''public_http'') # (''event'', AString ''http_request'') #
            audit_attrs clock r code decision\<rparr>]
       else [])"
proof -
  have st: "rec_status (audited inner x r) = code"
    using audited_status [OF assms(1), of r] assms(2,3)
    by (simp add: AuditMiddleware_def audited_def Let_def)
  have o: "x_obs x' = Info (Some lg) ''public_http'' ''http_request'' ''public request handled''
      (audit_attrs clock r code decision)
      (record_if (ObserveHTTPRequest (routeForPath (rq_path r)) (rq_method r) decision code
        (Sub (ac_metric clock) (ac_start clock))) (x_obs x))"
    using assms(2,4) audited_obs [of x r] st
    by (simp add: AuditMiddleware_def audited_def Let_def)
  show "recorded (x_obs x') = recorded (x_obs x) @
      (if obs_metrics (x_obs x) = None then [] else
        [Inc ''http_requests_total'' [routeForPath (rq_path r), rq_method r, decision, Itoa code],
         Observe ''http_request_duration_seconds'' [routeForPath (rq_path r), rq_method r, decision]
           (Seconds (Sub (ac_metric clock) (ac_start clock)))])"
    unfolding o by (cases "obs_metrics (x_obs x)") (simp_all add: frame recorded_def record_if_def record_defs)
  show "emitted (x_obs x') = emitted (x_obs x) @
      (if handler_level lg \<le> LevelInfo then
        [\<lparr>lr_handler = lg, lr_level = LevelInfo, lr_msg = ''public request handled'',
          lr_attrs = (''component'', AString ''public_http'') # (''event'', AString ''http_request'') #
            audit_attrs clock r code decision\<rparr>]
       else [])"
    unfolding o by (simp add: Info_def Log_def LogAttrs_def Let_def frame)
qed

end

section \<open>The muxes meet the contract\<close>

lemma audit_inv_Redirect: "audit_inv x \<Longrightarrow> audit_inv (http_Redirect env p r x)"
  unfolding http_Redirect_def Let_def
  by (auto intro!: audit_inv_ops audit_inv_Write)

lemma redirect_frame [frame]:
  "x_obs (http_Redirect env p r x) = x_obs x"
  "(x_rec (http_Redirect env p r x) = None) = (x_rec x = None)"
  "x_decision (http_Redirect env p r x) = x_decision x"
  by (simp_all add: http_Redirect_def Let_def frame)

lemma serve_public_audit: "audit_inv x \<Longrightarrow> audit_inv (serve_public h v route x)"
  by (cases route)
    (auto simp: serve_public_def handleDiscovery_def handleJWKS_def MarkJWKSNotReady_def
      split: prod.splits intro!: audit_inv_ops audit_inv_Write audit_inv_Error)

lemma serve_public_frame [frame]:
  "x_obs (serve_public h v route x) = x_obs x"
  "(x_rec (serve_public h v route x) = None) = (x_rec x = None)"
  by (cases route; simp add: serve_public_def handleDiscovery_def handleJWKS_def MarkJWKSNotReady_def
      frame split: prod.splits)+

lemma mux_inner: "inner_handler (mux_ServeHTTP ServeMux env (serve_public h v))"
proof (unfold_locales, goal_cases)
  case (1 x r)
  then show ?case
    by (auto simp: mux_ServeHTTP_def split: route.splits
        intro!: audit_inv_ops audit_inv_Error audit_inv_Redirect serve_public_audit)
qed (auto simp: mux_ServeHTTP_def frame split: route.splits)

interpretation public_mux: inner_handler "mux_ServeHTTP ServeMux env (serve_public h v)" for env h v
  by (rule mux_inner)

interpretation public_inner:
  inner_handler "Middleware cfg (mux_ServeHTTP ServeMux env (serve_public h v))" for cfg env h v
  by (rule public_mux.allowlisted)

section \<open>The key endpoint over a provider\<close>

text \<open>The interface \<open>JWKSProvider\<close> and what the handler relies on.\<close>

locale jwks_provider =
  fixes cur :: "time \<Rightarrow> 's \<Rightarrow> bytes \<times> string" and rdy :: "time \<Rightarrow> 's \<Rightarrow> bool"
  assumes rdy_iff: "rdy now s \<longleftrightarrow> fst (cur now s) \<noteq> []"
begin

lemma handleJWKS_cases:
  "handleJWKS (cur t1 s1) (rdy t2 s2) x =
     (if rdy t1 s1 \<and> rdy t2 s2
      then rec_Write (fst (cur t1 s1))
             (x_Set ''Cache-Control'' (snd (cur t1 s1))
               (x_Set ''X-Content-Type-Options'' ''nosniff''
                 (x_Set ''Content-Type'' ''application/jwk-set+json'' x)))
      else http_Error ''jwks not ready'' 503
             (x_Set ''Cache-Control'' ''no-store'' (MarkJWKSNotReady x)))"
  by (auto simp: handleJWKS_def rdy_iff split: prod.splits)

end

interpretation cache_provider: jwks_provider Current Ready
  by unfold_locales (rule Ready_Current)

section \<open>Properties\<close>

definition sample_target :: "string \<Rightarrow> string \<Rightarrow> request" where
  "sample_target meth p =
     \<lparr>rq_method = meth, rq_RequestURI = p, rq_path = p, rq_escaped = p, rq_http11 = True,
      rq_src = None\<rparr>"

definition sample_exchange :: exchange where
  "sample_exchange =
     \<lparr>x_w = new_response, x_rec = None, x_decision = None, x_obs = sample_obs\<rparr>"

lemma sample_exchange_new: "x_w sample_exchange = new_response"
  by (simp add: sample_exchange_def)

definition sample_mux_env :: mux_env where
  "sample_mux_env = \<lparr>redirect_code = 301, redirect_text = [], redirect_url = id\<rparr>"

definition sample_clock :: audit_clock where
  "sample_clock = \<lparr>ac_start = 0, ac_log = 0, ac_metric = 0\<rparr>"

definition sample_view :: public_view where
  "sample_view = \<lparr>pv_current = ([], ''no-store''), pv_ready = False\<rparr>"

text \<open>C5: The allowlist is fail-closed. With valid prefixes it admits a request exactly when its
  connection carried a source address without a zone that agrees with some configured network on
  every network bit; any other request is answered 403 and never reaches the inner handler.\<close>

theorem allowlist_admits_iff:
  assumes "al_Enabled cfg" and "list_all prefix_IsValid (al_CIDRs cfg)"
  shows "Middleware cfg inner r x =
    (if \<exists>a port. rq_src r = Some (a, port) \<and> \<not> hasZone a \<and>
          (\<exists>p \<in> set (al_CIDRs cfg). same_network (nat (p_bits p)) (p_ip p) a)
     then inner r x
     else http_Error ''forbidden'' 403
       (setDecision (if rq_src r = None then ''denied_missing_source'' else ''denied_cidr'') x))"
  using assms
  by (auto simp: Middleware_def SrcFromContext_def Contains_iff list_ex_iff list_all_iff decision_defs
      split: option.splits)

definition sample_cfg :: AllowlistConfig where
  "sample_cfg = \<lparr>al_Enabled = True, al_CIDRs = [\<lparr>p_ip = Addr4 0x0A000000, p_bits = 8\<rparr>]\<rparr>"

theorem allowlist_admits_iff_witness:
  "Middleware sample_cfg (\<lambda>r x. x) (sample_target ''GET'' ''/'') sample_exchange =
     http_Error ''forbidden'' 403 (setDecision ''denied_missing_source'' sample_exchange)"
proof -
  have "al_Enabled sample_cfg" "list_all prefix_IsValid (al_CIDRs sample_cfg)"
    by (simp_all add: sample_cfg_def prefix_IsValid_def)
  from allowlist_admits_iff [OF this, of "\<lambda>r x. x" "sample_target ''GET'' ''/''" sample_exchange]
  show ?thesis by (simp add: sample_target_def)
qed

text \<open>C21: A denied request gets 403 whatever it asked for, and the audit counts it under the
  denial's decision with that status.\<close>

theorem denied_is_audited:
  assumes "al_Enabled cfg" and "x_w x = new_response" and "obs_metrics (x_obs x) = Some m"
    and "\<forall>a port. rq_src r = Some (a, port) \<longrightarrow> (\<forall>p \<in> set (al_CIDRs cfg). \<not> Contains p a)"
    and "x' = public_handler (Some lg) df cfg h env clock v r x"
  shows "final_status (x_w x') = 403 \<and> rw_body (x_w x') = ''forbidden'' @ [CHR 0x0A] \<and>
    Inc ''http_requests_total'' [routeForPath (rq_path r), rq_method r,
      if rq_src r = None then ''denied_missing_source'' else ''denied_cidr'', ''403'']
      \<in> set (recorded (x_obs x'))"
proof -
  let ?mux = "mux_ServeHTTP ServeMux env (serve_public h v)"
  let ?d = "if rq_src r = None then decisionDeniedMissingSrc else decisionDeniedCIDR"
  let ?y = "x\<lparr>x_rec := Some (0, False), x_decision := Some []\<rparr>"
  have deny: "Middleware cfg ?mux r ?y = http_Error ''forbidden'' 403 (setDecision ?d ?y)"
    using assms(1,4) by (auto simp: Middleware_def SrcFromContext_def list_ex_iff split: option.splits)
  have w: "x_w x' = x_w (http_Error ''forbidden'' 403 (setDecision ?d ?y))"
    unfolding assms(5) public_handler_def AuditMiddleware_def Let_def withAuditState_def using deny by simp
  have st: "rw_status (x_w (setDecision ?d ?y)) = None" "rw_body (x_w (setDecision ?d ?y)) = []"
    using assms(2) by (simp_all add: new_response_def)
  have code: "final_status (x_w x') = 403"
    unfolding w final_status_def by (simp only: http_Error_response(1) [OF st(1)] option.case)
  have body: "rw_body (x_w x') = ''forbidden'' @ [CHR 0x0A]"
    unfolding w by (simp only: http_Error_response(2) [OF st(1)] st(2) append_Nil)
  have dec: "audit_decision (audited (Middleware cfg ?mux) x r) = ?d"
    unfolding audited_def deny audit_decision_def by (simp add: frame decision_defs)
  have x': "x' = AuditMiddleware (Some lg) df clock (Middleware cfg ?mux) r x"
    by (simp add: assms(5) public_handler_def)
  have "rw_status (x_w x) = None" using assms(2) by (simp add: new_response_def)
  from public_inner.audit_once(1) [OF this x' refl refl] assms(3)
  have "Inc ''http_requests_total'' [routeForPath (rq_path r), rq_method r, ?d, Itoa 403]
      \<in> set (recorded (x_obs x'))"
    unfolding dec code by simp
  moreover have "Itoa 403 = ''403''" by code_simp
  ultimately show ?thesis using code body by (auto simp: decision_defs)
qed

theorem denied_is_audited_witness:
  "final_status (x_w (public_handler (Some (JSONHandler 0)) (JSONHandler 0) sample_cfg
     (New_oidc_handler ''https://a'' Second) sample_mux_env sample_clock sample_view
     (sample_target ''GET'' ''/openid/v1/jwks'') sample_exchange)) = 403"
  using denied_is_audited [of sample_cfg sample_exchange "New_metrics 0"
      "sample_target ''GET'' ''/openid/v1/jwks''" _ "JSONHandler 0" "JSONHandler 0"
      "New_oidc_handler ''https://a'' Second" sample_mux_env sample_clock sample_view, OF _ _ _ _ refl]
  by (simp add: sample_cfg_def sample_exchange_def sample_obs_def sample_target_def)

lemma AuditMiddleware_logger:
  "AuditMiddleware logger df = AuditMiddleware (Some (case logger of None \<Rightarrow> df | Some h \<Rightarrow> h)) df"
  by (simp add: AuditMiddleware_def fun_eq_iff split: option.splits)

text \<open>C22: Every public request is audited once, with the status the client was sent. If there is a
  recorder it counts the request once and observes its latency once, else nothing is counted; and
  the logger, or the default one, writes one record exactly when its level lets information through,
  so with the levels warn and error a request leaves no record.\<close>

theorem every_request_audited_once:
  assumes "x_w x = new_response" and "x' = public_handler logger df cfg h env clock v r x"
    and "lg = (case logger of None \<Rightarrow> df | Some l \<Rightarrow> l)"
  shows "\<exists>decision.
    recorded (x_obs x') = recorded (x_obs x) @
      (if obs_metrics (x_obs x) = None then [] else
        [Inc ''http_requests_total''
           [routeForPath (rq_path r), rq_method r, decision, Itoa (final_status (x_w x'))],
         Observe ''http_request_duration_seconds'' [routeForPath (rq_path r), rq_method r, decision]
           (Seconds (Sub (ac_metric clock) (ac_start clock)))]) \<and>
    emitted (x_obs x') = emitted (x_obs x) @
      (if handler_level lg \<le> LevelInfo then
        [\<lparr>lr_handler = lg, lr_level = LevelInfo, lr_msg = ''public request handled'',
          lr_attrs = (''component'', AString ''public_http'') # (''event'', AString ''http_request'') #
            audit_attrs clock r (final_status (x_w x')) decision\<rparr>]
       else [])"
proof -
  have s: "rw_status (x_w x) = None" using assms(1) by (simp add: new_response_def)
  have x': "x' = AuditMiddleware (Some lg) df clock (Middleware cfg (mux_ServeHTTP ServeMux env (serve_public h v))) r x"
    unfolding assms(2,3) public_handler_def by (subst AuditMiddleware_logger) (rule refl)
  show ?thesis using public_inner.audit_once [OF s x' refl refl] by (intro exI conjI)
qed

theorem every_request_audited_once_witness:
  "length (emitted (x_obs (public_handler (Some (JSONHandler 0)) (JSONHandler 0) sample_cfg
     (New_oidc_handler ''https://a'' Second) sample_mux_env sample_clock sample_view
     (sample_target ''GET'' ''/'') sample_exchange))) = 1 \<and>
   emitted (x_obs (public_handler None (TextHandler 4) sample_cfg
     (New_oidc_handler ''https://a'' Second) sample_mux_env sample_clock sample_view
     (sample_target ''GET'' ''/'') sample_exchange)) = []"
proof -
  note at = every_request_audited_once [OF sample_exchange_new refl refl, where cfg = sample_cfg and env = sample_mux_env
      and h = "New_oidc_handler ''https://a'' Second" and clock = sample_clock and v = sample_view
      and r = "sample_target ''GET'' ''/''"]
  show ?thesis using at [of "Some (JSONHandler 0)" "JSONHandler 0"] at [of None "TextHandler 4"]
    by (auto simp: sample_exchange_def sample_obs_def LevelInfo_def)
qed

text \<open>The key endpoint over the cache, which may expire or be refreshed between its two
  readings. The answer is 200 with the cached bytes and their lifetime exactly when the cache was
  ready at both; otherwise it is 503 and must not be stored.\<close>

lemma jwks_endpoint:
  assumes "x_w x = new_response"
    and "w = x_w (handleJWKS (Current t1 c1) (Ready t2 c2) x)"
  shows "if Ready t1 c1 \<and> Ready t2 c2
    then final_status w = 200 \<and> rw_body w = fst (Current t1 c1) \<and> rw_body w \<noteq> [] \<and>
      header_Get ''Cache-Control'' (final_header w) = Some (snd (Current t1 c1)) \<and>
      header_Get ''Content-Type'' (final_header w) = Some ''application/jwk-set+json''
    else final_status w = 503 \<and> rw_body w = ''jwks not ready'' @ [CHR 0x0A] \<and>
      header_Get ''Cache-Control'' (final_header w) = Some ''no-store''"
proof (cases "Ready t1 c1 \<and> Ready t2 c2")
  case True
  then have "fst (Current t1 c1) \<noteq> []" by (simp add: Ready_Current)
  moreover have "w = x_w (rec_Write (fst (Current t1 c1))
      (x_Set ''Cache-Control'' (snd (Current t1 c1))
        (x_Set ''X-Content-Type-Options'' ''nosniff''
          (x_Set ''Content-Type'' ''application/jwk-set+json'' x))))"
    unfolding assms(2) cache_provider.handleJWKS_cases using True by (simp only: if_True simp_thms)
  ultimately show ?thesis using True assms(1)
    by (simp add: final_status_def final_header_def new_response_def)
next
  case False
  let ?y = "x_Set ''Cache-Control'' ''no-store'' (MarkJWKSNotReady x)"
  have s: "rw_status (x_w ?y) = None" and b: "rw_body (x_w ?y) = []"
    and h: "header_Get ''Cache-Control'' (rw_header (x_w ?y)) = Some ''no-store''"
    using assms(1) by (simp_all add: MarkJWKSNotReady_def new_response_def)
  have w: "w = x_w (http_Error ''jwks not ready'' 503 ?y)"
    unfolding assms(2) cache_provider.handleJWKS_cases using False by (simp only: if_False simp_thms)
  have "header_Get ''Cache-Control'' (final_header w) = Some ''no-store''"
    unfolding w by (subst http_Error_response(5) [OF s]) (simp_all only: h, simp)
  then show ?thesis using False http_Error_response(1,2) [OF s] b
    by (simp add: w final_status_def)
qed

lemma redirect_status:
  "x_w x = new_response \<Longrightarrow> final_status (x_w (http_Redirect env p r x)) = redirect_code env"
  by (auto simp: http_Redirect_def Let_def final_status_def new_response_def)

lemma error_status:
  "rw_status (x_w x) = None \<Longrightarrow> final_status (x_w (http_Error m c x)) = c"
  by (simp only: final_status_def http_Error_response(1) option.case)

lemma public_segments:
  "mux_match ServeMux p = Some RDiscovery \<longleftrightarrow> path_segments p = [''.well-known'', ''openid-configuration'']"
  "mux_match ServeMux p = Some RJWKS \<longleftrightarrow> path_segments p = [''openid'', ''v1'', ''jwks'']"
  by (auto simp: mux_match_def ServeMux_def split: if_splits)

lemma public_200_response:
  assumes "x_w x = new_response" and "redirect_code env \<noteq> 200"
    and "w = x_w (public_handler lg df cfg h env clock v r x)" and "final_status w = 200"
  shows "(rq_method r = ''GET'' \<or> rq_method r = ''HEAD'') \<and>
    header_Get ''X-Content-Type-Options'' (final_header w) = Some ''nosniff'' \<and>
    (path_segments (rq_escaped r) = [''.well-known'', ''openid-configuration''] \<and> rw_body w = Discovery h \<or>
     path_segments (rq_escaped r) = [''openid'', ''v1'', ''jwks''] \<and> pv_ready v \<and>
       rw_body w = fst (pv_current v) \<and> rw_body w \<noteq> [] \<and>
       header_Get ''Cache-Control'' (final_header w) = Some (snd (pv_current v)))"
proof -
  let ?y = "x\<lparr>x_rec := Some (0, False), x_decision := Some []\<rparr>"
  let ?mux = "mux_ServeHTTP ServeMux env (serve_public h v)"
  have new: "x_w ?y = new_response" using assms(1) by simp
  then have s: "rw_status (x_w ?y) = None" "\<And>d. rw_status (x_w (setDecision d ?y)) = None"
      "\<And>k u. rw_status (x_w (x_Set k u ?y)) = None"
    by (simp_all add: new_response_def)
  have "w = x_w (Middleware cfg ?mux r ?y)"
    using assms(3) by (simp add: public_handler_def AuditMiddleware_def Let_def)
  then have w: "w = x_w (?mux r ?y)"
    using assms(4) error_status [OF s(2)] by (auto simp: Middleware_def split: option.splits if_splits)
  obtain route where f: "findHandler ServeMux r = Found route"
    using assms(2,4) w error_status [OF s(3)] error_status [OF s(1)] redirect_status [OF new]
    by (cases "findHandler ServeMux r")
      (auto simp: mux_ServeHTTP_def final_status_def new_response_def new split: if_splits)
  then have w: "w = x_w (serve_public h v route ?y)" using w by (simp add: mux_ServeHTTP_def)
  have m: "mux_match ServeMux (rq_escaped r) = Some route" "rq_method r = ''GET'' \<or> rq_method r = ''HEAD''"
    using findHandler_Found [OF f] by auto
  show ?thesis
  proof (cases route)
    case RDiscovery
    then show ?thesis using m w new
      by (simp add: public_segments serve_public_def handleDiscovery_def final_header_def new_response_def)
  next
    case RJWKS
    let ?z = "x_Set ''Cache-Control'' ''no-store'' (MarkJWKSNotReady ?y)"
    have "rw_status (x_w ?z) = None" using s by (simp add: MarkJWKSNotReady_def)
    then have "final_status (x_w (http_Error ''jwks not ready'' 503 ?z)) \<noteq> 200"
      by (simp add: error_status)
    then have "pv_ready v \<and> fst (pv_current v) \<noteq> []"
      using assms(4) RJWKS w by (auto simp: serve_public_def handleJWKS_def split: prod.splits if_splits)
    then show ?thesis using m w new RJWKS
      by (auto simp: public_segments serve_public_def handleJWKS_def final_header_def new_response_def
          split: prod.splits)
  qed
qed

text \<open>The probes. A GET of a probe path is 200 unless the function behind it is there and
  says false, then 503; probe answers are never stored. \<open>/healthz\<close> is \<open>/readyz\<close>.\<close>

lemma probes:
  assumes "x_w x = new_response" and "rq_method r = ''GET''" and "rq_RequestURI r = rq_escaped r"
    and "(rq_escaped r, f) \<in> {(''/livez'', hv_live v), (''/readyz'', hv_ready v),
          (''/leaderz'', hv_leader v), (''/healthz'', hv_ready v)}"
    and "w = x_w (mux_ServeHTTP (HealthMux b) env (serve_health scrape v) r x)"
  shows "final_status w = (if f = Some False then 503 else 200) \<and>
    rw_body w = (if f = Some False then ''not ready'' else ''ok'') @ [CHR 0x0A] \<and>
    header_Get ''Cache-Control'' (final_header w) = Some ''no-store''"
proof -
  have c: "cleanPath ''/livez'' = ''/livez''" "cleanPath ''/readyz'' = ''/readyz''"
    "cleanPath ''/leaderz'' = ''/leaderz''" "cleanPath ''/healthz'' = ''/healthz''"
    and p: "path_segments ''/livez'' = [''livez'']" "path_segments ''/readyz'' = [''readyz'']"
    "path_segments ''/leaderz'' = [''leaderz'']" "path_segments ''/healthz'' = [''healthz'']"
    by code_simp+
  have "mux_ServeHTTP (HealthMux b) env (serve_health scrape v) r x = handle_probe f x"
    using assms(2-4)
    by (auto simp: mux_ServeHTTP_def findHandler_def mux_match_def HealthMux_def serve_health_def c p)
  then show ?thesis using assms(1,5)
    by (simp add: handle_probe_def final_status_def final_header_def new_response_def)
qed

text \<open>\<open>auditResponseWriter.Flush\<close> does not record the 200 it makes the writer below send:
  a handler that flushes before it sets a status is audited with a status the client never saw.\<close>

lemma flush_hides_status:
  assumes "x_w x = new_response" and "x_rec x = Some (0, False)"
  shows "rec_status (rec_WriteHeader c (rec_Flush True x)) = c \<and>
    final_status (x_w (rec_WriteHeader c (rec_Flush True x))) = 200"
  using assms
  by (simp add: rec_WriteHeader_def rec_Flush_def rec_status_def rw_Flush_def final_status_def
      new_response_def)

lemma flush_hides_status_witness:
  "rec_status (rec_WriteHeader 500 (rec_Flush True (sample_exchange\<lparr>x_rec := Some (0, False)\<rparr>))) = 500"
  using flush_hides_status [of "sample_exchange\<lparr>x_rec := Some (0, False)\<rparr>" 500]
  by (simp add: sample_exchange_def)

end
