(* ===== verification/Runtime_State.thy ===== *)
theory Runtime_State
  imports Main
begin

text \<open>
  \<open>cmd/oidc-proxy/state.go\<close>: the flags behind the readiness probes. Each is an atomic, so a run
  is a sequence of stores and loads.
\<close>

record runtimeState =
  leaderElectionEnabled :: bool
  leader :: bool
  publicReady :: bool
  shuttingDown :: bool

definition new_runtimeState :: runtimeState where
  "new_runtimeState =
     \<lparr>leaderElectionEnabled = False, leader = False, publicReady = False, shuttingDown = False\<rparr>"

definition SetLeaderElectionEnabled :: "bool \<Rightarrow> runtimeState \<Rightarrow> runtimeState" where
  "SetLeaderElectionEnabled v s = s\<lparr>leaderElectionEnabled := v\<rparr>"

definition LeaderElectionEnabled :: "runtimeState \<Rightarrow> bool" where
  "LeaderElectionEnabled s = leaderElectionEnabled s"

definition SetLeader :: "bool \<Rightarrow> runtimeState \<Rightarrow> runtimeState" where
  "SetLeader v s = s\<lparr>leader := v\<rparr>"

definition Leader :: "runtimeState \<Rightarrow> bool" where
  "Leader s = leader s"

definition SetPublicReady :: "bool \<Rightarrow> runtimeState \<Rightarrow> runtimeState" where
  "SetPublicReady v s = s\<lparr>publicReady := v\<rparr>"

definition PublicReady :: "runtimeState \<Rightarrow> bool" where
  "PublicReady s = publicReady s"

definition SetShuttingDown :: "bool \<Rightarrow> runtimeState \<Rightarrow> runtimeState" where
  "SetShuttingDown v s = s\<lparr>shuttingDown := v\<rparr>"

definition ShuttingDown :: "runtimeState \<Rightarrow> bool" where
  "ShuttingDown s = shuttingDown s"

definition state_Live :: "runtimeState \<Rightarrow> bool" where
  "state_Live s = True"

definition state_Ready :: "bool \<Rightarrow> runtimeState \<Rightarrow> bool" where
  "state_Ready jwksReady s =
     (if \<not> jwksReady then False
      else if \<not> LeaderElectionEnabled s then PublicReady s
      else \<not> Leader s \<or> PublicReady s)"

definition state_LeaderReady :: "bool \<Rightarrow> runtimeState \<Rightarrow> bool" where
  "state_LeaderReady jwksReady s =
     (if \<not> jwksReady \<or> \<not> PublicReady s then False
      else if \<not> LeaderElectionEnabled s then True
      else Leader s)"

lemmas runtime_defs =
  SetLeaderElectionEnabled_def LeaderElectionEnabled_def SetLeader_def Leader_def
  SetPublicReady_def PublicReady_def SetShuttingDown_def ShuttingDown_def

section \<open>Properties\<close>

text \<open>The three probes are ordered. A pod that is leader-ready is ready, and a ready pod has
  fresh keys. Without leader election the two coincide; with it, a ready pod that is not
  leader-ready is a follower.\<close>

lemma readiness_order:
  "(state_LeaderReady j s \<longrightarrow> state_Ready j s) \<and> (state_Ready j s \<longrightarrow> j) \<and>
   (\<not> LeaderElectionEnabled s \<longrightarrow> state_LeaderReady j s = state_Ready j s) \<and>
   (state_Ready j s \<and> \<not> state_LeaderReady j s \<longrightarrow> LeaderElectionEnabled s \<and> \<not> Leader s)"
  by (auto simp: state_Ready_def state_LeaderReady_def)

end
