(* ===== verification/Elector.thy ===== *)
theory Elector
  imports Errors Logx
begin

text \<open>
  \<open>internal/leader/elector.go\<close>: defaults and validation of the election's settings, and the
  construction of the elector. client-go is not part of the repository: each of its constructors
  is an outcome, and the elector's own run is what the callbacks (theory HA) are fed from.
\<close>

record leader_config =
  LeaseName :: string
  Namespace :: string
  Identity :: string
  LeaseDuration :: duration
  RenewDeadline :: duration
  RetryPeriod :: duration
  lc_Logger :: logger

definition defaultLeaseDuration :: duration where
  [simp]: "defaultLeaseDuration = 15 * Second"

definition defaultRenewDeadline :: duration where
  [simp]: "defaultRenewDeadline = 10 * Second"

definition defaultRetryPeriod :: duration where
  [simp]: "defaultRetryPeriod = 2 * Second"

definition leader_defaults :: "handler \<Rightarrow> leader_config \<Rightarrow> leader_config" where
  "leader_defaults slog_default c =
     (let c1 = (if LeaseDuration c = 0 then c\<lparr>LeaseDuration := defaultLeaseDuration\<rparr> else c);
          c2 = (if RenewDeadline c1 = 0 then c1\<lparr>RenewDeadline := defaultRenewDeadline\<rparr> else c1);
          c3 = (if RetryPeriod c2 = 0 then c2\<lparr>RetryPeriod := defaultRetryPeriod\<rparr> else c2)
      in if lc_Logger c3 = None then c3\<lparr>lc_Logger := Some slog_default\<rparr> else c3)"

datatype leader_error =
    LeaseNameRequired | NamespaceRequired | IdentityRequired
  | LeaseDurationNotPositive duration | RenewDeadlineNotPositive duration
  | RetryPeriodNotPositive duration
  | LeaseNotGreater duration duration | RenewNotGreater duration duration

definition leader_validate :: "leader_config \<Rightarrow> (leader_error, unit) result" where
  "leader_validate c =
     (if LeaseName c = [] then Inl LeaseNameRequired
      else if Namespace c = [] then Inl NamespaceRequired
      else if Identity c = [] then Inl IdentityRequired
      else if LeaseDuration c \<le> 0 then Inl (LeaseDurationNotPositive (LeaseDuration c))
      else if RenewDeadline c \<le> 0 then Inl (RenewDeadlineNotPositive (RenewDeadline c))
      else if RetryPeriod c \<le> 0 then Inl (RetryPeriodNotPositive (RetryPeriod c))
      else if LeaseDuration c \<le> RenewDeadline c
        then Inl (LeaseNotGreater (LeaseDuration c) (RenewDeadline c))
      else if RenewDeadline c \<le> RetryPeriod c
        then Inl (RenewNotGreater (RenewDeadline c) (RetryPeriod c))
      else Inr ())"

text \<open>What is handed to \<open>leaderelection.NewLeaderElector\<close>.\<close>

record elector_config =
  ec_namespace :: string
  ec_name :: string
  ec_identity :: string
  ec_lease :: duration
  ec_renew :: duration
  ec_retry :: duration
  ec_ReleaseOnCancel :: bool

definition elector_config_of :: "leader_config \<Rightarrow> elector_config" where
  "elector_config_of c =
     \<lparr>ec_namespace = Namespace c, ec_name = LeaseName c, ec_identity = Identity c,
      ec_lease = LeaseDuration c, ec_renew = RenewDeadline c, ec_retry = RetryPeriod c,
      ec_ReleaseOnCancel = True\<rparr>"

text \<open>The outcomes of the client's constructors, None for success.\<close>

record elector_env =
  ee_config :: "go_error option"
  ee_clientset :: "go_error option"
  ee_lock :: "go_error option"
  ee_elector :: "go_error option"

datatype leader_run_error = InvalidLeaderConfig leader_error | ElectorFailed go_error

text \<open>\<open>Run\<close> up to the elector: an error, or the settings the elector runs with.\<close>

definition leader_Run ::
  "handler \<Rightarrow> elector_env \<Rightarrow> leader_config \<Rightarrow> (leader_run_error, elector_config) result" where
  "leader_Run slog_default env cfg =
     (let c = leader_defaults slog_default cfg in
      case leader_validate c of
        Inl e \<Rightarrow> Inl (InvalidLeaderConfig e)
      | Inr _ \<Rightarrow>
          (case ee_config env of
             Some e \<Rightarrow> Inl (ElectorFailed (ErrWrap ''leader election in-cluster config'' e))
           | None \<Rightarrow>
          (case ee_clientset env of
             Some e \<Rightarrow> Inl (ElectorFailed (ErrWrap ''leader election clientset'' e))
           | None \<Rightarrow>
          (case ee_lock env of
             Some e \<Rightarrow> Inl (ElectorFailed (ErrWrap ''leader election lock'' e))
           | None \<Rightarrow>
          (case ee_elector env of
             Some e \<Rightarrow> Inl (ElectorFailed (ErrWrap ''leader election elector'' e))
           | None \<Rightarrow> Inr (elector_config_of c))))))"

section \<open>Properties\<close>

lemma leader_validate_iff:
  "leader_validate c = Inr u \<longleftrightarrow>
     LeaseName c \<noteq> [] \<and> Namespace c \<noteq> [] \<and> Identity c \<noteq> [] \<and>
     0 < RetryPeriod c \<and> RetryPeriod c < RenewDeadline c \<and> RenewDeadline c < LeaseDuration c"
  by (auto simp: leader_validate_def)

lemma leader_defaults_fields:
  "LeaseName (leader_defaults d c) = LeaseName c" "Namespace (leader_defaults d c) = Namespace c"
  "Identity (leader_defaults d c) = Identity c"
  "LeaseDuration (leader_defaults d c) = (if LeaseDuration c = 0 then 15 * Second else LeaseDuration c)"
  "RenewDeadline (leader_defaults d c) = (if RenewDeadline c = 0 then 10 * Second else RenewDeadline c)"
  "RetryPeriod (leader_defaults d c) = (if RetryPeriod c = 0 then 2 * Second else RetryPeriod c)"
  by (simp_all add: leader_defaults_def Let_def)

text \<open>An elector is only ever started with a named lease and timings that satisfy
  client-go's ordering, retry period below renew deadline below lease duration, all positive; it
  releases the lease on cancellation and runs with the configured or default values.\<close>

lemma elector_settings:
  assumes "leader_Run d env cfg = Inr ec"
  shows "ec_name ec = LeaseName cfg \<and> ec_namespace ec = Namespace cfg \<and> ec_identity ec = Identity cfg \<and>
    ec_name ec \<noteq> [] \<and> ec_namespace ec \<noteq> [] \<and> ec_identity ec \<noteq> [] \<and>
    0 < ec_retry ec \<and> ec_retry ec < ec_renew ec \<and> ec_renew ec < ec_lease ec \<and>
    ec_lease ec = (if LeaseDuration cfg = 0 then 15 * Second else LeaseDuration cfg) \<and>
    ec_ReleaseOnCancel ec"
proof -
  have "leader_validate (leader_defaults d cfg) = Inr ()" "ec = elector_config_of (leader_defaults d cfg)"
    using assms by (auto simp: leader_Run_def Let_def split: sum.splits option.splits)
  then show ?thesis
    by (simp add: leader_validate_iff leader_defaults_fields elector_config_of_def)
qed

end
