(* ===== verification/Transition.thy ===== *)
theory Transition
  imports Prelude
begin

text \<open>
  Concurrent parts of the program as transition systems: a guard \<open>en\<close> and an effect \<open>ap\<close> for every
  event. Reachability keeps the events of the run; an invariant is proved once per event.
\<close>

inductive lts_step :: "('e \<Rightarrow> 's \<Rightarrow> bool) \<Rightarrow> ('e \<Rightarrow> 's \<Rightarrow> 's) \<Rightarrow> 'e \<Rightarrow> 's \<Rightarrow> 's \<Rightarrow> bool" for en ap where
  lts_event: "en ev s \<Longrightarrow> lts_step en ap ev s (ap ev s)"

inductive_simps lts_step_iff: "lts_step en ap ev s t"
inductive_cases lts_stepE: "lts_step en ap ev s t"

inductive lts_reach ::
  "('e \<Rightarrow> 's \<Rightarrow> bool) \<Rightarrow> ('e \<Rightarrow> 's \<Rightarrow> 's) \<Rightarrow> 's \<Rightarrow> 'e list \<Rightarrow> 's \<Rightarrow> bool" for en ap s where
  lts_start: "lts_reach en ap s [] s"
| lts_extend: "lts_reach en ap s es t \<Longrightarrow> lts_step en ap ev t u \<Longrightarrow> lts_reach en ap s (es @ [ev]) u"

inductive_cases lts_reach_NilE: "lts_reach en ap s [] t"
inductive_cases lts_reach_snocE: "lts_reach en ap s (es @ [ev]) t"

text \<open>Running a list of events, None where one is not enabled.\<close>

fun lts_exec :: "('e \<Rightarrow> 's \<Rightarrow> bool) \<Rightarrow> ('e \<Rightarrow> 's \<Rightarrow> 's) \<Rightarrow> 'e list \<Rightarrow> 's \<Rightarrow> 's option" where
  "lts_exec en ap [] s = Some s"
| "lts_exec en ap (ev # es) s = (if en ev s then lts_exec en ap es (ap ev s) else None)"

lemma lts_reach_Cons:
  "lts_step en ap ev s t \<Longrightarrow> lts_reach en ap t es u \<Longrightarrow> lts_reach en ap s (ev # es) u"
proof (induction es arbitrary: u rule: rev_induct)
  case Nil
  then show ?case using lts_extend [OF lts_start Nil.prems(1)] by (auto elim: lts_reach_NilE)
next
  case (snoc e es)
  from snoc.prems(2) obtain v where "lts_reach en ap t es v" "lts_step en ap e v u"
    by (auto elim: lts_reach_snocE)
  then show ?case using lts_extend [OF snoc.IH [OF snoc.prems(1)]] by simp
qed

lemma lts_exec_reach: "lts_exec en ap es s = Some t \<Longrightarrow> lts_reach en ap s es t"
  by (induction es arbitrary: s) (auto intro: lts_start lts_event lts_reach_Cons split: if_splits)

lemma lts_reach_trans: "lts_reach en ap t fs u \<Longrightarrow> lts_reach en ap s es t \<Longrightarrow> lts_reach en ap s (es @ fs) u"
  by (induction rule: lts_reach.induct) (auto dest: lts_extend simp flip: append_assoc)

text \<open>A goroutine that reports its result on a channel of capacity one: still running, its result in the
  channel, or the result received.\<close>

datatype 'a reporter = Running | Reported 'a | Received 'a

fun reported :: "'a reporter \<Rightarrow> bool" where
  "reported (Reported x) = True"
| "reported g = False"

fun received :: "'a reporter \<Rightarrow> bool" where
  "received (Received x) = True"
| "received g = False"

fun receive :: "'a reporter \<Rightarrow> 'a reporter" where
  "receive (Reported x) = Received x"
| "receive g = g"

lemma reported_iff [simp]: "reported g \<longleftrightarrow> (\<exists>x. g = Reported x)"
  by (cases g) simp_all

lemma received_iff: "received g \<longleftrightarrow> (\<exists>x. g = Received x)"
  by (cases g) simp_all

lemma received_receive [simp]: "received (receive g) \<longleftrightarrow> g \<noteq> Running"
  by (cases g) simp_all

text \<open>What is preserved by every event holds of every run; \<open>P\<close> may speak of the events so far.\<close>

locale trace_invariant =
  fixes en :: "'e \<Rightarrow> 's \<Rightarrow> bool" and ap :: "'e \<Rightarrow> 's \<Rightarrow> 's" and P :: "'e list \<Rightarrow> 's \<Rightarrow> bool"
  assumes preserved: "en ev s \<Longrightarrow> P es s \<Longrightarrow> P (es @ [ev]) (ap ev s)"
begin

lemma reach_trace: "lts_reach en ap s fs t \<Longrightarrow> P es s \<Longrightarrow> P (es @ fs) t"
proof (induction rule: lts_reach.induct)
  case (lts_extend fs t ev u)
  then show ?case using preserved [of ev t "es @ fs"] by (auto simp: lts_step_iff)
qed simp

lemma reach: "lts_reach en ap s fs t \<Longrightarrow> P [] s \<Longrightarrow> P fs t"
  using reach_trace [of s fs t "[]"] by simp

end

locale state_invariant =
  fixes en :: "'e \<Rightarrow> 's \<Rightarrow> bool" and ap :: "'e \<Rightarrow> 's \<Rightarrow> 's" and Q :: "'s \<Rightarrow> bool"
  assumes preserved_state: "en ev s \<Longrightarrow> Q s \<Longrightarrow> Q (ap ev s)"

sublocale state_invariant \<subseteq> trace_invariant en ap "\<lambda>_. Q"
  by unfold_locales (rule preserved_state)

context state_invariant
begin

lemma invariant: "lts_reach en ap s fs t \<Longrightarrow> Q s \<Longrightarrow> Q t"
  by (rule reach)

lemma step: "lts_step en ap ev s t \<Longrightarrow> Q s \<Longrightarrow> Q t"
  by (auto simp: lts_step_iff preserved_state)

end

end
