(* ===== verification/HA.thy ===== *)
theory HA
  imports Runtime_State Elector Transition
begin

text \<open>
  \<open>cmd/oidc-proxy/ha.go\<close>: \<open>runWithLeaderElection\<close> as a state machine. A goroutine is the list
  of the actions it has left; an action is one access to shared state: the store to an atomic flag,
  the store to a gauge, a log record, the critical section of \<open>deferredErrMu\<close>, \<open>once.Do\<close>, a channel
  send. Goroutines interleave action by action. The elector is client-go's; the model uses what its
  documentation says of the callbacks: \<open>OnStartedLeading\<close> and \<open>OnNewLeader\<close> run in goroutines of
  their own, and \<open>OnStoppedLeading\<close> runs before the elector's \<open>Run\<close> returns.
\<close>

section \<open>Logging\<close>

definition logLeaderElectionInitialized :: "logger \<Rightarrow> leader_config \<Rightarrow> obs \<Rightarrow> obs" where
  "logLeaderElectionInitialized lg c =
     Info lg ''leader_election'' ''leader_election_initialized'' ''leader election initialized''
       [(''lease_name'', AString (LeaseName c)), (''namespace'', AString (Namespace c)),
        (''identity'', AString (Identity c)), (''lease_duration'', ADuration (LeaseDuration c)),
        (''renew_deadline'', ADuration (RenewDeadline c)),
        (''retry_period'', ADuration (RetryPeriod c))]"

definition logLeadershipAcquired :: "logger \<Rightarrow> string \<Rightarrow> string \<Rightarrow> obs \<Rightarrow> obs" where
  "logLeadershipAcquired lg identity lease =
     Info lg ''leader_election'' ''leadership_acquired'' ''leadership acquired''
       [(''identity'', AString identity), (''lease_name'', AString lease)]"

definition logLeadershipLost :: "logger \<Rightarrow> string \<Rightarrow> string \<Rightarrow> obs \<Rightarrow> obs" where
  "logLeadershipLost lg identity lease =
     Warn lg ''leader_election'' ''leadership_lost'' ''leadership lost''
       [(''identity'', AString identity), (''lease_name'', AString lease)]"

definition logObservedLeader :: "logger \<Rightarrow> string \<Rightarrow> string \<Rightarrow> obs \<Rightarrow> obs" where
  "logObservedLeader lg identity observed s =
     (if observed = [] \<or> observed = identity then s
      else Info lg ''leader_election'' ''leader_observed'' ''observed new leader''
             [(''identity'', AString identity), (''leader_identity'', AString observed)] s)"

text \<open>main.go's classification of process errors, which the runner's exit log shares.\<close>

definition processErrorKind :: "go_error \<Rightarrow> string" where
  "processErrorKind e =
     (if errors_Is e ErrCanceled then ''context_canceled''
      else if errors_Is e ErrDeadlineExceeded then ''deadline_exceeded''
      else if errors_Is e ErrLeadershipLost then ''leadership_lost''
      else ''startup_failed'')"

definition processErrorSummary :: "go_error \<Rightarrow> string" where
  "processErrorSummary e =
     (if processErrorKind e = ''context_canceled'' then ''context canceled''
      else if processErrorKind e = ''deadline_exceeded'' then ''deadline exceeded''
      else if processErrorKind e = ''leadership_lost'' then ''leadership lost''
      else ''startup failed'')"

definition logLeaderRunnerExit :: "logger \<Rightarrow> go_error \<Rightarrow> obs \<Rightarrow> obs" where
  "logLeaderRunnerExit lg e =
     Error lg ''leader_election'' ''leader_runner_exit'' ''leader runner exited with error''
       [(''error_kind'', AString (processErrorKind e)), (''error'', AString (processErrorSummary e))]"

section \<open>State and events\<close>

record ha_env =
  ha_logger :: logger
  ha_config :: leader_config

text \<open>
  The actions. \<open>UnlessShutdown\<close> is the early return of \<open>OnStoppedLeading\<close> with what follows it;
  \<open>RunnerExit\<close> the test of the public runner's result, with whether the runner's context is done
  by then; \<open>DeferErr\<close> and \<open>SendOnce\<close> are the two halves of \<open>sendErr\<close>; \<open>ElectionSend\<close> sends what
  \<open>leader.Run\<close> returned.
\<close>

datatype ha_action =
    LeaderFlag bool
  | LeaderGauge bool
  | PublicFlag bool
  | PublicGauge bool
  | CountTransition string
  | LogAcquired
  | LogObserved string
  | LogLost
  | LogExit go_error
  | DeferErr go_error
  | SendOnce go_error
  | RunnerExit "go_error option" bool
  | UnlessShutdown "ha_action list"
  | ElectionSend "go_error option"

record ha_state =
  rt :: runtimeState
  ha_obs :: obs
  ctx_done :: bool
  errCh :: "go_error option"
  once :: bool
  deferredErr :: "go_error option"
  electionErrCh :: "go_error option option"
  elector_over :: bool
  goroutines :: "ha_action list list"
  returned :: "go_error option option"

definition sendErr :: "go_error \<Rightarrow> ha_action list" where
  "sendErr e = [DeferErr e, SendOnce e]"

text \<open>The runner's \<open>SetPublicReady\<close> callback of \<open>setupProcess\<close>.\<close>

definition setPublicReady :: "bool \<Rightarrow> ha_action list" where
  "setPublicReady v = [PublicFlag v, PublicGauge v]"

text \<open>
  \<open>OnStartedLeading\<close>: \<open>ups\<close> is the sequence of the runner's calls of \<open>SetPublicReady\<close>, \<open>err\<close> its
  result and \<open>runCtxDone\<close> whether its context is done when it returned.
\<close>

definition OnStartedLeading :: "bool list \<Rightarrow> go_error option \<Rightarrow> bool \<Rightarrow> ha_action list" where
  "OnStartedLeading ups err runCtxDone =
     [LeaderFlag True, LeaderGauge True, CountTransition ''leader'', LogAcquired] @
     concat (map setPublicReady ups) @ [RunnerExit err runCtxDone]"

definition OnStoppedLeading :: "ha_action list" where
  "OnStoppedLeading =
     [LeaderFlag False, PublicFlag False, LeaderGauge False, PublicGauge False,
      CountTransition ''follower'', UnlessShutdown (LogLost # sendErr ErrLeadershipLost)]"

definition OnNewLeader :: "string \<Rightarrow> ha_action list" where
  "OnNewLeader identity = [LogObserved identity]"

definition on_rt :: "(runtimeState \<Rightarrow> runtimeState) \<Rightarrow> ha_state \<Rightarrow> ha_state" where
  "on_rt f s = s\<lparr>rt := f (rt s)\<rparr>"

definition on_obs :: "(obs \<Rightarrow> obs) \<Rightarrow> ha_state \<Rightarrow> ha_state" where
  "on_obs f s = s\<lparr>ha_obs := f (ha_obs s)\<rparr>"

text \<open>What an action does to the shared state, and what its goroutine has left after it.\<close>

fun ha_effect :: "ha_env \<Rightarrow> ha_action \<Rightarrow> ha_state \<Rightarrow> ha_state" where
  "ha_effect env (LeaderFlag v) s = on_rt (SetLeader v) s"
| "ha_effect env (LeaderGauge v) s = on_obs (record_if (SetLeader_metric v)) s"
| "ha_effect env (PublicFlag v) s = on_rt (SetPublicReady v) s"
| "ha_effect env (PublicGauge v) s = on_obs (record_if (SetPublicReady_metric v)) s"
| "ha_effect env (CountTransition st) s = on_obs (record_if (RecordLeaderElectionTransition st)) s"
| "ha_effect env LogAcquired s =
     on_obs (logLeadershipAcquired (ha_logger env) (Identity (ha_config env)) (LeaseName (ha_config env))) s"
| "ha_effect env (LogObserved i) s = on_obs (logObservedLeader (ha_logger env) (Identity (ha_config env)) i) s"
| "ha_effect env LogLost s =
     on_obs (logLeadershipLost (ha_logger env) (Identity (ha_config env)) (LeaseName (ha_config env))) s"
| "ha_effect env (LogExit e) s = on_obs (logLeaderRunnerExit (ha_logger env) e) s"
| "ha_effect env (DeferErr e) s = (if deferredErr s = None then s\<lparr>deferredErr := Some e\<rparr> else s)"
| "ha_effect env (SendOnce e) s = (if once s then s else s\<lparr>once := True, errCh := Some e\<rparr>)"
| "ha_effect env (RunnerExit err d) s = s"
| "ha_effect env (UnlessShutdown as) s = s"
| "ha_effect env (ElectionSend err) s = s\<lparr>electionErrCh := Some err\<rparr>"

fun ha_rest :: "ha_action \<Rightarrow> ha_state \<Rightarrow> ha_action list \<Rightarrow> ha_action list" where
  "ha_rest (RunnerExit err runCtxDone) s as =
     (case err of
        None \<Rightarrow> as
      | Some e \<Rightarrow>
          if \<not> errors_Is e ErrCanceled \<and> \<not> runCtxDone then LogExit e # sendErr e @ as else as)"
| "ha_rest (UnlessShutdown bs) s as = (if ShuttingDown (rt s) \<or> ctx_done s then as else bs @ as)"
| "ha_rest a s as = as"

text \<open>
  \<open>Act i\<close> lets goroutine \<open>i\<close> do its next action. \<open>ElectorFails\<close> is \<open>leader.Run\<close> returning an error
  before its elector runs, \<open>ElectorExits\<close> the elector's return; the last three are the arms of the
  caller's \<open>select\<close>. \<open>ShutdownFlag\<close> is \<open>newRuntimeState\<close>'s goroutine.
\<close>

datatype ha_event =
    StartedLeading "bool list" "go_error option" bool
  | NewLeader string
  | ElectorExits
  | ElectorFails go_error
  | ContextDone
  | ShutdownFlag
  | Act nat
  | SelectDone
  | SelectErr
  | SelectElection

definition ha_enabled :: "ha_event \<Rightarrow> ha_state \<Rightarrow> bool" where
  "ha_enabled ev s \<longleftrightarrow>
     (case ev of
        StartedLeading _ _ _ \<Rightarrow> \<not> elector_over s
      | NewLeader _ \<Rightarrow> \<not> elector_over s
      | ElectorExits \<Rightarrow> \<not> elector_over s
      | ElectorFails _ \<Rightarrow> \<not> elector_over s
      | ContextDone \<Rightarrow> True
      | ShutdownFlag \<Rightarrow> ctx_done s
      | Act i \<Rightarrow> i < length (goroutines s) \<and> goroutines s ! i \<noteq> []
      | SelectDone \<Rightarrow> returned s = None \<and> ctx_done s
      | SelectErr \<Rightarrow> returned s = None \<and> errCh s \<noteq> None
      | SelectElection \<Rightarrow> returned s = None \<and> electionErrCh s \<noteq> None)"

definition spawn :: "ha_action list \<Rightarrow> ha_state \<Rightarrow> ha_state" where
  "spawn as s = s\<lparr>goroutines := goroutines s @ [as]\<rparr>"

definition ha_act :: "ha_env \<Rightarrow> nat \<Rightarrow> ha_state \<Rightarrow> ha_state" where
  "ha_act env i s =
     (case goroutines s ! i of
        [] \<Rightarrow> s
      | a # as \<Rightarrow> (ha_effect env a s)\<lparr>goroutines := (goroutines s)[i := ha_rest a s as]\<rparr>)"

fun ha_apply :: "ha_env \<Rightarrow> ha_event \<Rightarrow> ha_state \<Rightarrow> ha_state" where
  "ha_apply env (StartedLeading ups err d) s = spawn (OnStartedLeading ups err d) s"
| "ha_apply env (NewLeader i) s = spawn (OnNewLeader i) s"
| "ha_apply env ElectorExits s = spawn (OnStoppedLeading @ [ElectionSend None]) (s\<lparr>elector_over := True\<rparr>)"
| "ha_apply env (ElectorFails e) s = spawn [ElectionSend (Some e)] (s\<lparr>elector_over := True\<rparr>)"
| "ha_apply env ContextDone s = s\<lparr>ctx_done := True\<rparr>"
| "ha_apply env ShutdownFlag s = on_rt (SetShuttingDown True) s"
| "ha_apply env (Act i) s = ha_act env i s"
| "ha_apply env SelectDone s = s\<lparr>returned := Some None\<rparr>"
| "ha_apply env SelectErr s = s\<lparr>errCh := None, returned := Some (errCh s)\<rparr>"
| "ha_apply env SelectElection s =
     (case electionErrCh s of
        None \<Rightarrow> s
      | Some err \<Rightarrow>
          s\<lparr>electionErrCh := None,
            returned := Some (if err = None \<and> \<not> ctx_done s then deferredErr s else err)\<rparr>)"

abbreviation ha_step :: "ha_env \<Rightarrow> ha_event \<Rightarrow> ha_state \<Rightarrow> ha_state \<Rightarrow> bool" where
  "ha_step env \<equiv> lts_step ha_enabled (ha_apply env)"

abbreviation ha_reach :: "ha_env \<Rightarrow> ha_state \<Rightarrow> ha_event list \<Rightarrow> ha_state \<Rightarrow> bool" where
  "ha_reach env \<equiv> lts_reach ha_enabled (ha_apply env)"

lemmas ha_event = lts_event [where en = ha_enabled and ap = "ha_apply env" for env]

text \<open>The state \<open>runWithLeaderElection\<close> starts from: nothing sent, the caller's flags and logs.\<close>

definition ha_init :: "ha_env \<Rightarrow> runtimeState \<Rightarrow> obs \<Rightarrow> bool \<Rightarrow> ha_state" where
  "ha_init env r s done =
     \<lparr>rt = r, ha_obs = logLeaderElectionInitialized (ha_logger env) (ha_config env) s,
      ctx_done = done, errCh = None, once = False, deferredErr = None, electionErrCh = None,
      elector_over = False, goroutines = [], returned = None\<rparr>"

section \<open>Facts on actions\<close>

lemma ha_plumbing [simp]:
  "deferredErr (on_rt f s) = deferredErr s" "deferredErr (on_obs g s) = deferredErr s"
  "once (on_rt f s) = once s" "once (on_obs g s) = once s"
  "errCh (on_rt f s) = errCh s" "errCh (on_obs g s) = errCh s"
  "returned (on_rt f s) = returned s" "returned (on_obs g s) = returned s"
  "ctx_done (on_rt f s) = ctx_done s" "ctx_done (on_obs g s) = ctx_done s"
  "electionErrCh (on_rt f s) = electionErrCh s" "electionErrCh (on_obs g s) = electionErrCh s"
  "elector_over (on_rt f s) = elector_over s" "elector_over (on_obs g s) = elector_over s"
  "goroutines (on_rt f s) = goroutines s" "goroutines (on_obs g s) = goroutines s"
  "rt (on_rt f s) = f (rt s)" "rt (on_obs g s) = rt s"
  "ha_obs (on_rt f s) = ha_obs s" "ha_obs (on_obs g s) = g (ha_obs s)"
  by (simp_all add: on_rt_def on_obs_def)

lemma spawn_frame [simp]:
  "goroutines (spawn as s) = goroutines s @ [as]" "rt (spawn as s) = rt s" "ha_obs (spawn as s) = ha_obs s"
  "ctx_done (spawn as s) = ctx_done s" "errCh (spawn as s) = errCh s" "once (spawn as s) = once s"
  "deferredErr (spawn as s) = deferredErr s" "electionErrCh (spawn as s) = electionErrCh s"
  "elector_over (spawn as s) = elector_over s" "returned (spawn as s) = returned s"
  by (simp_all add: spawn_def)

lemma ha_effect_frame [simp]:
  "ctx_done (ha_effect env a s) = ctx_done s" "returned (ha_effect env a s) = returned s"
  "elector_over (ha_effect env a s) = elector_over s"
  "ShuttingDown (rt (ha_effect env a s)) = ShuttingDown (rt s)"
  "LeaderElectionEnabled (rt (ha_effect env a s)) = LeaderElectionEnabled (rt s)"
  by (cases a; simp add: runtime_defs)+

text \<open>An enabled goroutine step, opened up.\<close>

lemma ha_act_Cons:
  assumes "i < length (goroutines s)" and "goroutines s ! i \<noteq> []"
  obtains a as where "goroutines s ! i = a # as" "a # as \<in> set (goroutines s)"
    "ha_act env i s = (ha_effect env a s)\<lparr>goroutines := (goroutines s)[i := ha_rest a s as]\<rparr>"
  using assms nth_mem [OF assms(1)] by (cases "goroutines s ! i") (auto simp: ha_act_def)

lemma goroutines_update: "\<forall>th \<in> set gs. Q th \<Longrightarrow> Q th' \<Longrightarrow> \<forall>th \<in> set (gs[i := th']). Q th"
  using set_update_subset_insert [of gs i th'] by blast

section \<open>The result\<close>

text \<open>
  A goroutine is covered when the elector's nil result is sent only where the end is known: the
  context is done or an error was deferred. \<open>b\<close> says whether it is known already.
\<close>

fun covered :: "bool \<Rightarrow> ha_action list \<Rightarrow> bool" where
  "covered b [] = True"
| "covered b (ElectionSend err # as) = ((err = None \<longrightarrow> b) \<and> covered b as)"
| "covered b (DeferErr e # as) = covered True as"
| "covered b (UnlessShutdown bs # as) = (bs = LogLost # sendErr ErrLeadershipLost \<and> covered True as)"
| "covered b (a # as) = covered b as"

definition known :: "ha_state \<Rightarrow> bool" where
  "known s \<longleftrightarrow> ctx_done s \<or> deferredErr s \<noteq> None"

lemma covered_mono: "covered b as \<Longrightarrow> (b \<Longrightarrow> c) \<Longrightarrow> covered c as"
  by (induction b as arbitrary: c rule: covered.induct) auto

definition result_inv :: "ha_state \<Rightarrow> bool" where
  "result_inv s \<longleftrightarrow>
     (ShuttingDown (rt s) \<longrightarrow> ctx_done s) \<and> (\<forall>th \<in> set (goroutines s). covered (known s) th) \<and>
     (electionErrCh s = Some None \<longrightarrow> known s) \<and> (returned s = Some None \<longrightarrow> ctx_done s)"

lemma covered_setPublicReady [simp]: "covered b (concat (map setPublicReady ups) @ as) = covered b as"
  by (induction ups) (simp_all add: setPublicReady_def)

lemma covered_programs:
  "covered b (OnStartedLeading ups err d)" "covered b (OnNewLeader i)"
  "covered b (OnStoppedLeading @ [ElectionSend None])" "covered b [ElectionSend (Some e)]"
  by (simp_all add: OnStartedLeading_def OnNewLeader_def OnStoppedLeading_def)

lemma known_effect: "known s \<Longrightarrow> known (ha_effect env a s)"
  by (cases a) (auto simp: known_def)

lemma covered_rest:
  assumes "covered (known s) (a # as)" and "ShuttingDown (rt s) \<longrightarrow> ctx_done s"
  shows "covered (known (ha_effect env a s)) (ha_rest a s as)"
proof -
  have "covered (known (ha_effect env a s)) as" if "covered (known s) as"
    using that by (rule covered_mono) (rule known_effect)
  then show ?thesis using assms
    by (cases a) (auto simp: known_def sendErr_def split: option.splits if_splits elim: covered_mono)
qed

lemma known_electionErrCh:
  "covered (known s) (a # as) \<Longrightarrow> (electionErrCh s = Some None \<longrightarrow> known s) \<Longrightarrow>
     electionErrCh (ha_effect env a s) = Some None \<longrightarrow> known (ha_effect env a s)"
  by (cases a) (auto simp: known_def)

lemma result_inv_act:
  assumes "result_inv s" and "ha_enabled (Act i) s"
  shows "result_inv (ha_act env i s)"
proof -
  have "i < length (goroutines s)" "goroutines s ! i \<noteq> []" using assms(2) by (simp_all add: ha_enabled_def)
  then obtain a as where th: "a # as \<in> set (goroutines s)"
    and st: "ha_act env i s = (ha_effect env a s)\<lparr>goroutines := (goroutines s)[i := ha_rest a s as]\<rparr>"
    by (rule ha_act_Cons)
  let ?t = "ha_effect env a s"
  have c: "covered (known s) (a # as)" and sd: "ShuttingDown (rt s) \<longrightarrow> ctx_done s"
    using assms(1) th by (auto simp: result_inv_def)
  have "\<forall>th \<in> set (goroutines s). covered (known ?t) th"
    using assms(1) known_effect by (auto simp: result_inv_def intro: covered_mono)
  then have "\<forall>th \<in> set ((goroutines s)[i := ha_rest a s as]). covered (known ?t) th"
    using covered_rest [OF c sd] by (rule goroutines_update)
  moreover have "known (ha_act env i s) = known ?t" by (simp add: st known_def)
  moreover have "electionErrCh ?t = Some None \<longrightarrow> known ?t"
    using known_electionErrCh [OF c] assms(1) by (simp add: result_inv_def)
  ultimately show ?thesis using assms(1) sd by (simp add: result_inv_def st)
qed

interpretation result: state_invariant ha_enabled "ha_apply env" result_inv for env
proof
  fix ev s assume "ha_enabled ev s" and inv: "result_inv s"
  then show "result_inv (ha_apply env ev s)"
  proof (cases ev)
    case (Act i)
    then show ?thesis using result_inv_act [OF inv] \<open>ha_enabled ev s\<close> by simp
  qed (auto simp: result_inv_def known_def ha_enabled_def covered_programs runtime_defs
      split: option.splits elim: covered_mono)
qed

text \<open>Where an error can come from.\<close>

definition sent_ok :: "ha_event list \<Rightarrow> go_error \<Rightarrow> bool" where
  "sent_ok es e \<longleftrightarrow>
     e = ErrLeadershipLost \<and> ElectorExits \<in> set es \<or>
     (\<exists>ups. StartedLeading ups (Some e) False \<in> set es \<and> \<not> errors_Is e ErrCanceled)"

fun act_ok :: "ha_event list \<Rightarrow> ha_action \<Rightarrow> bool" where
  "act_ok es (DeferErr e) = sent_ok es e"
| "act_ok es (SendOnce e) = sent_ok es e"
| "act_ok es (RunnerExit err d) = (\<exists>ups. StartedLeading ups err d \<in> set es)"
| "act_ok es (UnlessShutdown bs) = (bs = LogLost # sendErr ErrLeadershipLost \<and> ElectorExits \<in> set es)"
| "act_ok es (ElectionSend err) = (\<forall>e. err = Some e \<longrightarrow> ElectorFails e \<in> set es)"
| "act_ok es a = True"

definition source_inv :: "ha_event list \<Rightarrow> ha_state \<Rightarrow> bool" where
  "source_inv es s \<longleftrightarrow>
     (\<forall>th \<in> set (goroutines s). list_all (act_ok es) th) \<and>
     (\<forall>e. errCh s = Some e \<or> deferredErr s = Some e \<longrightarrow> sent_ok es e) \<and>
     (\<forall>e. electionErrCh s = Some (Some e) \<longrightarrow> ElectorFails e \<in> set es) \<and>
     (\<forall>e. returned s = Some (Some e) \<longrightarrow> sent_ok es e \<or> ElectorFails e \<in> set es)"

lemma sent_ok_more: "sent_ok es e \<Longrightarrow> sent_ok (es @ fs) e"
  by (auto simp: sent_ok_def)

lemma act_ok_more: "act_ok es a \<Longrightarrow> act_ok (es @ fs) a"
  by (cases a) (auto intro: sent_ok_more)

lemma source_inv_more: "source_inv es s \<Longrightarrow> source_inv (es @ fs) s"
  unfolding source_inv_def using act_ok_more sent_ok_more
  by (auto simp: list_all_iff)

lemma act_ok_setPublicReady [simp]: "list_all (act_ok es) (concat (map setPublicReady ups))"
  by (induction ups) (simp_all add: setPublicReady_def)

lemma act_ok_rest: "list_all (act_ok es) (a # as) \<Longrightarrow> list_all (act_ok es) (ha_rest a s as)"
  by (cases a) (auto simp: sendErr_def sent_ok_def split: option.splits)

lemma act_ok_effect:
  "act_ok es a \<Longrightarrow> (\<forall>e. errCh s = Some e \<or> deferredErr s = Some e \<longrightarrow> sent_ok es e) \<Longrightarrow>
     \<forall>e. errCh (ha_effect env a s) = Some e \<or> deferredErr (ha_effect env a s) = Some e \<longrightarrow> sent_ok es e"
  "act_ok es a \<Longrightarrow> (\<forall>e. electionErrCh s = Some (Some e) \<longrightarrow> ElectorFails e \<in> set es) \<Longrightarrow>
     \<forall>e. electionErrCh (ha_effect env a s) = Some (Some e) \<longrightarrow> ElectorFails e \<in> set es"
  by (cases a; auto)+

lemma source_inv_act:
  assumes "source_inv es s" and "ha_enabled (Act i) s"
  shows "source_inv es (ha_act env i s)"
proof -
  have "i < length (goroutines s)" "goroutines s ! i \<noteq> []" using assms(2) by (simp_all add: ha_enabled_def)
  then obtain a as where th: "a # as \<in> set (goroutines s)"
    and st: "ha_act env i s = (ha_effect env a s)\<lparr>goroutines := (goroutines s)[i := ha_rest a s as]\<rparr>"
    by (rule ha_act_Cons)
  have ok: "list_all (act_ok es) (a # as)" using assms(1) th unfolding source_inv_def by blast
  have "\<forall>th \<in> set ((goroutines s)[i := ha_rest a s as]). list_all (act_ok es) th"
    using act_ok_rest [OF ok] assms(1) by (intro goroutines_update) (simp_all add: source_inv_def)
  then show ?thesis using assms(1) ok act_ok_effect [of es a s env] by (simp add: source_inv_def st)
qed

interpretation source: trace_invariant ha_enabled "ha_apply env" source_inv for env
proof
  fix ev s es assume st: "ha_enabled ev s" and "source_inv es s"
  then have inv: "source_inv (es @ [ev]) s" by (simp add: source_inv_more)
  show "source_inv (es @ [ev]) (ha_apply env ev s)"
  proof (cases ev)
    case (Act i)
    then show ?thesis using source_inv_act [OF inv] st by simp
  qed (use inv st in \<open>auto simp: source_inv_def ha_enabled_def OnStartedLeading_def OnNewLeader_def
      OnStoppedLeading_def split: option.splits if_splits\<close>)
qed

lemma ha_init_invs:
  "\<not> ShuttingDown r \<or> d \<Longrightarrow> result_inv (ha_init env r s d)" "source_inv [] (ha_init env r s d)"
  by (auto simp: ha_init_def result_inv_def source_inv_def)

text \<open>\<open>sendErr\<close> never blocks: while nothing was sent, the channel is empty.\<close>

lemma ha_send_never_blocks:
  "ha_reach env (ha_init env r s d) es t \<Longrightarrow> errCh t \<noteq> None \<longrightarrow> once t"
proof (induction rule: lts_reach.induct)
  case (lts_extend es t ev u)
  then have "ha_enabled ev t" "u = ha_apply env ev t" by (simp_all add: lts_step_iff)
  then show ?case using lts_extend.IH
  proof (cases ev)
    case (Act i)
    then have "i < length (goroutines t)" "goroutines t ! i \<noteq> []"
      using \<open>ha_enabled ev t\<close> by (simp_all add: ha_enabled_def)
    then obtain a as where
      "ha_act env i t = (ha_effect env a t)\<lparr>goroutines := (goroutines t)[i := ha_rest a t as]\<rparr>"
      by (rule ha_act_Cons)
    moreover have "errCh (ha_effect env a t) \<noteq> None \<longrightarrow> once (ha_effect env a t)"
      using lts_extend.IH by (cases a) auto
    ultimately show ?thesis using Act \<open>u = ha_apply env ev t\<close> by simp
  qed (auto split: option.splits)
qed (simp add: ha_init_def)

section \<open>The public surface\<close>

text \<open>
  A goroutine settles when each report that the surface is up is followed by one that it is down;
  what a runner reports over a whole run settles (theory Runner).
\<close>

fun settles :: "bool list \<Rightarrow> bool" where
  "settles [] = True"
| "settles (v # vs) = ((v \<longrightarrow> False \<in> set vs) \<and> settles vs)"

fun acts_settle :: "ha_action list \<Rightarrow> bool" where
  "acts_settle [] = True"
| "acts_settle (PublicFlag v # as) = ((v \<longrightarrow> PublicFlag False \<in> set as) \<and> acts_settle as)"
| "acts_settle (PublicGauge v # as) = ((v \<longrightarrow> PublicGauge False \<in> set as) \<and> acts_settle as)"
| "acts_settle (UnlessShutdown bs # as) = (bs = LogLost # sendErr ErrLeadershipLost \<and> acts_settle as)"
| "acts_settle (a # as) = acts_settle as"

definition quiet :: "ha_state \<Rightarrow> bool" where
  "quiet s \<longleftrightarrow> (\<forall>th \<in> set (goroutines s). th = [])"

definition down_inv :: "ha_state \<Rightarrow> bool" where
  "down_inv s \<longleftrightarrow>
     (\<forall>th \<in> set (goroutines s). acts_settle th) \<and>
     (PublicReady (rt s) \<longrightarrow> (\<exists>th \<in> set (goroutines s). PublicFlag False \<in> set th)) \<and>
     (publicReadyValue (obs_metrics (ha_obs s)) \<noteq> 0 \<longrightarrow> (\<exists>th \<in> set (goroutines s). PublicGauge False \<in> set th))"

lemma settles_pub: "pub = [] \<or> \<not> last pub \<Longrightarrow> settles pub"
proof (induction pub)
  case (Cons v vs)
  show ?case
  proof (cases "vs = []")
    case False
    then have "\<not> last vs" using Cons.prems by simp
    then have "False \<in> set vs" using False last_in_set by fastforce
    then show ?thesis using Cons.IH \<open>\<not> last vs\<close> by simp
  qed (use Cons.prems in simp)
qed simp

lemma in_calls_down:
  "False \<in> set ups \<Longrightarrow> PublicFlag False \<in> set (concat (map setPublicReady ups))"
  "False \<in> set ups \<Longrightarrow> PublicGauge False \<in> set (concat (map setPublicReady ups))"
  by (induction ups) (auto simp: setPublicReady_def)

lemma acts_settle_ups: "settles ups \<Longrightarrow> acts_settle (concat (map setPublicReady ups) @ [RunnerExit err d])"
  by (induction ups) (auto simp: setPublicReady_def in_calls_down)

lemma settle_programs:
  "settles ups \<Longrightarrow> acts_settle (OnStartedLeading ups err d)" "acts_settle (OnNewLeader i)"
  "acts_settle (OnStoppedLeading @ [ElectionSend None])" "acts_settle [ElectionSend (Some e)]"
  using acts_settle_ups by (simp_all add: OnStartedLeading_def OnNewLeader_def OnStoppedLeading_def)

lemma rest_settles: "acts_settle (a # as) \<Longrightarrow> acts_settle (ha_rest a s as)"
  by (cases a) (auto simp: sendErr_def split: option.splits)

lemma rest_keeps: "x \<in> set as \<Longrightarrow> x \<in> set (ha_rest a s as)"
  by (cases a) (auto split: option.splits)

lemma ha_log_frame [frame]:
  "obs_metrics (logLeadershipAcquired l i n s) = obs_metrics s"
  "obs_metrics (logLeadershipLost l i n s) = obs_metrics s"
  "obs_metrics (logObservedLeader l i n s) = obs_metrics s"
  "obs_metrics (logLeaderRunnerExit l e s) = obs_metrics s"
  "obs_metrics (logLeaderElectionInitialized l c s) = obs_metrics s"
  by (simp_all add: logLeadershipAcquired_def logLeadershipLost_def logObservedLeader_def
      logLeaderRunnerExit_def logLeaderElectionInitialized_def frame)

lemma m_flags_call [simp]:
  "m_leader (call c m) = m_leader m" "m_publicReady (call c m) = m_publicReady m"
  by (simp_all add: call_def)

lemma public_effect:
  "PublicReady (rt (ha_effect env a s)) = (case a of PublicFlag v \<Rightarrow> v | _ \<Rightarrow> PublicReady (rt s))"
  by (cases a) (simp_all add: runtime_defs)

lemma gauge_effect:
  "publicReadyValue (obs_metrics (ha_obs (ha_effect env a s))) =
     (case a of
        PublicGauge v \<Rightarrow> if v \<and> obs_metrics (ha_obs s) \<noteq> None then 1 else 0
      | _ \<Rightarrow> publicReadyValue (obs_metrics (ha_obs s)))"
  by (cases a; cases "obs_metrics (ha_obs s)")
    (auto simp: frame record_if_def record_defs publicReadyValue_def)

text \<open>A pending action of one goroutine stays pending until that goroutine performs it.\<close>

lemma pending_act:
  assumes "\<exists>th \<in> set gs. x \<in> set th" and "gs ! i = a # as" and "a \<noteq> x"
    and "\<And>y. y \<in> set as \<Longrightarrow> y \<in> set r"
  shows "\<exists>th \<in> set (gs[i := r]). x \<in> set th"
proof -
  obtain th where "th \<in> set gs" "x \<in> set th" using assms(1) by blast
  then obtain j where j: "j < length gs" "x \<in> set (gs ! j)" by (metis in_set_conv_nth)
  show ?thesis
  proof (cases "j = i")
    case True
    then have "x \<in> set r" using j assms(2-4) by auto
    moreover have "r \<in> set (gs[i := r])" using j True by (auto intro: set_update_memI)
    ultimately show ?thesis by blast
  next
    case False
    then have "gs ! j \<in> set (gs[i := r])" using j nth_mem [of j "gs[i := r]"] by simp
    then show ?thesis using j by blast
  qed
qed

lemma down_inv_act:
  assumes "down_inv s" and "ha_enabled (Act i) s"
  shows "down_inv (ha_act env i s)"
proof -
  have i: "i < length (goroutines s)" "goroutines s ! i \<noteq> []" using assms(2) by (simp_all add: ha_enabled_def)
  then obtain a as where g: "goroutines s ! i = a # as" and th: "a # as \<in> set (goroutines s)"
    and st: "ha_act env i s = (ha_effect env a s)\<lparr>goroutines := (goroutines s)[i := ha_rest a s as]\<rparr>"
    by (rule ha_act_Cons)
  have ok: "acts_settle (a # as)" using assms(1) th unfolding down_inv_def by blast
  let ?r = "ha_rest a s as" and ?gs = "(goroutines s)[i := ha_rest a s as]"
  have r: "?r \<in> set ?gs" using i(1) by (rule set_update_memI)
  have mem: "y \<in> set as \<Longrightarrow> y \<in> set ?r" for y by (rule rest_keeps)
  have "\<forall>th \<in> set ?gs. acts_settle th"
    using rest_settles [OF ok] assms(1) by (intro goroutines_update) (simp_all add: down_inv_def)
  moreover have "\<exists>th \<in> set ?gs. PublicFlag False \<in> set th" if "PublicReady (rt (ha_effect env a s))"
  proof (cases "a = PublicFlag True")
    case True
    then show ?thesis using ok mem r by auto
  next
    case False
    then have "PublicReady (rt s) \<and> a \<noteq> PublicFlag False"
      using that [unfolded public_effect] by (cases a) auto
    then have "PublicReady (rt s)" "a \<noteq> PublicFlag False" by blast+
    then have "\<exists>th \<in> set (goroutines s). PublicFlag False \<in> set th"
      using assms(1) unfolding down_inv_def by blast
    then show ?thesis using g \<open>a \<noteq> PublicFlag False\<close> mem by (rule pending_act)
  qed
  moreover have "\<exists>th \<in> set ?gs. PublicGauge False \<in> set th"
    if "publicReadyValue (obs_metrics (ha_obs (ha_effect env a s))) \<noteq> 0"
  proof (cases "a = PublicGauge True")
    case True
    then show ?thesis using ok mem r by auto
  next
    case False
    then have "publicReadyValue (obs_metrics (ha_obs s)) \<noteq> 0 \<and> a \<noteq> PublicGauge False"
      using that [unfolded gauge_effect] by (cases a) auto
    then have "publicReadyValue (obs_metrics (ha_obs s)) \<noteq> 0" "a \<noteq> PublicGauge False" by blast+
    then have "\<exists>th \<in> set (goroutines s). PublicGauge False \<in> set th"
      using assms(1) unfolding down_inv_def by blast
    then show ?thesis using g \<open>a \<noteq> PublicGauge False\<close> mem by (rule pending_act)
  qed
  ultimately show ?thesis by (simp add: down_inv_def st)
qed

text \<open>The runs a leading goroutine starts are complete: what each reports settles.\<close>

definition complete_runs :: "ha_event list \<Rightarrow> bool" where
  "complete_runs es \<longleftrightarrow> (\<forall>ups err d. StartedLeading ups err d \<in> set es \<longrightarrow> settles ups)"

interpretation down: trace_invariant ha_enabled "ha_apply env" "\<lambda>es s. complete_runs es \<longrightarrow> down_inv s" for env
proof (standard, rule impI)
  fix ev s es
  assume st: "ha_enabled ev s" and "complete_runs es \<longrightarrow> down_inv s" and "complete_runs (es @ [ev])"
  then have inv: "down_inv s" and c: "complete_runs [ev]" by (auto simp: complete_runs_def)
  show "down_inv (ha_apply env ev s)"
  proof (cases ev)
    case (Act i)
    then show ?thesis using down_inv_act [OF inv] st by simp
  qed (use inv c st in \<open>auto simp: down_inv_def complete_runs_def settle_programs runtime_defs
      split: option.splits\<close>)
qed

section \<open>The leader flag\<close>

text \<open>A goroutine that still has to raise the leader flag.\<close>

definition late_leader :: "ha_state \<Rightarrow> bool" where
  "late_leader s \<longleftrightarrow> (\<exists>th \<in> set (goroutines s). LeaderFlag True \<in> set th)"

definition follower_inv :: "ha_state \<Rightarrow> bool" where
  "follower_inv s \<longleftrightarrow> elector_over s \<and> \<not> late_leader s \<and> \<not> Leader (rt s)"

lemma leader_effect:
  "Leader (rt (ha_effect env a s)) = (case a of LeaderFlag v \<Rightarrow> v | _ \<Rightarrow> Leader (rt s))"
  by (cases a) (simp_all add: runtime_defs)

lemma rest_no_raise:
  "LeaderFlag True \<notin> set (a # as) \<Longrightarrow> act_ok es a \<Longrightarrow> LeaderFlag True \<notin> set (ha_rest a s as)"
  by (cases a) (auto simp: sendErr_def split: option.splits)

lemma follower_step:
  assumes "ha_step env ev s s'" and "follower_inv s" and "source_inv es s"
  shows "follower_inv s'"
  using assms(1)
proof (rule lts_stepE)
  assume st: "s' = ha_apply env ev s" "ha_enabled ev s"
  show ?thesis
  proof (cases ev)
    case (Act i)
    then have i: "i < length (goroutines s)" "goroutines s ! i \<noteq> []" using st by (simp_all add: ha_enabled_def)
    then obtain a as where th: "a # as \<in> set (goroutines s)"
      and ac: "ha_act env i s = (ha_effect env a s)\<lparr>goroutines := (goroutines s)[i := ha_rest a s as]\<rparr>"
      by (rule ha_act_Cons)
    have "list_all (act_ok es) (a # as)" using assms(3) th unfolding source_inv_def by blast
    then have ok: "act_ok es a" by simp
    have n: "LeaderFlag True \<notin> set (a # as)"
      using assms(2) th unfolding follower_inv_def late_leader_def by blast
    have "LeaderFlag True \<notin> set (ha_rest a s as)" using n ok by (rule rest_no_raise)
    then have "\<forall>th \<in> set ((goroutines s)[i := ha_rest a s as]). LeaderFlag True \<notin> set th"
      using assms(2) by (intro goroutines_update) (auto simp: follower_inv_def late_leader_def)
    moreover have "\<not> Leader (rt (ha_effect env a s))"
      unfolding leader_effect using n assms(2) by (cases a) (auto simp: follower_inv_def)
    ultimately show ?thesis using assms(2) Act st(1) ac by (simp add: follower_inv_def late_leader_def)
  qed (use assms(2) st in \<open>auto simp: follower_inv_def late_leader_def ha_enabled_def runtime_defs
      split: option.splits\<close>)
qed

lemma enabled_frame: "LeaderElectionEnabled (SetShuttingDown v r) = LeaderElectionEnabled r"
  by (simp add: runtime_defs)

lemma enabled_step:
  "ha_step env ev s s' \<Longrightarrow> LeaderElectionEnabled (rt s') = LeaderElectionEnabled (rt s)"
proof (erule lts_stepE)
  assume "s' = ha_apply env ev s" "ha_enabled ev s"
  then show ?thesis
    by (cases ev) (auto simp: ha_act_def enabled_frame split: option.splits list.splits)
qed

lemma follower_reach:
  "ha_reach env s fs t \<Longrightarrow> ha_reach env s0 es s \<Longrightarrow> source_inv [] s0 \<Longrightarrow> follower_inv s \<Longrightarrow>
     follower_inv t \<and> LeaderElectionEnabled (rt t) = LeaderElectionEnabled (rt s) \<and>
     ha_reach env s0 (es @ fs) t"
proof (induction rule: lts_reach.induct)
  case (lts_extend fs t ev u)
  then have t: "follower_inv t" "ha_reach env s0 (es @ fs) t"
    "LeaderElectionEnabled (rt t) = LeaderElectionEnabled (rt s)" by simp_all
  have "source_inv (es @ fs) t" using t(2) lts_extend.prems(2) by (rule source.reach)
  then have "follower_inv u" using follower_step [OF lts_extend.hyps(2) t(1)] by blast
  moreover have "ha_reach env s0 ((es @ fs) @ [ev]) u" using t(2) lts_extend.hyps(2) by (rule lts_reach.lts_extend)
  ultimately show ?case using t(3) enabled_step [OF lts_extend.hyps(2)] by simp
qed simp

section \<open>Progress\<close>

fun act_work :: "ha_action \<Rightarrow> nat" where
  "act_work (RunnerExit err d) = 4"
| "act_work (UnlessShutdown bs) = Suc (sum_list (map act_work bs))"
| "act_work a = 1"

text \<open>An upper bound on the number of actions the goroutines have left.\<close>

definition work :: "ha_state \<Rightarrow> nat" where
  "work s = sum_list (map (\<lambda>th. sum_list (map act_work th)) (goroutines s))"

lemma rest_work: "sum_list (map act_work (ha_rest a s as)) < sum_list (map act_work (a # as))"
  by (cases a) (auto simp: sendErr_def split: option.splits)

lemma work_act:
  assumes "ha_enabled (Act i) s"
  shows "work (ha_act env i s) < work s"
proof -
  have i: "i < length (goroutines s)" "goroutines s ! i \<noteq> []" using assms by (simp_all add: ha_enabled_def)
  then obtain a as where g: "goroutines s ! i = a # as"
    and st: "ha_act env i s = (ha_effect env a s)\<lparr>goroutines := (goroutines s)[i := ha_rest a s as]\<rparr>"
    by (rule ha_act_Cons)
  let ?w = "\<lambda>th. sum_list (map act_work th)"
  have "?w (goroutines s ! i) \<le> sum_list (map ?w (goroutines s))"
    using i(1) by (intro member_le_sum_list) auto
  then show ?thesis using rest_work [of a s as] i(1) g
    by (simp add: work_def st map_update sum_list_update)
qed

definition send_pending :: "ha_state \<Rightarrow> bool" where
  "send_pending s \<longleftrightarrow>
     (elector_over s \<longrightarrow>
        returned s \<noteq> None \<or> electionErrCh s \<noteq> None \<or>
        (\<exists>th \<in> set (goroutines s). \<exists>err. ElectionSend err \<in> set th))"

lemma send_pending_act:
  assumes "send_pending s" and "ha_enabled (Act i) s"
  shows "send_pending (ha_act env i s)"
proof -
  have "i < length (goroutines s)" "goroutines s ! i \<noteq> []" using assms(2) by (simp_all add: ha_enabled_def)
  then obtain a as where g: "goroutines s ! i = a # as"
    and st: "ha_act env i s = (ha_effect env a s)\<lparr>goroutines := (goroutines s)[i := ha_rest a s as]\<rparr>"
    by (rule ha_act_Cons)
  show ?thesis
  proof (cases "\<exists>th \<in> set (goroutines s). \<exists>err. ElectionSend err \<in> set th")
    case True
    then obtain err where e: "\<exists>th \<in> set (goroutines s). ElectionSend err \<in> set th" by blast
    show ?thesis
    proof (cases "a = ElectionSend err")
      case False
      then have "\<exists>th \<in> set ((goroutines s)[i := ha_rest a s as]). ElectionSend err \<in> set th"
        using e g rest_keeps by (intro pending_act [of _ _ _ a as]) auto
      then show ?thesis by (auto simp: send_pending_def st)
    qed (simp add: send_pending_def st)
  next
    case False
    then have "electionErrCh s \<noteq> None \<longrightarrow> electionErrCh (ha_effect env a s) \<noteq> None" by (cases a) auto
    then show ?thesis using assms(1) False by (auto simp: send_pending_def st)
  qed
qed

interpretation pending: state_invariant ha_enabled "ha_apply env" send_pending for env
proof
  fix ev s assume st: "ha_enabled ev s" and inv: "send_pending s"
  show "send_pending (ha_apply env ev s)"
  proof (cases ev)
    case (Act i)
    then show ?thesis using send_pending_act [OF inv] st by simp
  qed (use inv st in \<open>auto simp: send_pending_def split: option.splits\<close>)
qed

lemma returns_within:
  "send_pending s \<Longrightarrow> elector_over s \<Longrightarrow> returned s = None \<Longrightarrow>
     \<exists>es t. ha_reach env s es t \<and> returned t \<noteq> None \<and> length es \<le> Suc (work s)"
proof (induction "work s" arbitrary: s rule: less_induct)
  case less
  show ?case
  proof (cases "electionErrCh s")
    case (Some err)
    then have "ha_step env SelectElection s (ha_apply env SelectElection s)"
      using less.prems by (intro ha_event) (simp add: ha_enabled_def)
    from lts_extend [OF lts_start this] show ?thesis using Some
      by (intro exI [of _ "[SelectElection]"] exI [of _ "ha_apply env SelectElection s"]) simp
  next
    case None
    then obtain th err where th: "th \<in> set (goroutines s)" and "ElectionSend err \<in> set th"
      using less.prems unfolding send_pending_def by blast
    then have "th \<noteq> []" by auto
    then obtain i where i: "i < length (goroutines s)" "goroutines s ! i \<noteq> []"
      using th unfolding in_set_conv_nth by blast
    then have en: "ha_enabled (Act i) s" by (simp add: ha_enabled_def)
    let ?t = "ha_act env i s"
    have st: "ha_step env (Act i) s ?t" using ha_event [OF en, of env] by simp
    have fr: "elector_over ?t = elector_over s" "returned ?t = returned s"
      by (simp_all add: ha_act_def split: list.splits)
    obtain es t where "ha_reach env ?t es t" "returned t \<noteq> None" "length es \<le> Suc (work ?t)"
      using less.hyps [OF work_act [OF en, of env] pending.step [OF st less.prems(1)]] less.prems fr by auto
    then show ?thesis using lts_reach_Cons [OF st] work_act [OF en, of env]
      by (intro exI [of _ "Act i # es"] exI [of _ t]) auto
  qed
qed

section \<open>Properties\<close>

abbreviation ha_exec :: "ha_env \<Rightarrow> ha_event list \<Rightarrow> ha_state \<Rightarrow> ha_state option" where
  "ha_exec env \<equiv> lts_exec ha_enabled (ha_apply env)"

definition sample_ha_env :: ha_env where
  "sample_ha_env =
     \<lparr>ha_logger = None,
      ha_config = \<lparr>LeaseName = ''l'', Namespace = ''n'', Identity = ''i'', LeaseDuration = 0,
        RenewDeadline = 0, RetryPeriod = 0, lc_Logger = None\<rparr>\<rparr>"

definition sample_ha_obs :: obs where
  "sample_ha_obs = \<lparr>default_logger = JSONHandler 0, emitted = [], obs_metrics = Some (New_metrics 0)\<rparr>"

definition sample_rt :: runtimeState where
  "sample_rt = SetLeaderElectionEnabled True new_runtimeState"

definition sample_ha :: ha_state where
  "sample_ha = ha_init sample_ha_env sample_rt sample_ha_obs False"

text \<open>A run in which the pod leads and serves, loses the lease while serving, and returns.\<close>

definition lost_events :: "ha_event list" where
  "lost_events =
     [StartedLeading [False, True, False] None True] @ replicate 8 (Act 0) @ [ElectorExits] @
     replicate 5 (Act 1) @ replicate 3 (Act 0) @ replicate 5 (Act 1) @ [SelectErr]"

definition lost_end :: ha_state where
  "lost_end = (case ha_exec sample_ha_env lost_events sample_ha of None \<Rightarrow> sample_ha | Some t \<Rightarrow> t)"

lemma lost_run: "ha_reach sample_ha_env (ha_init sample_ha_env sample_rt sample_ha_obs False) lost_events lost_end"
proof -
  have "ha_exec sample_ha_env lost_events sample_ha \<noteq> None" by code_simp
  then have "ha_exec sample_ha_env lost_events sample_ha = Some lost_end"
    by (auto simp: lost_end_def split: option.splits)
  then show ?thesis unfolding sample_ha_def by (rule lts_exec_reach)
qed

text \<open>C11: A failure of the public runner or the loss of the lease is never swallowed. In every
  interleaving of its goroutines \<open>runWithLeaderElection\<close> returns nil only when its context is done,
  and an error it returns is the elector's own, the lost lease after the elector exited, or a
  runner's error that is not a cancellation.\<close>

theorem ha_failures_surface:
  assumes "ha_reach env (ha_init env r s d) es t" and "\<not> ShuttingDown r"
  shows "(returned t = Some None \<longrightarrow> ctx_done t) \<and>
    (\<forall>e. returned t = Some (Some e) \<longrightarrow>
       ElectorFails e \<in> set es \<or> (e = ErrLeadershipLost \<and> ElectorExits \<in> set es) \<or>
       (\<exists>ups. StartedLeading ups (Some e) False \<in> set es \<and> \<not> errors_Is e ErrCanceled))"
  using result.invariant [OF assms(1) ha_init_invs(1)] source.reach [OF assms(1) ha_init_invs(2)] assms(2)
  by (auto simp: result_inv_def source_inv_def sent_ok_def)

theorem ha_failures_surface_witness:
  "returned lost_end = Some (Some ErrLeadershipLost) \<and> \<not> ctx_done lost_end"
proof -
  have "\<not> ShuttingDown sample_rt" "\<not> ctx_done lost_end" "returned lost_end \<noteq> None"
    "returned lost_end = Some (Some ErrLeadershipLost) \<or> returned lost_end = Some None"
    by code_simp+
  then show ?thesis using ha_failures_surface [OF lost_run] by auto
qed

text \<open>The public surface ends down. Once every goroutine has finished, both the flag behind the
  probes and the gauge are down, whatever the interleaving of the leader's callbacks with the
  runner's reports, when each run of the runner reports down last.\<close>

lemma ha_quiet_is_down:
  assumes "ha_reach env (ha_init env r s d) es t" and "complete_runs es" and "quiet t"
    and "\<not> PublicReady r" and "publicReadyValue (obs_metrics s) = 0"
  shows "\<not> PublicReady (rt t) \<and> publicReadyValue (obs_metrics (ha_obs t)) = 0 \<and> \<not> state_LeaderReady j (rt t)"
proof -
  have "down_inv (ha_init env r s d)" using assms(4,5) by (simp add: down_inv_def ha_init_def frame)
  then have "down_inv t" using down.reach [OF assms(1)] assms(2) by blast
  then show ?thesis using assms(3) by (auto simp: down_inv_def quiet_def state_LeaderReady_def)
qed

lemma enabled_reach:
  "ha_reach env s es t \<Longrightarrow> LeaderElectionEnabled (rt t) = LeaderElectionEnabled (rt s)"
  by (induction rule: lts_reach.induct) (auto dest: enabled_step)

text \<open>C27: A pod that stopped leading is a follower. Once the elector is over and the leader flag is
  down, the pod can count as leader-ready again only through an \<open>OnStartedLeading\<close> that was started
  before and has not raised the flag yet (as \<open>late_leader_race\<close> shows it may). Without one it is not
  leader-ready any more, whatever the goroutines still do and the runner still reports, and with fresh
  keys it stays ready.\<close>

theorem not_leader_ready_after_stop:
  assumes "ha_reach env (ha_init env r o0 d) es s" and "ha_reach env s fs t"
    and "elector_over s" and "\<not> Leader (rt s)" and "LeaderElectionEnabled r"
  shows "(state_LeaderReady j (rt t) \<longrightarrow> (\<exists>th \<in> set (goroutines s). LeaderFlag True \<in> set th)) \<and>
    (state_Ready True (rt t) \<or> (\<exists>th \<in> set (goroutines s). LeaderFlag True \<in> set th))"
proof (cases "late_leader s")
  case False
  have "LeaderElectionEnabled (rt s)" using enabled_reach [OF assms(1)] assms(5) by (simp add: ha_init_def)
  then show ?thesis using follower_reach [OF assms(2,1) ha_init_invs(2)] assms(3,4) False
    by (auto simp: follower_inv_def state_LeaderReady_def state_Ready_def)
qed (simp add: late_leader_def)

theorem not_leader_ready_after_stop_witness:
  "\<exists>s t. ha_reach sample_ha_env s [Act 0, Act 0] t \<and> elector_over s \<and> PublicReady (rt t) \<and>
     \<not> state_LeaderReady True (rt t) \<and> state_Ready True (rt t)"
proof -
  let ?es = "[StartedLeading [True, False] None True] @ replicate 4 (Act 0) @ [ElectorExits] @ replicate 3 (Act 1)"
  have "case ha_exec sample_ha_env ?es sample_ha of None \<Rightarrow> False
    | Some s \<Rightarrow> elector_over s \<and> list_all (\<lambda>th. LeaderFlag True \<notin> set th) (goroutines s) \<and>
        \<not> Leader (rt s) \<and> LeaderElectionEnabled (rt s) \<and>
        (case ha_exec sample_ha_env [Act 0, Act 0] s of None \<Rightarrow> False | Some t \<Rightarrow> PublicReady (rt t))"
    by code_simp
  then obtain s t where s: "ha_exec sample_ha_env ?es sample_ha = Some s"
      "elector_over s" "\<not> late_leader s" "\<not> Leader (rt s)" "LeaderElectionEnabled (rt s)"
    and t: "ha_exec sample_ha_env [Act 0, Act 0] s = Some t" "PublicReady (rt t)"
    by (auto simp: late_leader_def list_all_iff split: option.splits)
  note r = lts_exec_reach [OF s(1) [unfolded sample_ha_def]] lts_exec_reach [OF t(1)]
  have "LeaderElectionEnabled sample_rt" by code_simp
  from not_leader_ready_after_stop [OF r s(2,4) this] show ?thesis
    using s(3) r(2) s(2) t(2) unfolding late_leader_def by blast
qed

text \<open>The reservation is needed: an \<open>OnStartedLeading\<close> that is scheduled late raises the flag after
  the elector stopped, and when all goroutines are done the pod counts as the leader.\<close>

lemma late_leader_race:
  "\<exists>t. ha_reach sample_ha_env (ha_init sample_ha_env sample_rt sample_ha_obs False)
       ([StartedLeading [] None True, ElectorExits] @ replicate 10 (Act 1) @ replicate 5 (Act 0)) t \<and>
     quiet t \<and> elector_over t \<and> Leader (rt t)"
proof -
  let ?es = "[StartedLeading [] None True, ElectorExits] @ replicate 10 (Act 1) @ replicate 5 (Act 0)"
  have "case ha_exec sample_ha_env ?es sample_ha of None \<Rightarrow> False
    | Some t \<Rightarrow> quiet t \<and> elector_over t \<and> Leader (rt t)" by code_simp
  then obtain t where t: "ha_exec sample_ha_env ?es sample_ha = Some t" "quiet t" "elector_over t" "Leader (rt t)"
    by (auto simp del: lts_exec.simps split: option.splits)
  show ?thesis using lts_exec_reach [OF t(1) [unfolded sample_ha_def]] t(2-4) by blast
qed

text \<open>C29: No deadlock. Once the elector is over, whatever the goroutines have done so far,
  \<open>runWithLeaderElection\<close> can return within a number of steps bounded by the actions left, and no
  goroutine can go on for ever: each action lessens that number.\<close>

theorem ha_returns:
  assumes "ha_reach env (ha_init env r s d) es t" and "elector_over t" and "returned t = None"
  shows "(\<exists>fs u. ha_reach env t fs u \<and> returned u \<noteq> None \<and> length fs \<le> Suc (work t)) \<and>
    (\<forall>i u. ha_step env (Act i) t u \<longrightarrow> work u < work t)"
proof -
  have "send_pending (ha_init env r s d)" by (simp add: send_pending_def ha_init_def)
  then have "send_pending t" using pending.invariant [OF assms(1)] by blast
  then show ?thesis using returns_within assms(2,3) work_act by (auto simp: lts_step_iff)
qed

theorem ha_returns_witness:
  "\<exists>t fs u. ha_reach sample_ha_env t fs u \<and> elector_over t \<and> returned u \<noteq> None \<and> length fs \<le> Suc (work t)"
proof -
  let ?es = "[ElectorExits]"
  obtain t where t: "ha_exec sample_ha_env ?es sample_ha = Some t" "elector_over t" "returned t = None"
    by (simp add: ha_enabled_def sample_ha_def ha_init_def spawn_def)
  show ?thesis using ha_returns [OF lts_exec_reach [OF t(1) [unfolded sample_ha_def]] t(2,3)] t(2) by blast
qed

end
