(* ===== verification/Go_Duration.thy ===== *)
theory Go_Duration
  imports Go_Time
begin

text \<open>
  \<open>time.ParseDuration\<close>: an optional sign and a sequence of decimal numbers with units. The integer
  part is exact, a fraction goes through \<open>float64\<close>, the sum is kept in a \<open>uint64\<close>.
\<close>

fun digits_int :: "int \<Rightarrow> string \<Rightarrow> int" where
  "digits_int acc [] = acc"
| "digits_int acc (c # cs) = digits_int (10 * acc + int (digit_val c)) cs"

definition digits_of :: "string \<Rightarrow> string" where
  "digits_of s = takeWhile is_digit s"

text \<open>\<open>leadingInt\<close>: an error past \<open>2^63\<close>.\<close>

definition leadingInt :: "string \<Rightarrow> (int \<times> string) option" where
  "leadingInt s =
     (let v = digits_int 0 (digits_of s)
      in if v \<le> 2 ^ 63 then Some (v, dropWhile is_digit s) else None)"

text \<open>\<open>leadingFraction\<close>: digits that would overflow are consumed and ignored.\<close>

fun fraction_digits :: "int \<Rightarrow> rat \<Rightarrow> string \<Rightarrow> int \<times> rat" where
  "fraction_digits x scale [] = (x, scale)"
| "fraction_digits x scale (c # cs) =
     (if (2 ^ 63 - 1) div 10 < x then (x, scale)
      else
        let y = x * 10 + int (digit_val c) in
        if 2 ^ 63 < y then (x, scale) else fraction_digits y (fl (scale * 10)) cs)"

definition leadingFraction :: "string \<Rightarrow> int \<times> rat \<times> string" where
  "leadingFraction s =
     (let (x, scale) = fraction_digits 0 1 (digits_of s) in (x, scale, dropWhile is_digit s))"

definition unitMap :: "string \<Rightarrow> int option" where
  "unitMap u =
     (if u = ''ns'' then Some 1
      else if u = ''us'' \<or> u = [CHR 0xC2, CHR 0xB5, CHR ''s''] \<or> u = [CHR 0xCE, CHR 0xBC, CHR ''s'']
        then Some 1000
      else if u = ''ms'' then Some 1000000
      else if u = ''s'' then Some 1000000000
      else if u = ''m'' then Some 60000000000
      else if u = ''h'' then Some 3600000000000
      else None)"

definition unit_char :: "char \<Rightarrow> bool" where
  "unit_char c \<longleftrightarrow> \<not> (c = CHR ''.'' \<or> is_digit c)"

text \<open>One number with its unit: its nanoseconds and the rest.\<close>

definition duration_term :: "string \<Rightarrow> (int \<times> string) option" where
  "duration_term s =
     (if \<not> (hd s = CHR ''.'' \<or> is_digit (hd s)) then None
      else
        case leadingInt s of
          None \<Rightarrow> None
        | Some (v, s1) \<Rightarrow>
            let pre = (length s1 \<noteq> length s);
                dot = (s1 \<noteq> [] \<and> hd s1 = CHR ''.'');
                (f, scale, s2) = (if dot then leadingFraction (tl s1) else (0, 1, s1));
                post = (dot \<and> length s2 \<noteq> length (tl s1));
                u = takeWhile unit_char s2;
                s3 = dropWhile unit_char s2
            in if (\<not> pre \<and> \<not> post) \<or> u = [] then None
               else
                 case unitMap u of
                   None \<Rightarrow> None
                 | Some unit \<Rightarrow>
                     if 2 ^ 63 div unit < v then None
                     else
                       let v1 = v * unit;
                           v2 = (if 0 < f
                                 then v1 + int_of_float (fl (float_of_int f * fl (of_int unit / scale)))
                                 else v1)
                       in if 0 < f \<and> 2 ^ 63 < v2 then None else Some (v2, s3))"

lemma dropWhile_shorter: "takeWhile P s \<noteq> [] \<Longrightarrow> length (dropWhile P s) < length s"
  by (cases s) (auto split: if_splits intro!: le_imp_less_Suc length_dropWhile_le)

lemma leadingFraction_le: "leadingFraction s = (x, scale, r) \<Longrightarrow> length r \<le> length s"
  by (auto simp: leadingFraction_def length_dropWhile_le split: prod.splits)

lemma duration_term_shorter: "duration_term s = Some (v, r) \<Longrightarrow> length r < length s"
proof -
  assume d: "duration_term s = Some (v, r)"
  obtain v1 s1 where i: "leadingInt s = Some (v1, s1)"
    using d by (auto simp: duration_term_def split: if_splits option.splits)
  have s1: "length s1 \<le> length s"
    using i by (auto simp: leadingInt_def Let_def length_dropWhile_le split: if_splits)
  obtain s2 where s2: "length s2 \<le> length s1" "takeWhile unit_char s2 \<noteq> []" "r = dropWhile unit_char s2"
  proof (cases "s1 \<noteq> [] \<and> hd s1 = CHR ''.''")
    case True
    obtain f scale s2 where f: "leadingFraction (tl s1) = (f, scale, s2)" by (metis prod_cases3)
    then have "length s2 \<le> length s1" using leadingFraction_le [OF f] by simp
    then show ?thesis using that [of s2] d i True f
      by (auto simp: duration_term_def Let_def split: if_splits option.splits)
  next
    case False
    then show ?thesis using that [of s1] d i
      by (auto simp: duration_term_def Let_def split: if_splits option.splits)
  qed
  then show ?thesis using s1 dropWhile_shorter [of unit_char s2] by simp
qed

function duration_terms :: "int \<Rightarrow> string \<Rightarrow> int option" where
  "duration_terms d s =
     (if s = [] then Some d
      else
        case duration_term s of
          None \<Rightarrow> None
        | Some (v, r) \<Rightarrow>
            let d' = (d + v) mod 2 ^ 64
            in if 2 ^ 63 < d' then None else duration_terms d' r)"
  by pat_completeness auto
termination
  by (relation "measure (\<lambda>(d, s). length s)") (auto dest: duration_term_shorter)

declare duration_terms.simps [simp del]

definition ParseDuration :: "string \<Rightarrow> duration option" where
  "ParseDuration s0 =
     (let neg = (s0 \<noteq> [] \<and> hd s0 = CHR ''-'');
          s = (if s0 \<noteq> [] \<and> (hd s0 = CHR ''-'' \<or> hd s0 = CHR ''+'') then tl s0 else s0)
      in if s = ''0'' then Some 0
         else if s = [] then None
         else
           case duration_terms 0 s of
             None \<Rightarrow> None
           | Some d \<Rightarrow>
               if neg then Some (- d)
               else if 2 ^ 63 - 1 < d then None
               else Some d)"

section \<open>Facts\<close>

lemma duration_terms_range: "duration_terms d s = Some n \<Longrightarrow> 0 \<le> d \<Longrightarrow> d \<le> 2 ^ 63 \<Longrightarrow> 0 \<le> n \<and> n \<le> 2 ^ 63"
proof (induction d s rule: duration_terms.induct)
  case (1 d s)
  show ?case
  proof (cases "s = []")
    case True
    then show ?thesis using "1.prems" by (simp add: duration_terms.simps)
  next
    case False
    then obtain v r where t: "duration_term s = Some (v, r)"
      using "1.prems"(1) by (auto simp: duration_terms.simps [of d s] split: option.splits)
    let ?d = "(d + v) mod 2 ^ 64"
    have "\<not> 2 ^ 63 < ?d" "duration_terms ?d r = Some n"
      using "1.prems"(1) False t by (auto simp: duration_terms.simps [of d s] Let_def split: if_splits)
    then show ?thesis using "1.IH" [OF False t _ refl] by (simp add: not_less)
  qed
qed

lemma ParseDuration_in64: "ParseDuration s = Some d \<Longrightarrow> in64 d"
proof -
  have b: "duration_terms 0 t = Some n \<Longrightarrow> 0 \<le> n \<and> n \<le> 2 ^ 63" for t n
    using duration_terms_range [of 0 t n] by simp
  assume "ParseDuration s = Some d"
  then show ?thesis
    by (auto simp: ParseDuration_def Let_def in64_def split: if_splits option.splits dest!: b)
qed

end
