(* ===== verification/Go_Url.thy ===== *)
theory Go_Url
  imports Go_Http
begin

text \<open>
  \<open>url.Parse\<close> as the issuer check uses it. The rules for the host itself (brackets, colons,
  escapes) differ between releases of Go: \<open>parseHost\<close> is an argument, None for an error. The
  rest, that is the scheme, the split at the fragment, the query, the authority, the user part
  and the path, is spelled out.
\<close>

record url =
  u_Scheme :: string
  u_Opaque :: string
  u_User :: "string option"
  u_Host :: string
  u_Path :: string
  u_RawQuery :: string
  u_Fragment :: string

definition ctl_byte :: "char \<Rightarrow> bool" where
  "ctl_byte c \<longleftrightarrow> chr_code c < 32 \<or> chr_code c = 127"

definition is_alpha :: "char \<Rightarrow> bool" where
  "is_alpha c \<longleftrightarrow>
     (97 \<le> chr_code c \<and> chr_code c \<le> 122) \<or> (65 \<le> chr_code c \<and> chr_code c \<le> 90)"

definition scheme_char :: "char \<Rightarrow> bool" where
  "scheme_char c \<longleftrightarrow> is_alpha c \<or> is_digit c \<or> c \<in> {CHR ''+'', CHR ''-'', CHR ''.''}"

text \<open>\<open>getScheme\<close>: None for a leading colon; no scheme is the empty one.\<close>

definition getScheme :: "string \<Rightarrow> (string \<times> string) option" where
  "getScheme s =
     (let p = takeWhile scheme_char s; r = dropWhile scheme_char s in
      if r \<noteq> [] \<and> hd r = CHR '':'' then
        (if p = [] then None
         else if is_alpha (hd p) then Some (p, tl r)
         else Some ([], s))
      else Some ([], s))"

definition userinfo_char :: "char \<Rightarrow> bool" where
  "userinfo_char c \<longleftrightarrow> is_alpha c \<or> is_digit c \<or> c \<in> set ''-._:~!$&()*+,;=%@'' \<or> chr_code c = 39"

type_synonym host_parser = "string \<Rightarrow> string option"

definition parseAuthority :: "host_parser \<Rightarrow> string \<Rightarrow> (string option \<times> string) option" where
  "parseAuthority parseHost a =
     (case last_index CHR ''@'' a of
        None \<Rightarrow> map_option (\<lambda>h. (None, h)) (parseHost a)
      | Some i \<Rightarrow>
          (case parseHost (drop (Suc i) a) of
             None \<Rightarrow> None
           | Some h \<Rightarrow>
               let ui = take i a; (name, pass, found) = Cut CHR '':'' ui in
               if \<not> list_all userinfo_char ui \<or> path_unescape name = None \<or>
                  (found \<and> path_unescape pass = None)
               then None else Some (Some ui, h)))"

text \<open>The query part: a lone trailing question mark is dropped.\<close>

definition cutQuery :: "string \<Rightarrow> string \<times> string" where
  "cutQuery rest =
     (if rest \<noteq> [] \<and> last rest = CHR ''?'' \<and> count_list rest CHR ''?'' = 1
      then (butlast rest, [])
      else let (a, b, _) = Cut CHR ''?'' rest in (a, b))"

definition with_path :: "url \<Rightarrow> string \<Rightarrow> url option" where
  "with_path u p = map_option (\<lambda>q. u\<lparr>u_Path := q\<rparr>) (path_unescape p)"

definition parse_url :: "host_parser \<Rightarrow> string \<Rightarrow> url option" where
  "parse_url parseHost raw =
     (let zero = \<lparr>u_Scheme = [], u_Opaque = [], u_User = None, u_Host = [], u_Path = [],
                  u_RawQuery = [], u_Fragment = []\<rparr> in
      if list_ex ctl_byte raw then None
      else if raw = ''*'' then Some (zero\<lparr>u_Path := ''*''\<rparr>)
      else
        case getScheme raw of
          None \<Rightarrow> None
        | Some (sch, rest0) \<Rightarrow>
            let (rest, query) = cutQuery rest0;
                u = zero\<lparr>u_Scheme := to_lower sch, u_RawQuery := query\<rparr>
            in if \<not> HasPrefix rest ''/'' \<and> sch \<noteq> [] then Some (u\<lparr>u_Opaque := rest\<rparr>)
               else if \<not> HasPrefix rest ''/'' \<and> CHR '':'' \<in> set (fst (Cut CHR ''/'' rest)) then None
               else if (sch \<noteq> [] \<or> \<not> HasPrefix rest ''///'') \<and> HasPrefix rest ''//'' then
                 (let authority = takeWhile (\<lambda>c. c \<noteq> CHR ''/'') (drop 2 rest);
                      p = dropWhile (\<lambda>c. c \<noteq> CHR ''/'') (drop 2 rest)
                  in case parseAuthority parseHost authority of
                       None \<Rightarrow> None
                     | Some (user, host) \<Rightarrow> with_path (u\<lparr>u_User := user, u_Host := host\<rparr>) p)
               else with_path u rest)"

definition url_Parse :: "host_parser \<Rightarrow> string \<Rightarrow> url option" where
  "url_Parse parseHost raw =
     (let (u, frag, _) = Cut CHR ''#'' raw in
      case parse_url parseHost u of
        None \<Rightarrow> None
      | Some url \<Rightarrow>
          if frag = [] then Some url
          else map_option (\<lambda>f. url\<lparr>u_Fragment := f\<rparr>) (path_unescape frag))"

definition validOptionalPort :: "string \<Rightarrow> bool" where
  "validOptionalPort p \<longleftrightarrow> p = [] \<or> (hd p = CHR '':'' \<and> list_all is_digit (tl p))"

definition splitHostPort :: "string \<Rightarrow> string \<times> string" where
  "splitHostPort hp =
     (let (host, port) =
        (case last_index CHR '':'' hp of
           None \<Rightarrow> (hp, [])
         | Some i \<Rightarrow>
             if validOptionalPort (drop i hp) then (take i hp, drop (Suc i) hp) else (hp, []))
      in (if host \<noteq> [] \<and> hd host = CHR ''['' \<and> last host = CHR '']'' then butlast (tl host)
          else host, port))"

definition url_Hostname :: "url \<Rightarrow> string" where
  "url_Hostname u = fst (splitHostPort (u_Host u))"

definition url_Port :: "url \<Rightarrow> string" where
  "url_Port u = snd (splitHostPort (u_Host u))"

section \<open>Facts\<close>

lemma Cut_eq: "Cut c s = (a, b, f) \<Longrightarrow> s = (if f then a @ c # b else a) \<and> c \<notin> set a \<and> (\<not> f \<longrightarrow> b = [])"
proof -
  assume h: "Cut c s = (a, b, f)"
  show ?thesis
  proof (cases "c \<in> set s")
    case True
    then have d: "dropWhile (\<lambda>x. x \<noteq> c) s \<noteq> []" by (simp add: dropWhile_eq_Nil_conv)
    then have "hd (dropWhile (\<lambda>x. x \<noteq> c) s) = c" using hd_dropWhile [of "\<lambda>x. x \<noteq> c" s] by simp
    then have "dropWhile (\<lambda>x. x \<noteq> c) s = c # tl (dropWhile (\<lambda>x. x \<noteq> c) s)" using d
      by (metis list.collapse)
    then have "s = takeWhile (\<lambda>x. x \<noteq> c) s @ c # tl (dropWhile (\<lambda>x. x \<noteq> c) s)"
      by (metis takeWhile_dropWhile_id)
    then show ?thesis using h True by (auto simp: Cut_def dest: set_takeWhileD)
  qed (use h in \<open>auto simp: Cut_def\<close>)
qed

lemma path_unescape_Nil: "path_unescape s = Some [] \<longleftrightarrow> s = []"
  by (cases s) (auto split: if_splits list.splits option.splits)

lemma cutQuery_empty: "cutQuery rest = (a, []) \<Longrightarrow> (rest = a \<or> rest = a @ ''?'') \<and> CHR ''?'' \<notin> set a"
proof -
  assume h: "cutQuery rest = (a, [])"
  show ?thesis
  proof (cases "rest \<noteq> [] \<and> last rest = CHR ''?'' \<and> count_list rest CHR ''?'' = 1")
    case True
    then have a: "rest = a @ ''?''" using h append_butlast_last_id [of rest]
      by (auto simp: cutQuery_def)
    then have "count_list a CHR ''?'' = 0" using True by simp
    then show ?thesis using a by (simp add: count_list_0_iff)
  next
    case False
    obtain b f where c: "Cut CHR ''?'' rest = (a, b, f)" "b = []"
      using h False by (auto simp: cutQuery_def split: prod.splits if_splits)
    then show ?thesis using Cut_eq [OF c(1)] by auto
  qed
qed

end
