(* ===== verification/Config.thy ===== *)
theory Config
  imports Go_Duration Go_Url Go_Netip Logx
begin

text \<open>
  \<open>internal/config/config.go\<close>: the configuration read from the environment and its validation.
  The environment is a function from names to values, empty for unset, as \<open>os.Getenv\<close> has it.
  Errors are constructors in the order the code can return them.
\<close>

section \<open>The configuration\<close>

record config =
  c_IssuerURL :: string
  c_TSHostname :: string
  c_TSStateSecret :: string
  c_TSAPIClientID :: string
  c_TSAPIClientSecret :: string
  c_TSTag :: string
  c_HealthAddr :: string
  c_LeaderElectionEnabled :: bool
  c_LeaderElectionLeaseName :: string
  c_LeaderElectionNamespace :: string
  c_LeaderElectionIdentity :: string
  c_LeaderElectionLeaseDuration :: duration
  c_LeaderElectionRenewDeadline :: duration
  c_LeaderElectionRetryPeriod :: duration
  c_JWKSCacheTTL :: duration
  c_JWKSCacheMaxAgeHeader :: duration
  c_DiscoveryMaxAgeHeader :: duration
  c_SourceIPAllowlistEnabled :: bool
  c_SourceIPAllowlistCIDRs :: "prefix list"
  c_FunnelAddr :: string
  c_LogFormat :: string
  c_LogLevel :: int
  c_StartupFetchTimeout :: duration
  c_TSStartTimeout :: duration
  c_ShutdownTimeout :: duration
  c_TSStatusPollInterval :: duration

datatype config_error =
    BadDuration string
  | BadLogLevel string
  | BadLogFormat string
  | BadCIDR string
  | RemovedEnvVar string
  | IssuerRequired
  | IssuerUnparsable
  | IssuerScheme string
  | IssuerNoHost
  | IssuerPort string
  | IssuerPath string
  | IssuerQuery
  | IssuerFragment
  | IssuerUserinfo
  | Required string
  | BadTag string
  | AllowlistEmpty
  | LeaseNotAboveRenew duration duration
  | RenewNotAboveRetry duration duration
  | NotPositive string duration
  | TTLTooSmall duration

type_synonym env = "string \<Rightarrow> string"

definition envDefault :: "env \<Rightarrow> string \<Rightarrow> string \<Rightarrow> string" where
  "envDefault env name fallback = (if env name \<noteq> [] then env name else fallback)"

definition envBool :: "env \<Rightarrow> string \<Rightarrow> bool" where
  "envBool env name =
     (let v = to_lower (TrimSpace (env name)) in
      v = ''1'' \<or> v = ''true'' \<or> v = ''yes'' \<or> v = ''on'')"

definition envDuration :: "env \<Rightarrow> string \<Rightarrow> duration \<Rightarrow> (config_error, duration) result" where
  "envDuration env name fallback =
     (if env name = [] then Inr fallback
      else case ParseDuration (env name) of None \<Rightarrow> Inl (BadDuration name) | Some d \<Rightarrow> Inr d)"

definition parseLogLevel :: "string \<Rightarrow> (config_error, int) result" where
  "parseLogLevel s =
     (let l = to_lower (TrimSpace s) in
      if l = ''debug'' then Inr LevelDebug
      else if l = ''info'' \<or> l = [] then Inr LevelInfo
      else if l = ''warn'' \<or> l = ''warning'' then Inr LevelWarn
      else if l = ''error'' then Inr LevelError
      else case Atoi s of Some n \<Rightarrow> Inr n | None \<Rightarrow> Inl (BadLogLevel s))"

section \<open>Loading\<close>

text \<open>\<open>durationTarget\<close>: a name, a default, and the field that is set.\<close>

type_synonym durationTarget = "string \<times> duration \<times> (duration \<Rightarrow> config \<Rightarrow> config)"

text \<open>The default settings.\<close>

definition defaultJWKSCacheTTL :: duration where
  [simp]: "defaultJWKSCacheTTL = 60 * Second"

definition defaultJWKSCacheMaxAge :: duration where
  [simp]: "defaultJWKSCacheMaxAge = 60 * Second"

definition defaultDiscoveryMaxAge :: duration where
  [simp]: "defaultDiscoveryMaxAge = 3600 * Second"

definition defaultStartupFetchTimeout :: duration where
  [simp]: "defaultStartupFetchTimeout = 30 * Second"

definition defaultTSStartTimeout :: duration where
  [simp]: "defaultTSStartTimeout = 30 * Second"

definition defaultShutdownTimeout :: duration where
  [simp]: "defaultShutdownTimeout = 10 * Second"

definition defaultTSStatusPollInterval :: duration where
  [simp]: "defaultTSStatusPollInterval = 15 * Second"

definition defaultLeaderLeaseDuration :: duration where
  [simp]: "defaultLeaderLeaseDuration = 15 * Second"

definition defaultLeaderRenewDeadline :: duration where
  [simp]: "defaultLeaderRenewDeadline = 10 * Second"

definition defaultLeaderRetryPeriod :: duration where
  [simp]: "defaultLeaderRetryPeriod = 2 * Second"

definition duration_settings :: "durationTarget list" where
  "duration_settings =
     [(''JWKS_CACHE_TTL'', defaultJWKSCacheTTL, \<lambda>d c. c\<lparr>c_JWKSCacheTTL := d\<rparr>),
      (''JWKS_CACHE_MAX_AGE_HEADER'', defaultJWKSCacheMaxAge, \<lambda>d c. c\<lparr>c_JWKSCacheMaxAgeHeader := d\<rparr>),
      (''DISCOVERY_MAX_AGE_HEADER'', defaultDiscoveryMaxAge, \<lambda>d c. c\<lparr>c_DiscoveryMaxAgeHeader := d\<rparr>),
      (''STARTUP_FETCH_TIMEOUT'', defaultStartupFetchTimeout, \<lambda>d c. c\<lparr>c_StartupFetchTimeout := d\<rparr>),
      (''TS_START_TIMEOUT'', defaultTSStartTimeout, \<lambda>d c. c\<lparr>c_TSStartTimeout := d\<rparr>),
      (''SHUTDOWN_TIMEOUT'', defaultShutdownTimeout, \<lambda>d c. c\<lparr>c_ShutdownTimeout := d\<rparr>),
      (''TS_STATUS_POLL_INTERVAL'', defaultTSStatusPollInterval, \<lambda>d c. c\<lparr>c_TSStatusPollInterval := d\<rparr>),
      (''LEADER_ELECTION_LEASE_DURATION'', defaultLeaderLeaseDuration, \<lambda>d c. c\<lparr>c_LeaderElectionLeaseDuration := d\<rparr>),
      (''LEADER_ELECTION_RENEW_DEADLINE'', defaultLeaderRenewDeadline, \<lambda>d c. c\<lparr>c_LeaderElectionRenewDeadline := d\<rparr>),
      (''LEADER_ELECTION_RETRY_PERIOD'', defaultLeaderRetryPeriod, \<lambda>d c. c\<lparr>c_LeaderElectionRetryPeriod := d\<rparr>)]"

fun set_durations :: "env \<Rightarrow> durationTarget list \<Rightarrow> config \<Rightarrow> (config_error, config) result" where
  "set_durations env [] c = Inr c"
| "set_durations env ((name, dflt, upd) # ts) c =
     (case envDuration env name dflt of
        Inl e \<Rightarrow> Inl e
      | Inr d \<Rightarrow> set_durations env ts (upd d c))"

definition loadDurations :: "env \<Rightarrow> config \<Rightarrow> (config_error, config) result" where
  "loadDurations env c = set_durations env duration_settings c"

definition loadLogging :: "env \<Rightarrow> config \<Rightarrow> (config_error, config) result" where
  "loadLogging env c =
     (case parseLogLevel (envDefault env ''LOG_LEVEL'' ''info'') of
        Inl e \<Rightarrow> Inl e
      | Inr l \<Rightarrow>
          (let f = envDefault env ''LOG_FORMAT'' FormatJSON in
           case ParseFormat f of
             None \<Rightarrow> Inl (BadLogFormat f)
           | Some fmt \<Rightarrow> Inr (c\<lparr>c_LogLevel := l, c_LogFormat := fmt\<rparr>)))"

fun parse_cidrs :: "string list \<Rightarrow> prefix list \<Rightarrow> (config_error, prefix list) result" where
  "parse_cidrs [] acc = Inr acc"
| "parse_cidrs (raw # rest) acc =
     (let item = TrimSpace raw in
      if item = [] then parse_cidrs rest acc
      else case ParsePrefix item of
          None \<Rightarrow> Inl (BadCIDR item)
        | Some p \<Rightarrow> parse_cidrs rest (acc @ [p]))"

definition loadAllowlist :: "env \<Rightarrow> config \<Rightarrow> (config_error, config) result" where
  "loadAllowlist env c =
     (let c1 = c\<lparr>c_SourceIPAllowlistEnabled := envBool env ''SOURCE_IP_ALLOWLIST_ENABLED''\<rparr>;
          raw = env ''SOURCE_IP_ALLOWLIST_CIDRS''
      in if raw = [] then Inr c1
         else case parse_cidrs (split_on CHR '','' raw) (c_SourceIPAllowlistCIDRs c1) of
             Inl e \<Rightarrow> Inl e
           | Inr ps \<Rightarrow> Inr (c1\<lparr>c_SourceIPAllowlistCIDRs := ps\<rparr>))"

section \<open>Validation\<close>

definition removedEnvVars :: "string list" where
  "removedEnvVars =
     [''JWKS_UPSTREAM_URL'', ''TS_API_BASE_URL'', ''JWKS_UPSTREAM_TOKEN_PATH'',
      ''JWKS_UPSTREAM_CA_PATH'', ''DEV_LISTEN_ADDR'']"

definition validateRemovedEnvVars :: "env \<Rightarrow> (config_error, unit) result" where
  "validateRemovedEnvVars env =
     (case find (\<lambda>n. env n \<noteq> []) removedEnvVars of
        Some n \<Rightarrow> Inl (RemovedEnvVar n)
      | None \<Rightarrow> Inr ())"

definition validateIssuerURL :: "host_parser \<Rightarrow> config \<Rightarrow> (config_error, unit) result" where
  "validateIssuerURL parseHost c =
     (if c_IssuerURL c = [] then Inl IssuerRequired
      else
        case url_Parse parseHost (c_IssuerURL c) of
          None \<Rightarrow> Inl IssuerUnparsable
        | Some u \<Rightarrow>
            if u_Scheme u \<noteq> ''https'' then Inl (IssuerScheme (u_Scheme u))
            else if u_Host u = [] then Inl IssuerNoHost
            else if url_Port u \<noteq> [] then Inl (IssuerPort (url_Port u))
            else if u_Path u \<noteq> [] then Inl (IssuerPath (u_Path u))
            else if u_RawQuery u \<noteq> [] then Inl IssuerQuery
            else if u_Fragment u \<noteq> [] then Inl IssuerFragment
            else if u_User u \<noteq> None then Inl IssuerUserinfo
            else Inr ())"

definition validateProdRequired :: "config \<Rightarrow> (config_error, unit) result" where
  "validateProdRequired c =
     (if c_TSHostname c = [] then Inl (Required ''TS_HOSTNAME'')
      else if c_TSStateSecret c = [] then Inl (Required ''TS_STATE_SECRET'')
      else if c_TSAPIClientID c = [] then Inl (Required ''TS_API_CLIENT_ID'')
      else if c_TSAPIClientSecret c = [] then Inl (Required ''TS_API_CLIENT_SECRET'')
      else if c_TSTag c = [] then Inl (Required ''TS_TAG'')
      else if \<not> HasPrefix (c_TSTag c) ''tag:'' then Inl (BadTag (c_TSTag c))
      else Inr ())"

definition validateAllowlist :: "config \<Rightarrow> (config_error, unit) result" where
  "validateAllowlist c =
     (if c_SourceIPAllowlistEnabled c \<and> length (c_SourceIPAllowlistCIDRs c) = 0
      then Inl AllowlistEmpty else Inr ())"

definition validateLeaderElection :: "config \<Rightarrow> (config_error, unit) result" where
  "validateLeaderElection c =
     (if \<not> c_LeaderElectionEnabled c then Inr ()
      else if c_LeaderElectionLeaseName c = [] then Inl (Required ''LEADER_ELECTION_LEASE_NAME'')
      else if c_LeaderElectionNamespace c = [] then Inl (Required ''LEADER_ELECTION_NAMESPACE'')
      else if c_LeaderElectionIdentity c = [] then Inl (Required ''LEADER_ELECTION_IDENTITY'')
      else if c_LeaderElectionLeaseDuration c \<le> c_LeaderElectionRenewDeadline c
        then Inl (LeaseNotAboveRenew (c_LeaderElectionLeaseDuration c) (c_LeaderElectionRenewDeadline c))
      else if c_LeaderElectionRenewDeadline c \<le> c_LeaderElectionRetryPeriod c
        then Inl (RenewNotAboveRetry (c_LeaderElectionRenewDeadline c) (c_LeaderElectionRetryPeriod c))
      else Inr ())"

definition duration_checks :: "config \<Rightarrow> (string \<times> duration) list" where
  "duration_checks c =
     [(''JWKS_CACHE_TTL'', c_JWKSCacheTTL c),
      (''JWKS_CACHE_MAX_AGE_HEADER'', c_JWKSCacheMaxAgeHeader c),
      (''DISCOVERY_MAX_AGE_HEADER'', c_DiscoveryMaxAgeHeader c),
      (''STARTUP_FETCH_TIMEOUT'', c_StartupFetchTimeout c),
      (''TS_START_TIMEOUT'', c_TSStartTimeout c),
      (''SHUTDOWN_TIMEOUT'', c_ShutdownTimeout c),
      (''TS_STATUS_POLL_INTERVAL'', c_TSStatusPollInterval c),
      (''LEADER_ELECTION_LEASE_DURATION'', c_LeaderElectionLeaseDuration c),
      (''LEADER_ELECTION_RENEW_DEADLINE'', c_LeaderElectionRenewDeadline c),
      (''LEADER_ELECTION_RETRY_PERIOD'', c_LeaderElectionRetryPeriod c)]"

definition minJWKSCacheTTL :: duration where "minJWKSCacheTTL = 5 * Second"

definition validateDurations :: "config \<Rightarrow> (config_error, unit) result" where
  "validateDurations c =
     (case find (\<lambda>(n, d). d \<le> 0) (duration_checks c) of
        Some (n, d) \<Rightarrow> Inl (NotPositive n d)
      | None \<Rightarrow>
          if c_JWKSCacheTTL c < minJWKSCacheTTL then Inl (TTLTooSmall (c_JWKSCacheTTL c)) else Inr ())"

definition validate :: "host_parser \<Rightarrow> env \<Rightarrow> config \<Rightarrow> (config_error, unit) result" where
  "validate parseHost env c =
     and_then (validateRemovedEnvVars env) (\<lambda>_.
     and_then (validateIssuerURL parseHost c) (\<lambda>_.
     and_then (validateProdRequired c) (\<lambda>_.
     and_then (validateAllowlist c) (\<lambda>_.
     and_then (validateLeaderElection c) (\<lambda>_.
     validateDurations c)))))"

definition initial_config :: "env \<Rightarrow> config" where
  "initial_config env =
     \<lparr>c_IssuerURL = env ''ISSUER_URL'', c_TSHostname = env ''TS_HOSTNAME'',
      c_TSStateSecret = env ''TS_STATE_SECRET'', c_TSAPIClientID = env ''TS_API_CLIENT_ID'',
      c_TSAPIClientSecret = env ''TS_API_CLIENT_SECRET'', c_TSTag = env ''TS_TAG'',
      c_HealthAddr = envDefault env ''HEALTH_ADDR'' '':8080'',
      c_LeaderElectionEnabled = envBool env ''LEADER_ELECTION_ENABLED'',
      c_LeaderElectionLeaseName = env ''LEADER_ELECTION_LEASE_NAME'',
      c_LeaderElectionNamespace = envDefault env ''LEADER_ELECTION_NAMESPACE'' (env ''POD_NAMESPACE''),
      c_LeaderElectionIdentity = envDefault env ''LEADER_ELECTION_IDENTITY'' (env ''POD_NAME''),
      c_LeaderElectionLeaseDuration = 0, c_LeaderElectionRenewDeadline = 0,
      c_LeaderElectionRetryPeriod = 0, c_JWKSCacheTTL = 0, c_JWKSCacheMaxAgeHeader = 0,
      c_DiscoveryMaxAgeHeader = 0, c_SourceIPAllowlistEnabled = False,
      c_SourceIPAllowlistCIDRs = [], c_FunnelAddr = envDefault env ''FUNNEL_ADDR'' '':443'',
      c_LogFormat = [], c_LogLevel = 0, c_StartupFetchTimeout = 0, c_TSStartTimeout = 0,
      c_ShutdownTimeout = 0, c_TSStatusPollInterval = 0\<rparr>"

definition Load :: "host_parser \<Rightarrow> env \<Rightarrow> (config_error, config) result" where
  "Load parseHost env =
     and_then (loadDurations env (initial_config env)) (\<lambda>c1.
     and_then (loadLogging env c1) (\<lambda>c2.
     and_then (loadAllowlist env c2) (\<lambda>c3.
     and_then (validate parseHost env c3) (\<lambda>_. Inr c3))))"

section \<open>What each step leaves\<close>

lemma envDuration_in64: "envDuration env n d = Inr x \<Longrightarrow> in64 d \<Longrightarrow> in64 x"
  by (auto simp: envDuration_def split: if_splits option.splits dest: ParseDuration_in64)

definition durations_in64 :: "config \<Rightarrow> bool" where
  "durations_in64 c \<longleftrightarrow> (\<forall>(n, d) \<in> set (duration_checks c). in64 d)"

text \<open>The fields the duration loop does not set.\<close>

definition same_but_durations :: "config \<Rightarrow> config \<Rightarrow> bool" where
  "same_but_durations c c' \<longleftrightarrow>
     (\<exists>d1 d2 d3 d4 d5 d6 d7 d8 d9 d10. c' = c
       \<lparr>c_JWKSCacheTTL := d1, c_JWKSCacheMaxAgeHeader := d2, c_DiscoveryMaxAgeHeader := d3,
        c_StartupFetchTimeout := d4, c_TSStartTimeout := d5, c_ShutdownTimeout := d6,
        c_TSStatusPollInterval := d7, c_LeaderElectionLeaseDuration := d8,
        c_LeaderElectionRenewDeadline := d9, c_LeaderElectionRetryPeriod := d10\<rparr>)"

lemma loadDurations_ok:
  assumes "loadDurations env c = Inr c'"
  shows "durations_in64 c' \<and> same_but_durations c c'"
proof -
  obtain d1 d2 d3 d4 d5 d6 d7 d8 d9 d10 where
    e: "envDuration env ''JWKS_CACHE_TTL'' (60 * Second) = Inr d1"
      "envDuration env ''JWKS_CACHE_MAX_AGE_HEADER'' (60 * Second) = Inr d2"
      "envDuration env ''DISCOVERY_MAX_AGE_HEADER'' (3600 * Second) = Inr d3"
      "envDuration env ''STARTUP_FETCH_TIMEOUT'' (30 * Second) = Inr d4"
      "envDuration env ''TS_START_TIMEOUT'' (30 * Second) = Inr d5"
      "envDuration env ''SHUTDOWN_TIMEOUT'' (10 * Second) = Inr d6"
      "envDuration env ''TS_STATUS_POLL_INTERVAL'' (15 * Second) = Inr d7"
      "envDuration env ''LEADER_ELECTION_LEASE_DURATION'' (15 * Second) = Inr d8"
      "envDuration env ''LEADER_ELECTION_RENEW_DEADLINE'' (10 * Second) = Inr d9"
      "envDuration env ''LEADER_ELECTION_RETRY_PERIOD'' (2 * Second) = Inr d10"
    and c': "c' = c
       \<lparr>c_JWKSCacheTTL := d1, c_JWKSCacheMaxAgeHeader := d2, c_DiscoveryMaxAgeHeader := d3,
        c_StartupFetchTimeout := d4, c_TSStartTimeout := d5, c_ShutdownTimeout := d6,
        c_TSStatusPollInterval := d7, c_LeaderElectionLeaseDuration := d8,
        c_LeaderElectionRenewDeadline := d9, c_LeaderElectionRetryPeriod := d10\<rparr>"
    using assms by (simp add: loadDurations_def duration_settings_def split: sum.splits)
  have "in64 (k * Second)" if "k \<in> {60, 3600, 30, 10, 15, 2}" for k
    using that by (auto simp: in64_def Second_def)
  then have "durations_in64 c'"
    using e [THEN envDuration_in64] by (simp add: durations_in64_def duration_checks_def c')
  moreover have "same_but_durations c c'" unfolding same_but_durations_def using c' by blast
  ultimately show ?thesis by blast
qed

lemma parse_cidrs_valid:
  "parse_cidrs rs acc = Inr ps \<Longrightarrow> list_all prefix_IsValid acc \<Longrightarrow> list_all prefix_IsValid ps"
proof (induction rs arbitrary: acc)
  case (Cons r rs)
  show ?case
  proof (cases "TrimSpace r = []")
    case True
    then show ?thesis using Cons.prems Cons.IH [of acc] by (simp add: Let_def)
  next
    case False
    then obtain p where p: "ParsePrefix (TrimSpace r) = Some p" "parse_cidrs rs (acc @ [p]) = Inr ps"
      using Cons.prems(1) by (simp add: Let_def split: option.splits)
    then show ?thesis using Cons.IH [of "acc @ [p]"] Cons.prems(2) ParsePrefix_valid [OF p(1)] by simp
  qed
qed simp

section \<open>The issuer\<close>

text \<open>
  The form of an issuer: the https scheme, an authority without path, query, fragment, user or port
  that parses to \<open>host\<close>, and what follows it. \<open>docs/reference/config.md\<close> asks for a host and nothing
  after it; the code accepts more, a delimiter that the parser drops and a host that is empty but
  for a colon.
\<close>

definition issuer_form :: "host_parser \<Rightarrow> string \<Rightarrow> string \<Rightarrow> string \<Rightarrow> bool" where
  "issuer_form parseHost s tail host \<longleftrightarrow>
     (\<exists>sch auth. s = sch @ ''://'' @ auth @ tail \<and> to_lower sch = ''https'' \<and>
        CHR ''/'' \<notin> set auth \<and> CHR ''?'' \<notin> set auth \<and> CHR ''#'' \<notin> set auth \<and> CHR ''@'' \<notin> set auth \<and>
        parseHost auth = Some host \<and> host \<noteq> [] \<and> snd (splitHostPort host) = [])"

definition documented_issuer :: "host_parser \<Rightarrow> string \<Rightarrow> bool" where
  "documented_issuer parseHost s \<longleftrightarrow>
     (\<exists>host. issuer_form parseHost s [] host \<and> fst (splitHostPort host) \<noteq> [])"

definition accepted_issuer :: "host_parser \<Rightarrow> string \<Rightarrow> bool" where
  "accepted_issuer parseHost s \<longleftrightarrow>
     (\<exists>host. \<exists>tail \<in> {[], ''?'', ''#'', ''?#''}. issuer_form parseHost s tail host)"

lemma accepted_cases:
  assumes "accepted_issuer parseHost s"
  shows "documented_issuer parseHost s \<or> last s \<in> {CHR ''?'', CHR ''#''} \<or>
    (\<exists>host. issuer_form parseHost s [] host \<and> fst (splitHostPort host) = [])"
proof -
  obtain host tail where f: "issuer_form parseHost s tail host" and t: "tail \<in> {[], ''?'', ''#'', ''?#''}"
    using assms unfolding accepted_issuer_def by blast
  show ?thesis
  proof (cases "tail = []")
    case False
    then have "last s = last tail" using f by (auto simp: issuer_form_def)
    then show ?thesis using t False by auto
  qed (use f in \<open>auto simp: documented_issuer_def\<close>)
qed

lemma getScheme_eq:
  assumes "getScheme s = Some (sch, rest)" and "sch \<noteq> []"
  shows "s = sch @ CHR '':'' # rest"
proof -
  let ?p = "takeWhile scheme_char s" and ?r = "dropWhile scheme_char s"
  have "sch = ?p" "rest = tl ?r" "?r \<noteq> []" "hd ?r = CHR '':''"
    using assms by (auto simp: getScheme_def Let_def split: if_splits)
  then have "?r = CHR '':'' # rest" by (cases ?r) simp_all
  then show ?thesis using takeWhile_dropWhile_id [of scheme_char s] \<open>sch = ?p\<close> by simp
qed

lemma with_path_empty: "with_path u p = Some v \<Longrightarrow> u_Path v = [] \<Longrightarrow> p = [] \<and> v = u\<lparr>u_Path := []\<rparr>"
  by (auto simp: with_path_def path_unescape_Nil)

lemma parseAuthority_plain:
  "parseAuthority ph a = Some (None, h) \<longleftrightarrow> ph a = Some h \<and> CHR ''@'' \<notin> set a"
proof (cases "last_index CHR ''@'' a")
  case None
  then have "CHR ''@'' \<notin> set a" by simp
  then show ?thesis using None
    by (simp del: last_index_None add: parseAuthority_def map_option_case split: option.splits)
next
  case (Some i)
  then have "CHR ''@'' \<in> set a" using last_index_None [of "CHR ''@''" a] by auto
  then show ?thesis using Some
    by (auto simp: parseAuthority_def Let_def split: option.splits prod.splits if_splits)
qed

lemma parse_url_host:
  assumes "parse_url ph s = Some u" and "u_Host u \<noteq> []" and "u_Scheme u = ''https''"
    and "u_Path u = []" and "u_RawQuery u = []" and "u_User u = None"
  shows "\<exists>sch auth q. s = sch @ ''://'' @ auth @ q \<and> to_lower sch = ''https'' \<and> q \<in> {[], ''?''} \<and>
    CHR ''/'' \<notin> set auth \<and> CHR ''?'' \<notin> set auth \<and> CHR ''@'' \<notin> set auth \<and> ph auth = Some (u_Host u)"
proof -
  obtain sch rest0 where g: "getScheme s = Some (sch, rest0)"
    using assms(1,2) by (auto simp: parse_url_def Let_def split: if_splits option.splits)
  obtain rest query where c: "cutQuery rest0 = (rest, query)" by fastforce
  let ?auth = "takeWhile (\<lambda>c. c \<noteq> CHR ''/'') (drop 2 rest)"
  let ?p = "dropWhile (\<lambda>c. c \<noteq> CHR ''/'') (drop 2 rest)"
  have pre: "HasPrefix rest ''//''"
    using assms(1,2) g c
    by (auto simp: parse_url_def Let_def with_path_def split: if_splits option.splits)
  have r: "rest = ''//'' @ ?auth @ ?p" using HasPrefix_eq [OF pre] by (simp add: numeral_2_eq_2)
  obtain user host where a: "parseAuthority ph ?auth = Some (user, host)"
    and w: "with_path \<lparr>u_Scheme = to_lower sch, u_Opaque = [], u_User = user, u_Host = host,
      u_Path = [], u_RawQuery = query, u_Fragment = []\<rparr> ?p = Some u"
    using assms(1,2) g c pre
    by (auto simp: parse_url_def Let_def with_path_def split: if_splits option.splits prod.splits)
  from with_path_empty [OF w assms(4)] have p: "?p = []"
    and u: "u = \<lparr>u_Scheme = to_lower sch, u_Opaque = [], u_User = user, u_Host = host,
      u_Path = [], u_RawQuery = query, u_Fragment = []\<rparr>" by auto
  have sch: "to_lower sch = ''https''" "sch \<noteq> []" using u assms(3) by auto
  have s: "s = sch @ CHR '':'' # rest0" using getScheme_eq [OF g] sch(2) by blast
  have q: "rest0 = rest \<or> rest0 = rest @ ''?''" "CHR ''?'' \<notin> set rest"
    using cutQuery_empty [of rest0 rest] c u assms(5) by auto
  have auth: "ph ?auth = Some (u_Host u)" "CHR ''@'' \<notin> set ?auth"
    using a u assms(6) by (auto simp: parseAuthority_plain)
  have no: "CHR ''/'' \<notin> set ?auth" "CHR ''?'' \<notin> set ?auth"
    using q(2) by (blast dest: set_takeWhileD in_set_dropD)+
  have "rest = ''//'' @ ?auth" using r p by simp
  moreover obtain tl where "rest0 = rest @ tl" "tl \<in> {[], ''?''}" using q(1) by auto
  ultimately have "s = sch @ ''://'' @ ?auth @ tl" "tl \<in> {[], ''?''}" using s by auto
  then show ?thesis using sch(1) auth no by blast
qed

lemma issuer_accepted:
  assumes "validateIssuerURL ph c = Inr ()"
  shows "accepted_issuer ph (c_IssuerURL c)"
proof -
  obtain u where u: "url_Parse ph (c_IssuerURL c) = Some u" "u_Scheme u = ''https''" "u_Host u \<noteq> []"
      "url_Port u = []" "u_Path u = []" "u_RawQuery u = []" "u_Fragment u = []" "u_User u = None"
    using assms by (auto simp: validateIssuerURL_def split: if_splits option.splits)
  obtain s frag b where cut: "Cut CHR ''#'' (c_IssuerURL c) = (s, frag, b)" by (metis prod_cases3)
  have "frag = []" and p: "parse_url ph s = Some u"
    using u(1,7) cut by (auto simp: url_Parse_def path_unescape_Nil split: option.splits if_splits)
  then have i: "c_IssuerURL c = s \<or> c_IssuerURL c = s @ ''#''" "CHR ''#'' \<notin> set s"
    using Cut_eq [OF cut] by auto
  obtain sch auth q where r: "s = sch @ ''://'' @ auth @ q" "to_lower sch = ''https''"
      "q \<in> {[], ''?''}" "CHR ''/'' \<notin> set auth" "CHR ''?'' \<notin> set auth" "CHR ''@'' \<notin> set auth"
      "ph auth = Some (u_Host u)"
    using parse_url_host [OF p u(3,2,5,6,8)] by blast
  have "c_IssuerURL c = sch @ ''://'' @ auth @ (q @ (if c_IssuerURL c = s then [] else ''#''))"
    using i(1) r(1) by auto
  moreover have "q @ (if c_IssuerURL c = s then [] else ''#'') \<in> {[], ''?'', ''#'', ''?#''}"
    using r(3) by auto
  moreover have "CHR ''#'' \<notin> set auth" using i(2) r(1) by simp
  moreover have "snd (splitHostPort (u_Host u)) = []" using u(4) by (simp add: url_Port_def)
  ultimately show ?thesis unfolding accepted_issuer_def issuer_form_def using r(2,4-7) u(3) by blast
qed

section \<open>Properties\<close>

text \<open>What the rest of the program may rely on.\<close>

definition valid_config :: "host_parser \<Rightarrow> config \<Rightarrow> bool" where
  "valid_config parseHost c \<longleftrightarrow>
     accepted_issuer parseHost (c_IssuerURL c) \<and>
     c_TSHostname c \<noteq> [] \<and> c_TSStateSecret c \<noteq> [] \<and> c_TSAPIClientID c \<noteq> [] \<and>
     c_TSAPIClientSecret c \<noteq> [] \<and> HasPrefix (c_TSTag c) ''tag:'' \<and>
     list_all prefix_IsValid (c_SourceIPAllowlistCIDRs c) \<and>
     (c_SourceIPAllowlistEnabled c \<longrightarrow> c_SourceIPAllowlistCIDRs c \<noteq> []) \<and>
     (c_LeaderElectionEnabled c \<longrightarrow>
        c_LeaderElectionLeaseName c \<noteq> [] \<and> c_LeaderElectionNamespace c \<noteq> [] \<and>
        c_LeaderElectionIdentity c \<noteq> [] \<and>
        c_LeaderElectionRetryPeriod c < c_LeaderElectionRenewDeadline c \<and>
        c_LeaderElectionRenewDeadline c < c_LeaderElectionLeaseDuration c) \<and>
     (\<forall>(n, d) \<in> set (duration_checks c). 0 < d \<and> d < 2 ^ 63) \<and>
     5 * Second \<le> c_JWKSCacheTTL c \<and>
     c_LogFormat c \<in> {''json'', ''text''}"

lemma validate_ok:
  "validate ph env c = Inr u \<Longrightarrow>
     validateRemovedEnvVars env = Inr () \<and> validateIssuerURL ph c = Inr () \<and>
     validateProdRequired c = Inr () \<and> validateAllowlist c = Inr () \<and>
     validateLeaderElection c = Inr () \<and> validateDurations c = Inr ()"
  by (simp add: validate_def and_then_Inr)

lemma validateDurations_ok:
  assumes "validateDurations c = Inr ()"
  shows "(\<forall>(n, d) \<in> set (duration_checks c). 0 < d) \<and> 5 * Second \<le> c_JWKSCacheTTL c"
proof -
  have "find (\<lambda>(n, d). d \<le> 0) (duration_checks c) = None" "\<not> c_JWKSCacheTTL c < minJWKSCacheTTL"
    using assms by (auto simp: validateDurations_def split: option.splits if_splits)
  then show ?thesis by (simp add: find_None_iff case_prod_beta minJWKSCacheTTL_def not_le Ball_def)
qed

lemma Load_steps:
  assumes "Load ph env = Inr c"
  shows "validate ph env c = Inr () \<and> durations_in64 c \<and> list_all prefix_IsValid (c_SourceIPAllowlistCIDRs c) \<and>
    c_LogFormat c \<in> {''json'', ''text''}"
proof -
  obtain c1 c2 where l: "loadDurations env (initial_config env) = Inr c1" "loadLogging env c1 = Inr c2"
      "loadAllowlist env c2 = Inr c" "validate ph env c = Inr ()"
    using assms by (auto simp: Load_def and_then_Inr)
  have c1: "durations_in64 c1" "c_SourceIPAllowlistCIDRs c1 = []"
    using loadDurations_ok [OF l(1)] by (auto simp: same_but_durations_def initial_config_def)
  have c2: "durations_in64 c2" "c_SourceIPAllowlistCIDRs c2 = []" "c_LogFormat c2 \<in> {''json'', ''text''}"
    using l(2) c1 by (auto simp: loadLogging_def Let_def ParseFormat_def FormatJSON_def FormatText_def
        durations_in64_def duration_checks_def split: sum.splits option.splits if_splits)
  have "durations_in64 c" "c_LogFormat c \<in> {''json'', ''text''}"
    using l(3) c2 by (auto simp: loadAllowlist_def Let_def durations_in64_def duration_checks_def
        split: sum.splits if_splits)
  moreover have "list_all prefix_IsValid (c_SourceIPAllowlistCIDRs c)"
    using l(3) c2(2) parse_cidrs_valid [of _ "[]"]
    by (auto simp: loadAllowlist_def Let_def split: sum.splits if_splits)
  ultimately show ?thesis using l(4) by blast
qed

lemma Load_valid: "Load ph env = Inr c \<Longrightarrow> valid_config ph c"
proof -
  assume "Load ph env = Inr c"
  note s = Load_steps [OF this]
  note v = validate_ok [OF s [THEN conjunct1]]
  have d: "\<forall>(n, d) \<in> set (duration_checks c). 0 < d \<and> d < 2 ^ 63" "5 * Second \<le> c_JWKSCacheTTL c"
    using validateDurations_ok [of c] v s by (auto simp: durations_in64_def in64_def)
  have p: "c_TSHostname c \<noteq> [] \<and> c_TSStateSecret c \<noteq> [] \<and> c_TSAPIClientID c \<noteq> [] \<and>
     c_TSAPIClientSecret c \<noteq> [] \<and> HasPrefix (c_TSTag c) ''tag:''"
    using v by (auto simp: validateProdRequired_def split: if_splits)
  have a: "c_SourceIPAllowlistEnabled c \<longrightarrow> c_SourceIPAllowlistCIDRs c \<noteq> []"
    using v by (auto simp: validateAllowlist_def split: if_splits)
  have l: "c_LeaderElectionEnabled c \<longrightarrow>
        c_LeaderElectionLeaseName c \<noteq> [] \<and> c_LeaderElectionNamespace c \<noteq> [] \<and>
        c_LeaderElectionIdentity c \<noteq> [] \<and>
        c_LeaderElectionRetryPeriod c < c_LeaderElectionRenewDeadline c \<and>
        c_LeaderElectionRenewDeadline c < c_LeaderElectionLeaseDuration c"
    using v by (auto simp: validateLeaderElection_def split: if_splits)
  have h: "accepted_issuer ph (c_IssuerURL c)" using v issuer_accepted by blast
  show ?thesis unfolding valid_config_def using h p a l d s by blast
qed

text \<open>A minimal environment, and a host rule for its witness: letters, digits, dots, hyphens.\<close>

definition plain_host :: host_parser where
  "plain_host h =
     (if list_all (\<lambda>c. is_alpha c \<or> is_digit c \<or> c = CHR ''.'' \<or> c = CHR ''-'') h then Some h else None)"

definition sample_vars :: "(string \<times> string) list" where
  "sample_vars =
     [(''ISSUER_URL'', ''https://a.ts.net''), (''TS_HOSTNAME'', ''a''), (''TS_STATE_SECRET'', ''s''),
      (''TS_API_CLIENT_ID'', ''i''), (''TS_API_CLIENT_SECRET'', ''k''), (''TS_TAG'', ''tag:t''),
      (''SOURCE_IP_ALLOWLIST_ENABLED'', ''true''), (''SOURCE_IP_ALLOWLIST_CIDRS'', ''10.0.0.0/8'')]"

definition vars :: "(string \<times> string) list \<Rightarrow> env" where
  "vars vs name = (case map_of vs name of None \<Rightarrow> [] | Some v \<Rightarrow> v)"

definition sample_config :: config where
  "sample_config = (case Load plain_host (vars sample_vars) of Inr c \<Rightarrow> c | Inl _ \<Rightarrow> initial_config (vars []))"

lemma sample_Load: "Load plain_host (vars sample_vars) = Inr sample_config"
proof -
  have "is_ok (Load plain_host (vars sample_vars))" by code_simp
  then show ?thesis by (auto simp: is_ok_iff sample_config_def)
qed

text \<open>C9: A configuration that loads is valid. The Tailscale settings are there, an enabled allowlist
  has at least one network and every network is a valid prefix, the election's timings are ordered,
  every duration is positive and fits its type, so that no ticker is created with a period that
  panics, and the refresh interval is at least five seconds. The issuer is an https URL without path,
  query, fragment, user or port and with a host name, as documented, in all but two cases that the
  code lets through: it ends in a question mark or a hash sign (\<open>issuer_trailing_delimiter_accepted\<close>),
  or its host has no name, as in \<open>https://:\<close> (\<open>colon_issuer_disables_host_check\<close>).\<close>

theorem Load_valid_config:
  assumes "Load parseHost env = Inr c"
  shows "valid_config parseHost c \<and>
    (documented_issuer parseHost (c_IssuerURL c) \<or> last (c_IssuerURL c) \<in> {CHR ''?'', CHR ''#''} \<or>
     (\<exists>host. issuer_form parseHost (c_IssuerURL c) [] host \<and> fst (splitHostPort host) = []))"
proof -
  have v: "valid_config parseHost c" using assms by (rule Load_valid)
  then have "accepted_issuer parseHost (c_IssuerURL c)" by (simp add: valid_config_def)
  then show ?thesis using v accepted_cases by blast
qed

theorem Load_valid_config_witness: "valid_config plain_host sample_config"
  using Load_valid_config [OF sample_Load] by blast

lemma Cut_absent: "c \<notin> set s \<Longrightarrow> Cut c s = (s, [], False)"
  by (simp add: Cut_def)

lemma Cut_last: "c \<notin> set s \<Longrightarrow> Cut c (s @ [c]) = (s, [], True)"
  by (simp add: Cut_def takeWhile_append dropWhile_append)

lemma getScheme_https: "getScheme (''https:'' @ r) = Some (''https'', r)"
  by (simp add: getScheme_def scheme_char_def is_alpha_def is_digit_def)

lemma cutQuery_none: "CHR ''?'' \<notin> set r \<Longrightarrow> cutQuery r = (r, [])"
  by (auto simp: cutQuery_def Cut_absent)

lemma cutQuery_last: "CHR ''?'' \<notin> set r \<Longrightarrow> cutQuery (r @ ''?'') = (r, [])"
  by (simp add: cutQuery_def count_list_0_iff)

lemma parse_url_https:
  assumes "list_all (\<lambda>c. \<not> ctl_byte c) a" and "CHR ''/'' \<notin> set a" and "CHR ''?'' \<notin> set a"
    and "CHR ''@'' \<notin> set a" and "ph a = Some h" and "q \<in> {[], ''?''}"
  shows "parse_url ph (''https://'' @ a @ q) = Some
    \<lparr>u_Scheme = ''https'', u_Opaque = [], u_User = None, u_Host = h, u_Path = [], u_RawQuery = [],
     u_Fragment = []\<rparr>"
proof -
  have ctl: "\<not> list_ex ctl_byte (''https://'' @ a @ q)"
    using assms(1,6) by (auto simp: list_ex_iff list_all_iff ctl_byte_def)
  have sch: "getScheme (''https://'' @ a @ q) = Some (''https'', ''//'' @ a @ q)"
    using getScheme_https [of "''//'' @ a @ q"] by simp
  have q: "cutQuery (''//'' @ a @ q) = (''//'' @ a, [])"
    using assms(3,6) cutQuery_none [of "''//'' @ a"] cutQuery_last [of "''//'' @ a"] by auto
  have l: "to_lower ''https'' = ''https''" by code_simp
  have w: "takeWhile (\<lambda>c. c \<noteq> CHR ''/'') a = a" "dropWhile (\<lambda>c. c \<noteq> CHR ''/'') a = []"
    using assms(2) by (auto intro: takeWhile_all)
  have pre: "HasPrefix (''//'' @ a) ''/''" "HasPrefix (''//'' @ a) ''//''" "drop 2 (''//'' @ a) = a"
    by (simp_all add: HasPrefix_def)
  have pa: "parseAuthority ph a = Some (None, h)" using assms(4,5) by (simp add: parseAuthority_plain)
  show ?thesis
    unfolding parse_url_def Let_def using ctl
    by (simp only: sch q option.case prod.case l pre w pa if_False if_True simp_thms)
      (simp add: with_path_def)
qed

text \<open>C38: The host-only check has a gap. An issuer with a trailing question mark or hash (or
  both) passes it although what the program then appends to it, the key path, lands in a query or
  a fragment: the published \<open>jwks_uri\<close> is not a path this process serves.\<close>

theorem issuer_trailing_delimiter_accepted:
  assumes "list_all (\<lambda>c. \<not> ctl_byte c) a" and "set a \<inter> {CHR ''/'', CHR ''?'', CHR ''@'', CHR ''#''} = {}"
    and "parseHost a = Some h" and "h \<noteq> []" and "snd (splitHostPort h) = []"
    and "c_IssuerURL c = ''https://'' @ a @ tail" and "tail \<in> {[], ''?'', ''#'', ''?#''}"
  shows "validateIssuerURL parseHost c = Inr ()"
proof -
  have p: "parse_url parseHost (''https://'' @ a @ q) = Some
    \<lparr>u_Scheme = ''https'', u_Opaque = [], u_User = None, u_Host = h, u_Path = [], u_RawQuery = [],
     u_Fragment = []\<rparr>" if "q \<in> {[], ''?''}" for q
    using assms(1-3) that by (intro parse_url_https) auto
  have c0: "Cut CHR ''#'' (''https://'' @ a @ q) = (''https://'' @ a @ q, [], False)"
    "Cut CHR ''#'' ((''https://'' @ a @ q) @ ''#'') = (''https://'' @ a @ q, [], True)"
    if "q \<in> {[], ''?''}" for q
    using assms(2) that by (intro Cut_absent Cut_last; auto)+
  have "url_Parse parseHost (c_IssuerURL c) = Some
    \<lparr>u_Scheme = ''https'', u_Opaque = [], u_User = None, u_Host = h, u_Path = [], u_RawQuery = [],
     u_Fragment = []\<rparr>"
    using assms(6,7) p [of "[]"] p [of "''?''"] c0 [of "[]"] c0 [of "''?''"]
    by (auto simp: url_Parse_def)
  then show ?thesis using assms(4-6)
    by (simp add: validateIssuerURL_def url_Port_def)
qed

theorem issuer_trailing_delimiter_accepted_witness:
  "validateIssuerURL plain_host (sample_config\<lparr>c_IssuerURL := ''https://a.ts.net?''\<rparr>) = Inr ()"
proof (rule issuer_trailing_delimiter_accepted [of "''a.ts.net''" plain_host "''a.ts.net''" _ "''?''"])
  show "list_all (\<lambda>c. \<not> ctl_byte c) ''a.ts.net''" by (simp add: ctl_byte_def)
  show "plain_host ''a.ts.net'' = Some ''a.ts.net''" by code_simp
  show "snd (splitHostPort ''a.ts.net'') = []" by code_simp
qed auto

text \<open>Durations are bounded but their sum is not: there is an environment that loads and whose
  stale window, maximum age plus refresh interval, exceeds the \<open>int64\<close> range.\<close>

lemma config_admits_overflow:
  "\<exists>parseHost env c. Load parseHost env = Inr c \<and> 2 ^ 63 \<le> c_JWKSCacheMaxAgeHeader c + c_JWKSCacheTTL c"
proof -
  let ?env = "vars ((''JWKS_CACHE_TTL'', ''1500000h'') # (''JWKS_CACHE_MAX_AGE_HEADER'', ''1500000h'') #
      sample_vars)"
  have "case Load plain_host ?env of Inl e \<Rightarrow> False
      | Inr c \<Rightarrow> 2 ^ 63 \<le> c_JWKSCacheMaxAgeHeader c + c_JWKSCacheTTL c" by code_simp
  then show ?thesis by (cases "Load plain_host ?env") auto
qed

end
