(* ===== verification/Tsrunner_Log.thy ===== *)
theory Tsrunner_Log
  imports Errors Logx
begin

text \<open>
  \<open>internal/tsrunner/logging.go\<close>: the runner's log records and the reduction of its errors to a
  kind and a summary. A Go \<open>error\<close> that may be nil is an option.
\<close>

definition metricsSuccess :: string where "metricsSuccess = ''success''"
definition metricsFailure :: string where "metricsFailure = ''failure''"

definition runnerErrorKind :: "go_error option \<Rightarrow> string" where
  "runnerErrorKind eo =
     (case eo of
        None \<Rightarrow> ''unexpected_state''
      | Some e \<Rightarrow>
          if errors_Is e ErrCanceled then ''context_canceled''
          else if errors_Is e ErrDeadlineExceeded then ''deadline_exceeded''
          else ''operation_failed'')"

definition runnerErrorSummary :: "go_error option \<Rightarrow> string" where
  "runnerErrorSummary eo =
     (let k = runnerErrorKind eo in
      if k = ''unexpected_state'' then ''backend did not reach running''
      else if k = ''context_canceled'' then ''context canceled''
      else if k = ''deadline_exceeded'' then ''deadline exceeded''
      else ''operation failed'')"

definition mintErrorKindOf :: "go_error \<Rightarrow> string" where
  "mintErrorKindOf e =
     (case as_mintError e of
        Some (ErrMint k r) \<Rightarrow> mint_kind_string k
      | _ \<Rightarrow> ''mint_auth_key_failed'')"

fun mint_summary :: "mintErrorKind \<Rightarrow> string" where
  "mint_summary mintErrMissingCredentials = ''missing client credentials''"
| "mint_summary mintErrMissingTags = ''missing tags''"
| "mint_summary mintErrCreateKey = ''create auth key failed''"

definition mintErrorSummary :: "go_error \<Rightarrow> string" where
  "mintErrorSummary e =
     (case as_mintError e of
        Some (ErrMint k r) \<Rightarrow> mint_summary k
      | _ \<Rightarrow> ''mint auth key failed'')"

definition error_attrs :: "go_error option \<Rightarrow> attr list" where
  "error_attrs eo =
     [(''error_kind'', AString (runnerErrorKind eo)), (''error'', AString (runnerErrorSummary eo))]"

definition logStateChange :: "logger \<Rightarrow> string \<Rightarrow> obs \<Rightarrow> obs" where
  "logStateChange lg state s =
     (if state = [] then s
      else Info lg ''tsnet_runner'' ''tsnet_state_change'' ''tsnet state changed''
             [(''state'', AString state)] s)"

definition logStartFailure :: "logger \<Rightarrow> string \<Rightarrow> go_error option \<Rightarrow> obs \<Rightarrow> obs" where
  "logStartFailure lg state eo =
     Error lg ''tsnet_runner'' ''tsnet_start_failure'' ''tsnet start failed''
       (error_attrs eo @ (if state \<noteq> [] then [(''state'', AString state)] else []))"

definition logListenerFailure :: "logger \<Rightarrow> go_error option \<Rightarrow> obs \<Rightarrow> obs" where
  "logListenerFailure lg eo =
     Error lg ''tsnet_runner'' ''public_listener_failure'' ''public listener failed'' (error_attrs eo)"

definition logListenerRestart :: "logger \<Rightarrow> string \<Rightarrow> obs \<Rightarrow> obs" where
  "logListenerRestart lg reason =
     Warn lg ''tsnet_runner'' ''public_listener_restart'' ''restarting public listener''
       [(''reason'', AString reason)]"

definition logStatePollFailure :: "logger \<Rightarrow> go_error option \<Rightarrow> obs \<Rightarrow> obs" where
  "logStatePollFailure lg eo =
     Warn lg ''tsnet_runner'' ''tsnet_state_poll_failure'' ''tsnet state poll failed'' (error_attrs eo)"

definition logHTTPShutdownFailure :: "logger \<Rightarrow> go_error option \<Rightarrow> obs \<Rightarrow> obs" where
  "logHTTPShutdownFailure lg eo =
     Warn lg ''tsnet_runner'' ''http_shutdown_failure'' ''http shutdown failed'' (error_attrs eo)"

definition host_attrs :: "string \<Rightarrow> string list \<Rightarrow> attr list" where
  "host_attrs expected domains =
     [(''expected_host'', AString expected), (''cert_domains'', AStrings domains),
      (''cert_domain_count'', AInt (int (length domains)))]"

definition logIssuerVerified :: "logger \<Rightarrow> string \<Rightarrow> string list \<Rightarrow> obs \<Rightarrow> obs" where
  "logIssuerVerified lg expected domains =
     Info lg ''tsnet_runner'' ''issuer_host_verified'' ''issuer host verified'' (host_attrs expected domains)"

definition logIssuerMismatch :: "logger \<Rightarrow> string \<Rightarrow> string list \<Rightarrow> obs \<Rightarrow> obs" where
  "logIssuerMismatch lg expected domains =
     Error lg ''tsnet_runner'' ''issuer_host_mismatch'' ''issuer host mismatch'' (host_attrs expected domains)"

definition logMintFailure :: "logger \<Rightarrow> go_error \<Rightarrow> obs \<Rightarrow> obs" where
  "logMintFailure lg e =
     Error lg ''tailscale_auth'' ''auth_key_mint_failure'' ''mint auth key failed''
       [(''error_kind'', AString (mintErrorKindOf e)), (''error'', AString (mintErrorSummary e))]"

lemma ts_log_frame [frame]:
  "obs_metrics (logStateChange l st s) = obs_metrics s"
  "obs_metrics (logStartFailure l st e s) = obs_metrics s"
  "obs_metrics (logListenerFailure l e s) = obs_metrics s"
  "obs_metrics (logListenerRestart l r s) = obs_metrics s"
  "obs_metrics (logStatePollFailure l e s) = obs_metrics s"
  "obs_metrics (logHTTPShutdownFailure l e s) = obs_metrics s"
  "obs_metrics (logIssuerVerified l h ds s) = obs_metrics s"
  "obs_metrics (logIssuerMismatch l h ds s) = obs_metrics s"
  "obs_metrics (logMintFailure l m s) = obs_metrics s"
  by (simp_all add: logStateChange_def logStartFailure_def logListenerFailure_def logListenerRestart_def
      logStatePollFailure_def logHTTPShutdownFailure_def logIssuerVerified_def logIssuerMismatch_def
      logMintFailure_def frame)

end
