(* ===== verification/Minter.thy ===== *)
theory Minter
  imports Tsrunner_Log
begin

text \<open>
  \<open>internal/tsrunner/minter.go\<close>: minting an auth key with OAuth client credentials. The Tailscale
  client is third party: \<open>CreateKey\<close> is an argument, a function from the request the code hands it
  (credentials, URLs, capabilities) to a key or an error.
\<close>

record OAuthMinter =
  ClientID :: string
  ClientSecret :: string
  Tags :: "string list"
  BaseURL :: string
  mi_Logger :: logger

definition defaultTSAPIBaseURL :: string where
  "defaultTSAPIBaseURL = ''https://api.tailscale.com''"

record key_request =
  kr_ClientID :: string
  kr_ClientSecret :: string
  kr_TokenURL :: string
  kr_BaseURL :: string
  kr_tailnet :: string
  kr_Ephemeral :: bool
  kr_Preauthorized :: bool
  kr_Reusable :: bool
  kr_Tags :: "string list"

type_synonym create_key = "key_request \<Rightarrow> (go_error, string) result"

definition mint_request :: "OAuthMinter \<Rightarrow> key_request" where
  "mint_request m =
     (let baseURL = (if BaseURL m = [] then defaultTSAPIBaseURL else BaseURL m) in
      \<lparr>kr_ClientID = ClientID m, kr_ClientSecret = ClientSecret m,
       kr_TokenURL = baseURL @ ''/api/v2/oauth/token'', kr_BaseURL = baseURL, kr_tailnet = ''-'',
       kr_Ephemeral = True, kr_Preauthorized = True, kr_Reusable = False, kr_Tags = Tags m\<rparr>)"

definition mint_failure :: "logger \<Rightarrow> go_error \<Rightarrow> obs \<Rightarrow> (go_error, string) result \<times> obs" where
  "mint_failure lg e s =
     (Inl e, logMintFailure lg e (record_if (RecordAuthKeyMint metricsFailure (mintErrorKindOf e)) s))"

definition Mint :: "OAuthMinter \<Rightarrow> handler \<Rightarrow> create_key \<Rightarrow> obs \<Rightarrow> (go_error, string) result \<times> obs" where
  "Mint m slog_default CreateKey s =
     (if ClientID m = [] \<or> ClientSecret m = []
      then mint_failure (mi_Logger m) (ErrMint mintErrMissingCredentials None) s
      else if length (Tags m) = 0
      then mint_failure (mi_Logger m) (ErrMint mintErrMissingTags None) s
      else
        let lg = (case mi_Logger m of None \<Rightarrow> Some slog_default | Some h \<Rightarrow> Some h) in
        case CreateKey (mint_request m) of
          Inl e \<Rightarrow> mint_failure lg (ErrMint mintErrCreateKey (Some e)) s
        | Inr key \<Rightarrow>
            (Inr key,
             Info lg ''tailscale_auth'' ''auth_key_mint_success'' ''minted auth key''
               [(''tags'', AStrings (Tags m)), (''tag_count'', AInt (int (length (Tags m))))]
               (record_if (RecordAuthKeyMint metricsSuccess []) s)))"

section \<open>Properties\<close>

lemma as_mintError_self: "as_mintError (ErrMint k r) = Some (ErrMint k r)"
  by (cases r) (simp_all add: as_mintError_def is_mint_def)

text \<open>C32: A key is minted only for complete credentials and at least one tag, by one request for an
  ephemeral, preauthorized, non-reusable key with exactly those tags, made with those credentials. The
  key reaches neither the log nor the metrics: with another key in the answer the same observations
  are left.\<close>

theorem Mint_requests_tagged_key:
  assumes "Mint m df CreateKey s = (Inr key, s')"
  shows "ClientID m \<noteq> [] \<and> ClientSecret m \<noteq> [] \<and> Tags m \<noteq> [] \<and> CreateKey (mint_request m) = Inr key \<and>
    kr_Ephemeral (mint_request m) \<and> kr_Preauthorized (mint_request m) \<and> \<not> kr_Reusable (mint_request m) \<and>
    kr_Tags (mint_request m) = Tags m \<and> kr_ClientID (mint_request m) = ClientID m \<and>
    kr_ClientSecret (mint_request m) = ClientSecret m \<and>
    (\<forall>key'. Mint m df (\<lambda>_. Inr key') s = (Inr key', s'))"
  using assms
  by (auto simp: Mint_def mint_failure_def mint_request_def Let_def split: if_splits sum.splits)

theorem Mint_requests_tagged_key_witness:
  "kr_Tags (mint_request \<lparr>ClientID = ''i'', ClientSecret = ''s'', Tags = [''tag:a''], BaseURL = [],
     mi_Logger = None\<rparr>) = [''tag:a'']"
proof -
  let ?m = "\<lparr>ClientID = ''i'', ClientSecret = ''s'', Tags = [''tag:a''], BaseURL = [], mi_Logger = None\<rparr>"
  obtain s' where "Mint ?m (JSONHandler 0) (\<lambda>_. Inr ''k'')
      \<lparr>default_logger = JSONHandler 0, emitted = [], obs_metrics = None\<rparr> = (Inr ''k'', s')"
    by (simp add: Mint_def)
  from Mint_requests_tagged_key [OF this] show ?thesis by simp
qed

text \<open>A failed mint is classified by its reason alone, and what it logs and counts does not
  depend on the client's error.\<close>

lemma Mint_failure_kinds:
  assumes "Mint m df CreateKey s = (Inl e, s')"
  shows "mintErrorKindOf e =
      (if ClientID m = [] \<or> ClientSecret m = [] then ''missing_client_credentials''
       else if Tags m = [] then ''missing_tags'' else ''create_auth_key_failed'') \<and>
    (\<forall>e'. snd (Mint m df (\<lambda>_. Inl e') s) = s')"
  using assms
  by (auto simp: Mint_def mint_failure_def mintErrorKindOf_def mintErrorSummary_def logMintFailure_def
      as_mintError_self Let_def split: if_splits sum.splits)

lemma Mint_failure_kinds_witness:
  "mintErrorKindOf (ErrMint mintErrMissingTags None) = ''missing_tags''"
proof -
  let ?m = "\<lparr>ClientID = ''i'', ClientSecret = ''s'', Tags = [], BaseURL = [], mi_Logger = None\<rparr>"
  obtain s' where "Mint ?m (JSONHandler 0) (\<lambda>_. Inr ''k'')
      \<lparr>default_logger = JSONHandler 0, emitted = [], obs_metrics = None\<rparr> =
      (Inl (ErrMint mintErrMissingTags None), s')"
    by (simp add: Mint_def mint_failure_def)
  from Mint_failure_kinds [OF this] show ?thesis by simp
qed

end
