(* ===== verification/Tsnet_Adapter.thy ===== *)
theory Tsnet_Adapter
  imports Tsrunner_Log
begin

text \<open>
  \<open>internal/tsrunner/tsnet_adapter.go\<close>: the production server. \<open>tsnet\<close> is third party: the
  outcomes of its calls are arguments. What the adapter keeps is the auth key and the underlying
  \<open>tsnet.Server\<close>, built on the first start and dropped by \<open>Close\<close>; \<open>world\<close> numbers the
  underlying servers built and holds those not closed yet.
\<close>

section \<open>State\<close>

record RealServerConfig =
  rc_Hostname :: string
  rc_StateSecret :: string
  rc_sLogger :: logger

record tsnet_srv =
  sv_id :: nat
  sv_AuthKey :: string
  sv_Hostname :: string
  sv_Ephemeral :: bool

record realServer =
  rs_cfg :: RealServerConfig
  authKey :: string
  srv :: "tsnet_srv option"

record world =
  built :: nat
  opened :: "nat list"

definition NewRealServerFactory :: "RealServerConfig \<Rightarrow> realServer" where
  "NewRealServerFactory cfg = \<lparr>rs_cfg = cfg, authKey = [], srv = None\<rparr>"

section \<open>Operations\<close>

record start_env =
  se_kubestore :: "go_error option"
  se_ctx :: "go_error option"
  se_start :: "go_error option"

definition Start :: "start_env \<Rightarrow> realServer \<times> world \<Rightarrow> (realServer \<times> world) \<times> go_error option" where
  "Start env st =
     (let (r, w) = st in
      case srv r of
        None \<Rightarrow>
          (case se_kubestore env of
             Some e \<Rightarrow> ((r, w), Some (ErrWrap ''kubestore'' e))
           | None \<Rightarrow>
               (let t = \<lparr>sv_id = built w, sv_AuthKey = authKey r, sv_Hostname = rc_Hostname (rs_cfg r),
                         sv_Ephemeral = False\<rparr>;
                    r1 = r\<lparr>srv := Some t\<rparr>;
                    w1 = w\<lparr>built := Suc (built w), opened := opened w @ [built w]\<rparr>
                in ((r1, w1), (case se_ctx env of Some e \<Rightarrow> Some e | None \<Rightarrow> se_start env))))
      | Some t \<Rightarrow> ((r, w), (case se_ctx env of Some e \<Rightarrow> Some e | None \<Rightarrow> se_start env)))"

text \<open>The outcome of the calls on the underlying server, for the three that need one.\<close>

definition ListenFunnel :: "go_error option \<Rightarrow> realServer \<Rightarrow> go_error option" where
  "ListenFunnel outcome r =
     (if srv r = None then Some (ErrText ''tsnet server not started'') else outcome)"

definition CertDomains :: "(go_error, string list) result \<Rightarrow> realServer \<Rightarrow> (go_error, string list) result" where
  "CertDomains outcome r = (if srv r = None then Inr [] else outcome)"

definition BackendState :: "(go_error, string) result \<Rightarrow> realServer \<Rightarrow> (go_error, string) result" where
  "BackendState outcome r = (if srv r = None then Inr [] else outcome)"

definition SetAuthKey :: "string \<Rightarrow> realServer \<Rightarrow> realServer" where
  "SetAuthKey key r =
     r\<lparr>authKey := key, srv := map_option (\<lambda>t. t\<lparr>sv_AuthKey := key\<rparr>) (srv r)\<rparr>"

definition HasAuthKey :: "realServer \<Rightarrow> bool" where
  "HasAuthKey r \<longleftrightarrow> authKey r \<noteq> []"

definition Close :: "realServer \<times> world \<Rightarrow> realServer \<times> world" where
  "Close st =
     (let (r, w) = st in
      case srv r of
        None \<Rightarrow> (r, w)
      | Some t \<Rightarrow> (r\<lparr>srv := None\<rparr>, w\<lparr>opened := [i \<leftarrow> opened w. i \<noteq> sv_id t]\<rparr>))"

definition slogToTailscaleLogf :: "logger \<Rightarrow> string \<Rightarrow> obs \<Rightarrow> obs" where
  "slogToTailscaleLogf lg message s =
     (case lg of
        None \<Rightarrow> s
      | Some h \<Rightarrow> Debug (Some h) ''tsnet'' ''tsnet_internal'' ''tsnet internal log''
                    [(''message'', AString message)] s)"

section \<open>The server's contract\<close>

text \<open>
  What the runner relies on in a server: a fresh one holds nothing and has no key, a key that is
  set is reported, every operation keeps the servers left open within the one it holds, and
  \<open>Close\<close> leaves none of its own.
\<close>

locale tsnet_server =
  fixes fresh :: 's
    and start :: "'e \<Rightarrow> 's \<times> 'w \<Rightarrow> ('s \<times> 'w) \<times> go_error option"
    and setkey :: "string \<Rightarrow> 's \<Rightarrow> 's"
    and haskey :: "'s \<Rightarrow> bool"
    and close :: "'s \<times> 'w \<Rightarrow> 's \<times> 'w"
    and held :: "'s option \<Rightarrow> 'w \<Rightarrow> bool"
  assumes fresh_key: "\<not> haskey fresh"
    and key_set: "haskey (setkey k s) \<longleftrightarrow> k \<noteq> []"
    and fresh_held: "held None w \<Longrightarrow> held (Some fresh) w"
    and setkey_held: "held (Some (setkey k s)) w \<longleftrightarrow> held (Some s) w"
    and start_held: "held (Some s) w \<Longrightarrow> start e (s, w) = ((s', w'), err) \<Longrightarrow> held (Some s') w'"
    and start_key: "start e (s, w) = ((s', w'), err) \<Longrightarrow> haskey s' = haskey s"
    and close_held: "held (Some s) w \<Longrightarrow> held None (snd (close (s, w)))"
begin

lemma replace_held: "held (Some s) w \<Longrightarrow> held (Some (setkey k fresh)) (snd (close (s, w)))"
  using setkey_held fresh_held close_held by blast

end

text \<open>For the adapter: the open servers are the held one's, if it was started.\<close>

definition holds :: "realServer option \<Rightarrow> world \<Rightarrow> bool" where
  "holds ro w \<longleftrightarrow>
     (case ro of
        None \<Rightarrow> opened w = []
      | Some r \<Rightarrow> opened w = (case srv r of None \<Rightarrow> [] | Some t \<Rightarrow> [sv_id t]))"

interpretation real_server: tsnet_server "NewRealServerFactory cfg" Start SetAuthKey HasAuthKey Close holds
  for cfg
proof (unfold_locales, goal_cases)
  case (5 s w e s' w' err)
  then show ?case by (auto simp: holds_def Start_def split: option.splits)
next
  case (6 e s w s' w' err)
  then show ?case by (auto simp: HasAuthKey_def Start_def split: option.splits)
qed (auto simp: holds_def NewRealServerFactory_def SetAuthKey_def HasAuthKey_def Close_def
    split: option.splits)

end
