(* ===== verification/Runner.thy ===== *)
theory Runner
  imports Minter Tsnet_Adapter
begin

text \<open>
  \<open>internal/tsrunner/runner.go\<close>: the loop that brings tsnet up, serves, and re-authenticates. What
  one turn of the loop meets outside the program is \<open>iter_env\<close>: whether the context is done where
  it is asked, the outcomes of the server's and the control plane's calls, the polls of the start
  probe with the arm each \<open>select\<close> takes, and how serving ends. A turn gives the next state, an
  exit, or \<open>Stuck\<close> when the start probe is still polling at the end of the given polls.
\<close>

section \<open>Configuration\<close>

definition BackendStateRunning :: string where "BackendStateRunning = ''Running''"
definition BackendStateNeedsLogin :: string where "BackendStateNeedsLogin = ''NeedsLogin''"

lemmas backend_states = BackendStateRunning_def BackendStateNeedsLogin_def

record HTTPTimeouts =
  ReadHeaderTimeout :: duration
  ReadTimeout :: duration
  WriteTimeout :: duration
  IdleTimeout :: duration
  MaxHeaderBytes :: int

definition httpReadHeaderTimeout :: duration where
  [simp]: "httpReadHeaderTimeout = 5 * Second"

definition httpReadTimeout :: duration where
  [simp]: "httpReadTimeout = 10 * Second"

definition httpWriteTimeout :: duration where
  [simp]: "httpWriteTimeout = 10 * Second"

definition httpIdleTimeout :: duration where
  [simp]: "httpIdleTimeout = 60 * Second"

definition httpMaxHeaderBytes :: int where
  [simp]: "httpMaxHeaderBytes = 8 * 1024"

definition defaultStartTimeout :: duration where
  [simp]: "defaultStartTimeout = 30 * Second"

definition runner_defaultShutdownTimeout :: duration where
  [simp]: "runner_defaultShutdownTimeout = 10 * Second"

definition defaultPollInterval :: duration where
  [simp]: "defaultPollInterval = 15 * Second"

definition DefaultHTTPTimeouts :: HTTPTimeouts where
  "DefaultHTTPTimeouts =
     \<lparr>ReadHeaderTimeout = httpReadHeaderTimeout, ReadTimeout = httpReadTimeout,
      WriteTimeout = httpWriteTimeout, IdleTimeout = httpIdleTimeout, MaxHeaderBytes = httpMaxHeaderBytes\<rparr>"

definition zero_timeouts :: HTTPTimeouts where
  "zero_timeouts =
     \<lparr>ReadHeaderTimeout = 0, ReadTimeout = 0, WriteTimeout = 0, IdleTimeout = 0, MaxHeaderBytes = 0\<rparr>"

record runner_config =
  FunnelAddr :: string
  rn_HTTPTimeouts :: HTTPTimeouts
  StartTimeout :: duration
  ShutdownTimeout :: duration
  PollInterval :: duration
  rn_Logger :: logger
  ExpectedIssuerHost :: string

definition runner_defaults :: "handler \<Rightarrow> runner_config \<Rightarrow> runner_config" where
  "runner_defaults slog_default c =
     \<lparr>FunnelAddr = (if FunnelAddr c = [] then '':443'' else FunnelAddr c),
      rn_HTTPTimeouts = (if rn_HTTPTimeouts c = zero_timeouts then DefaultHTTPTimeouts else rn_HTTPTimeouts c),
      StartTimeout = (if StartTimeout c = 0 then defaultStartTimeout else StartTimeout c),
      ShutdownTimeout = (if ShutdownTimeout c = 0 then runner_defaultShutdownTimeout else ShutdownTimeout c),
      PollInterval = (if PollInterval c = 0 then defaultPollInterval else PollInterval c),
      rn_Logger = (if rn_Logger c = None then Some slog_default else rn_Logger c),
      ExpectedIssuerHost = ExpectedIssuerHost c\<rparr>"

section \<open>Backoff\<close>

definition backoffBase :: duration where "backoffBase = 100 * Millisecond"
definition backoffMax :: duration where "backoffMax = 30 * Second"
definition backoffFactor :: int where [simp]: "backoffFactor = 2"

text \<open>\<open>sleep\<close>: the delay it waits for and the stored next one.\<close>

definition backoff_sleep :: "duration \<Rightarrow> duration \<times> duration" where
  "backoff_sleep cur =
     (let d = (if cur = 0 then backoffBase else cur) in (d, min (wrap64 (d * backoffFactor)) backoffMax))"

definition backoff_reset :: duration where
  "backoff_reset = 0"

section \<open>State\<close>

record run_state =
  r_server :: "realServer option"
  r_verified :: bool
  r_lastState :: string
  r_backoff :: duration
  r_world :: world
  r_obs :: obs
  r_pub :: "bool list"
  r_slept :: "duration list"

text \<open>\<open>r_pub\<close> is the sequence of calls of \<open>SetPublicReady\<close>, \<open>r_slept\<close> that of the delays.\<close>

definition SetPub :: "bool \<Rightarrow> run_state \<Rightarrow> run_state" where
  "SetPub v s = s\<lparr>r_pub := r_pub s @ [v]\<rparr>"

definition on_log :: "(obs \<Rightarrow> obs) \<Rightarrow> run_state \<Rightarrow> run_state" where
  "on_log f s = s\<lparr>r_obs := f (r_obs s)\<rparr>"

definition do_sleep :: "run_state \<Rightarrow> run_state" where
  "do_sleep s =
     (let (d, n) = backoff_sleep (r_backoff s) in s\<lparr>r_backoff := n, r_slept := r_slept s @ [d]\<rparr>)"

definition do_reset :: "run_state \<Rightarrow> run_state" where
  "do_reset s = s\<lparr>r_backoff := backoff_reset\<rparr>"

definition close_server :: "realServer \<Rightarrow> run_state \<Rightarrow> run_state" where
  "close_server r s = s\<lparr>r_world := snd (Close (r, r_world s))\<rparr>"

section \<open>The start probe\<close>

datatype poll_arm = PollCtxDone go_error | PollTimeout go_error | PollTick

record poll =
  po_state :: "(go_error, string) result"
  po_arm :: poll_arm

text \<open>\<open>PollTimeout\<close>: the start context's deadline has passed when the \<open>select\<close> is reached. Without an
  auth key its channel ends the probe; with one the channel is nil, so the \<open>select\<close> waits for the
  next tick.\<close>

fun probe_loop :: "realServer \<Rightarrow> string \<Rightarrow> poll list \<Rightarrow> (string \<times> go_error option) option" where
  "probe_loop r lastState [] = None"
| "probe_loop r lastState (p # ps) =
     (let wait = (\<lambda>l. case po_arm p of
                PollCtxDone e \<Rightarrow> Some (l, Some e)
              | PollTimeout e \<Rightarrow> if HasAuthKey r then probe_loop r l ps else Some (l, Some e)
              | PollTick \<Rightarrow> probe_loop r l ps)
      in case BackendState (po_state p) r of
           Inl e \<Rightarrow> wait lastState
         | Inr state \<Rightarrow>
             if state = [] then wait lastState
             else if state = BackendStateRunning then Some (state, None)
             else if state = BackendStateNeedsLogin \<and> \<not> HasAuthKey r then Some (state, None)
             else wait state)"

definition startAndProbe ::
  "start_env \<Rightarrow> (go_error, string) result \<Rightarrow> poll list \<Rightarrow> realServer \<times> world \<Rightarrow>
     ((realServer \<times> world) \<times> string \<times> go_error option) option" where
  "startAndProbe env failed_probe polls st =
     (let (st1, err) = Start env st in
      case err of
        Some e \<Rightarrow>
          Some (st1, (case BackendState failed_probe (fst st1) of Inl _ \<Rightarrow> [] | Inr state \<Rightarrow> state), Some e)
      | None \<Rightarrow> map_option (Pair st1) (probe_loop (fst st1) [] polls))"

datatype loopAction = actionServe | actionReauth | actionRetry

definition decideNext :: "string \<Rightarrow> go_error option \<Rightarrow> loopAction" where
  "decideNext state startErr =
     (if state = BackendStateNeedsLogin then actionReauth
      else if startErr \<noteq> None \<or> state \<noteq> BackendStateRunning then actionRetry
      else actionServe)"

section \<open>Serving\<close>

datatype serve_arm = ArmCtxDone | ArmFlipped | ArmServe "go_error option"

record serve_env =
  sv_listen :: "go_error option"
  sv_watch :: "(go_error, string) result list"
  sv_arm :: serve_arm
  sv_shutdown :: "go_error option"

text \<open>The watcher's log of its failed polls, up to the first \<open>NeedsLogin\<close>.\<close>

fun watchForLoginNeeded :: "logger \<Rightarrow> realServer \<Rightarrow> (go_error, string) result list \<Rightarrow> obs \<Rightarrow> obs" where
  "watchForLoginNeeded lg r [] s = s"
| "watchForLoginNeeded lg r (o1 # os) s =
     (case BackendState o1 r of
        Inl e \<Rightarrow> watchForLoginNeeded lg r os (logStatePollFailure lg (Some e) s)
      | Inr state \<Rightarrow>
          if state = BackendStateNeedsLogin then s else watchForLoginNeeded lg r os s)"

definition shutdown :: "logger \<Rightarrow> go_error option \<Rightarrow> obs \<Rightarrow> obs" where
  "shutdown lg outcome s =
     (case outcome of None \<Rightarrow> s | Some e \<Rightarrow> logHTTPShutdownFailure lg (Some e) s)"

definition serveOnce :: "runner_config \<Rightarrow> serve_env \<Rightarrow> realServer \<Rightarrow> run_state \<Rightarrow> run_state \<times> go_error option" where
  "serveOnce cfg env r s =
     (let lg = rn_Logger cfg; s0 = SetPub False s in
      case ListenFunnel (sv_listen env) r of
        Some e \<Rightarrow> (s0, Some e)
      | None \<Rightarrow>
          (let s1 = on_log (watchForLoginNeeded lg r (sv_watch env)) (SetPub True s0) in
           case sv_arm env of
             ArmCtxDone \<Rightarrow>
               (SetPub False (on_log (shutdown lg (sv_shutdown env)) (SetPub False s1)), None)
           | ArmFlipped \<Rightarrow>
               (let s2 = on_log (logListenerRestart lg ''needs_login'')
                           (on_log (record_if (RecordPublicListenerRestart ''needs_login''))
                             (on_log (logStateChange lg BackendStateNeedsLogin) s1))
                in (SetPub False (on_log (shutdown lg (sv_shutdown env)) (SetPub False s2)), None))
           | ArmServe err \<Rightarrow>
               (SetPub False (SetPub False s1),
                if (case err of None \<Rightarrow> False | Some e \<Rightarrow> errors_Is e ErrServerClosed) then None else err)))"

definition verifyIssuerHost ::
  "runner_config \<Rightarrow> (go_error, string list) result \<Rightarrow> realServer \<Rightarrow> run_state \<Rightarrow>
     run_state \<times> go_error option" where
  "verifyIssuerHost cfg outcome r s =
     (if ExpectedIssuerHost cfg = [] then (s, None)
      else
        case CertDomains outcome r of
          Inl e \<Rightarrow> (s, Some (ErrWrap ''read cert domains'' e))
        | Inr domains \<Rightarrow>
            if ExpectedIssuerHost cfg \<in> set domains
            then (on_log (logIssuerVerified (rn_Logger cfg) (ExpectedIssuerHost cfg) domains)
                    (on_log (record_if (RecordIssuerHostVerification metricsSuccess)) s), None)
            else (on_log (logIssuerMismatch (rn_Logger cfg) (ExpectedIssuerHost cfg) domains)
                    (on_log (record_if (RecordIssuerHostVerification metricsFailure)) s),
                  Some (ErrWrap ''issuer host mismatch'' ErrIssuerHostMismatch)))"

definition runServeStep ::
  "runner_config \<Rightarrow> (go_error, string list) result \<Rightarrow> serve_env \<Rightarrow> realServer \<Rightarrow> run_state \<Rightarrow>
     run_state \<times> go_error option" where
  "runServeStep cfg domains env r s =
     (let (s1, err) = (if \<not> r_verified s then verifyIssuerHost cfg domains r s else (s, None)) in
      case err of
        Some e \<Rightarrow> (s1, Some e)
      | None \<Rightarrow> serveOnce cfg env r (s1\<lparr>r_verified := True\<rparr>))"

definition handleServe ::
  "runner_config \<Rightarrow> (go_error, string list) result \<Rightarrow> serve_env \<Rightarrow> realServer \<Rightarrow> run_state \<Rightarrow>
     run_state \<times> go_error option" where
  "handleServe cfg domains env r s =
     (let (s1, err) = runServeStep cfg domains env r (do_reset s) in
      case err of
        None \<Rightarrow> (s1, None)
      | Some e \<Rightarrow>
          if errors_Is e ErrIssuerHostMismatch then (s1, Some e)
          else
            (do_sleep (on_log (logListenerFailure (rn_Logger cfg) (Some e))
               (on_log (record_if (RecordPublicListenerRestart ''serve_failure'')) s1)), None))"

section \<open>The loop\<close>

record iter_env =
  it_ctx :: bool
  it_start :: start_env
  it_failed_probe :: "(go_error, string) result"
  it_polls :: "poll list"
  it_ctx2 :: bool
  it_create_key :: create_key
  it_domains :: "(go_error, string list) result"
  it_serve :: serve_env

datatype turn = Stuck | Exit "go_error option" run_state | Turn run_state

record run_deps =
  d_cfg :: runner_config
  d_factory :: RealServerConfig
  d_minter :: OAuthMinter
  d_slog_default :: handler

definition ensureServer :: "run_deps \<Rightarrow> run_state \<Rightarrow> realServer \<times> run_state" where
  "ensureServer d s =
     (case r_server s of
        Some r \<Rightarrow> (r, s)
      | None \<Rightarrow>
          (let r = NewRealServerFactory (d_factory d)
           in (r, s\<lparr>r_server := Some r, r_verified := False\<rparr>)))"

definition recordStateTransition :: "runner_config \<Rightarrow> string \<Rightarrow> run_state \<Rightarrow> run_state" where
  "recordStateTransition cfg state s =
     (if state = [] \<or> state = r_lastState s then s
      else
        (on_log (record_if (RecordTSNetStateTransition state)) (on_log (logStateChange (rn_Logger cfg) state) s))
          \<lparr>r_lastState := state\<rparr>)"

definition processServeAction :: "run_deps \<Rightarrow> iter_env \<Rightarrow> realServer \<Rightarrow> run_state \<Rightarrow> turn" where
  "processServeAction d env r s =
     (let s0 = on_log (record_if (RecordTSNetStart metricsSuccess [])) s;
          (s1, fatal) = handleServe (d_cfg d) (it_domains env) (it_serve env) r s0;
          s2 = (close_server r s1)\<lparr>r_server := None\<rparr>
      in case fatal of None \<Rightarrow> Turn s2 | Some e \<Rightarrow> Exit (Some e) s2)"

definition processRetryAction ::
  "run_deps \<Rightarrow> string \<Rightarrow> go_error option \<Rightarrow> realServer \<Rightarrow> run_state \<Rightarrow> turn" where
  "processRetryAction d state startErr r s =
     (let s0 = on_log (record_if (RecordTSNetStart metricsFailure (runnerErrorKind startErr))) s;
          s1 = do_sleep (on_log (logStartFailure (rn_Logger (d_cfg d)) state startErr) s0)
      in Turn ((close_server r s1)\<lparr>r_server := None, r_verified := False\<rparr>))"

definition handleReauth :: "run_deps \<Rightarrow> create_key \<Rightarrow> realServer \<Rightarrow> run_state \<Rightarrow> realServer \<times> run_state" where
  "handleReauth d CreateKey r s =
     (let (key, o') = Mint (d_minter d) (d_slog_default d) CreateKey (r_obs s);
          s0 = s\<lparr>r_obs := o'\<rparr>
      in case key of
           Inl e \<Rightarrow> (r, do_sleep s0)
         | Inr k \<Rightarrow>
             (SetAuthKey k (NewRealServerFactory (d_factory d)), close_server r (do_reset s0)))"

definition processLoopAction ::
  "run_deps \<Rightarrow> iter_env \<Rightarrow> string \<Rightarrow> go_error option \<Rightarrow> realServer \<Rightarrow> run_state \<Rightarrow> turn" where
  "processLoopAction d env state startErr r s =
     (case decideNext state startErr of
        actionServe \<Rightarrow> processServeAction d env r s
      | actionReauth \<Rightarrow>
          (let (r', s') = handleReauth d (it_create_key env) r s
           in Turn (s'\<lparr>r_server := Some r', r_verified := False\<rparr>))
      | actionRetry \<Rightarrow> processRetryAction d state startErr r s)"

text \<open>One turn of the loop. The first \<open>Exit\<close> is the check at the top.\<close>

definition iteration :: "run_deps \<Rightarrow> iter_env \<Rightarrow> run_state \<Rightarrow> turn" where
  "iteration d env s =
     (if it_ctx env then Exit None s
      else
        let (r, s0) = ensureServer d s in
        case startAndProbe (it_start env) (it_failed_probe env) (it_polls env) (r, r_world s0) of
          None \<Rightarrow> Stuck
        | Some ((r1, w1), state, startErr) \<Rightarrow>
            let s1 = s0\<lparr>r_server := Some r1, r_world := w1\<rparr> in
            if it_ctx2 env then Exit None s1
            else processLoopAction d env state startErr r1 (recordStateTransition (d_cfg d) state s1))"

text \<open>The deferred close on the way out.\<close>

definition deferred_close :: "run_state \<Rightarrow> run_state" where
  "deferred_close s =
     (case r_server s of
        None \<Rightarrow> s
      | Some r \<Rightarrow> (close_server r s)\<lparr>r_server := Some (fst (Close (r, r_world s)))\<rparr>)"

text \<open>\<open>Run\<close> over the turns it meets: None while it has not returned.\<close>

fun run_loop :: "run_deps \<Rightarrow> iter_env list \<Rightarrow> run_state \<Rightarrow> (go_error option \<times> run_state) option" where
  "run_loop d [] s = None"
| "run_loop d (env # envs) s =
     (case iteration d env s of
        Stuck \<Rightarrow> None
      | Exit err s' \<Rightarrow> Some (err, deferred_close s')
      | Turn s' \<Rightarrow> run_loop d envs s')"

definition runner_init :: "obs \<Rightarrow> run_state" where
  "runner_init s =
     \<lparr>r_server = None, r_verified = False, r_lastState = [], r_backoff = 0,
      r_world = \<lparr>built = 0, opened = []\<rparr>, r_obs = s, r_pub = [], r_slept = []\<rparr>"

definition tsrunner_Run ::
  "run_deps \<Rightarrow> iter_env list \<Rightarrow> obs \<Rightarrow> (go_error option \<times> run_state) option" where
  "tsrunner_Run d envs s =
     run_loop (d\<lparr>d_cfg := runner_defaults (d_slog_default d) (d_cfg d)\<rparr>) envs (runner_init s)"

section \<open>Facts: what an operation leaves alone\<close>

lemma run_frame [simp]:
  "r_world (SetPub v s) = r_world s" "r_world (on_log f s) = r_world s" "r_world (do_sleep s) = r_world s"
  "r_world (do_reset s) = r_world s"
  "r_server (SetPub v s) = r_server s" "r_server (on_log f s) = r_server s"
  "r_server (do_sleep s) = r_server s" "r_server (do_reset s) = r_server s"
  "r_server (close_server r s) = r_server s"
  "r_verified (SetPub v s) = r_verified s" "r_verified (on_log f s) = r_verified s"
  "r_verified (do_sleep s) = r_verified s" "r_verified (do_reset s) = r_verified s"
  "r_pub (SetPub v s) = r_pub s @ [v]" "r_pub (on_log f s) = r_pub s" "r_pub (do_sleep s) = r_pub s"
  "r_pub (do_reset s) = r_pub s" "r_pub (close_server r s) = r_pub s"
  by (simp_all add: SetPub_def on_log_def do_sleep_def do_reset_def close_server_def Let_def
      split: prod.splits)

lemma recordStateTransition_frame [simp]:
  "r_world (recordStateTransition cfg st s) = r_world s"
  "r_server (recordStateTransition cfg st s) = r_server s"
  "r_verified (recordStateTransition cfg st s) = r_verified s"
  "r_pub (recordStateTransition cfg st s) = r_pub s"
  by (simp_all add: recordStateTransition_def)

lemma verify_frame:
  "verifyIssuerHost cfg ds r s = (s', err) \<Longrightarrow>
     r_world s' = r_world s \<and> r_pub s' = r_pub s \<and>
     (err = None \<longrightarrow> ExpectedIssuerHost cfg = [] \<or>
        (\<exists>l. ds = Inr l \<and> ExpectedIssuerHost cfg \<in> set l))"
  by (auto simp: verifyIssuerHost_def CertDomains_def split: if_splits sum.splits)

text \<open>A serve cycle ends with the public surface reported down.\<close>

definition pub_down :: "bool list \<Rightarrow> bool" where
  "pub_down p \<longleftrightarrow> p = [] \<or> \<not> last p"

lemma serveOnce_frame:
  "serveOnce cfg env r s = (s', err) \<Longrightarrow>
     r_world s' = r_world s \<and> (\<exists>p. r_pub s' = r_pub s @ p \<and> p \<noteq> [] \<and> \<not> last p)"
  by (auto simp: serveOnce_def Let_def split: option.splits serve_arm.splits)

text \<open>The issuer's host is among the certificate domains, where a host is expected.\<close>

definition host_ok :: "runner_config \<Rightarrow> (go_error, string list) result \<Rightarrow> bool" where
  "host_ok cfg ds \<longleftrightarrow>
     ExpectedIssuerHost cfg = [] \<or>
     (\<exists>l. ds = Inr l \<and> ExpectedIssuerHost cfg \<in> set l)"

lemma handleServe_frame:
  assumes "handleServe cfg ds env r s = (s', err)" and "\<not> r_verified s"
  shows "r_world s' = r_world s \<and>
    (\<exists>p. r_pub s' = r_pub s @ p \<and> pub_down p \<and> (p \<noteq> [] \<longrightarrow> host_ok cfg ds)) \<and>
    (\<forall>e. err = Some e \<longrightarrow> errors_Is e ErrIssuerHostMismatch)"
proof -
  obtain s1 e1 where st: "runServeStep cfg ds env r (do_reset s) = (s1, e1)" by fastforce
  obtain s0 e0 where v: "verifyIssuerHost cfg ds r (do_reset s) = (s0, e0)" by fastforce
  note vf = verify_frame [OF v]
  have s1: "r_world s1 = r_world s \<and>
      (\<exists>p. r_pub s1 = r_pub s @ p \<and> pub_down p \<and> (p \<noteq> [] \<longrightarrow> host_ok cfg ds))"
  proof (cases e0)
    case None
    then have "serveOnce cfg env r (s0\<lparr>r_verified := True\<rparr>) = (s1, e1)"
      using st v assms(2) by (simp add: runServeStep_def)
    from serveOnce_frame [OF this] show ?thesis using vf None by (auto simp: host_ok_def pub_down_def)
  next
    case (Some e)
    then have "s1 = s0" using st v assms(2) by (simp add: runServeStep_def)
    then show ?thesis using vf by (auto simp: pub_down_def)
  qed
  then show ?thesis using assms(1) st
    by (auto simp: handleServe_def split: option.splits if_splits)
qed

section \<open>The loop's invariant\<close>

text \<open>
  Between turns the only open underlying server is the current server's, a server is never
  carried over as verified, and the public surface was last reported down.
\<close>

definition run_inv :: "run_state \<Rightarrow> bool" where
  "run_inv s \<longleftrightarrow> holds (r_server s) (r_world s) \<and> (r_server s \<noteq> None \<longrightarrow> \<not> r_verified s) \<and> pub_down (r_pub s)"

lemma close_server_held:
  "holds (Some r) (r_world s) \<Longrightarrow> holds None (r_world (close_server r s))"
  unfolding close_server_def by (simp add: real_server.close_held)

lemma pub_down_append: "pub_down p \<Longrightarrow> pub_down q \<Longrightarrow> pub_down (p @ q)"
  by (auto simp: pub_down_def last_append split: if_splits)

lemma startAndProbe_held:
  assumes "startAndProbe env fp polls (r, w) = Some ((r1, w1), state, err)" and "holds (Some r) w"
  shows "holds (Some r1) w1 \<and> HasAuthKey r1 = HasAuthKey r"
proof -
  obtain e where "Start env (r, w) = ((r1, w1), e)"
    using assms(1) by (auto simp: startAndProbe_def split: prod.splits option.splits)
  then show ?thesis using real_server.start_held [OF assms(2)] real_server.start_key by blast
qed

text \<open>One turn, from the server it starts with.\<close>

lemma serve_turn:
  assumes "processServeAction d env r s = t" and "holds (Some r) (r_world s)" and "\<not> r_verified s"
    and "pub_down (r_pub s)"
  shows "(\<exists>s'. t = Turn s' \<and> run_inv s' \<or>
      (\<exists>e. t = Exit (Some e) s' \<and> run_inv s' \<and> errors_Is e ErrIssuerHostMismatch)) \<and>
    (\<forall>s'. (t = Turn s' \<or> (\<exists>e. t = Exit e s')) \<longrightarrow>
      (\<exists>p. r_pub s' = r_pub s @ p \<and> (p \<noteq> [] \<longrightarrow> host_ok (d_cfg d) (it_domains env))))"
proof -
  let ?s0 = "on_log (record_if (RecordTSNetStart metricsSuccess [])) s"
  obtain s1 fatal where h: "handleServe (d_cfg d) (it_domains env) (it_serve env) r ?s0 = (s1, fatal)"
    by fastforce
  have "\<not> r_verified ?s0" using assms(3) by simp
  note f = handleServe_frame [OF h this]
  let ?s2 = "(close_server r s1)\<lparr>r_server := None\<rparr>"
  have "holds (Some r) (r_world s1)" using f assms(2) by simp
  then have "holds None (r_world ?s2)" using close_server_held [of r s1] by simp
  moreover have "pub_down (r_pub ?s2)" using f assms(4) pub_down_append by fastforce
  ultimately have "run_inv ?s2" by (simp add: run_inv_def)
  moreover have "t = (case fatal of None \<Rightarrow> Turn ?s2 | Some e \<Rightarrow> Exit (Some e) ?s2)"
    using assms(1) h by (simp add: processServeAction_def Let_def)
  moreover have "\<exists>p. r_pub ?s2 = r_pub s @ p \<and> (p \<noteq> [] \<longrightarrow> host_ok (d_cfg d) (it_domains env))"
    using f by auto
  ultimately show ?thesis using f by (cases fatal) auto
qed

lemma reauth_turn:
  assumes "holds (Some r) (r_world s)" and "pub_down (r_pub s)"
    and "handleReauth d ck r s = (r', s')"
  shows "run_inv (s'\<lparr>r_server := Some r', r_verified := False\<rparr>) \<and> r_pub s' = r_pub s"
proof -
  obtain key o' where m: "Mint (d_minter d) (d_slog_default d) ck (r_obs s) = (key, o')" by fastforce
  show ?thesis
  proof (cases key)
    case (Inl e)
    then show ?thesis using assms m by (auto simp: handleReauth_def run_inv_def)
  next
    case (Inr k)
    let ?s0 = "do_reset (s\<lparr>r_obs := o'\<rparr>)"
    have "holds (Some (SetAuthKey k (NewRealServerFactory (d_factory d)))) (r_world (close_server r ?s0))"
      unfolding close_server_def using real_server.replace_held [of r "r_world ?s0"] assms(1) by simp
    then show ?thesis using Inr assms m by (auto simp: handleReauth_def run_inv_def)
  qed
qed

lemma retry_turn:
  assumes "holds (Some r) (r_world s)" and "pub_down (r_pub s)"
    and "processRetryAction d state err r s = Turn s'"
  shows "run_inv s' \<and> r_pub s' = r_pub s"
  using assms close_server_held [of r]
  by (auto simp: processRetryAction_def run_inv_def Let_def)

lemma retry_is_turn: "\<exists>s'. processRetryAction d state err r s = Turn s'"
  by (simp add: processRetryAction_def Let_def)

lemma ensureServer_inv:
  assumes "run_inv s" and "ensureServer d s = (r, s0)"
  shows "holds (Some r) (r_world s0) \<and> \<not> r_verified s0 \<and> r_pub s0 = r_pub s \<and> r_world s0 = r_world s"
  using assms real_server.fresh_held [of "r_world s"]
  by (auto simp: ensureServer_def run_inv_def Let_def split: option.splits)

text \<open>The outcome of a turn keeps the invariant, exits only cleanly or on a host mismatch, and
  reports the surface up only for a verified host in state \<open>Running\<close>.\<close>

definition turn_ok :: "run_deps \<Rightarrow> iter_env \<Rightarrow> run_state \<Rightarrow> turn \<Rightarrow> bool" where
  "turn_ok d env s t \<longleftrightarrow>
     (case t of
        Stuck \<Rightarrow> True
      | Turn s' \<Rightarrow> run_inv s' \<and>
          (\<exists>p. r_pub s' = r_pub s @ p \<and> (p \<noteq> [] \<longrightarrow> host_ok (d_cfg d) (it_domains env)))
      | Exit err s' \<Rightarrow> holds (r_server s') (r_world s') \<and> pub_down (r_pub s') \<and>
          (\<exists>p. r_pub s' = r_pub s @ p \<and> (p \<noteq> [] \<longrightarrow> host_ok (d_cfg d) (it_domains env))) \<and>
          (case err of None \<Rightarrow> it_ctx env \<or> it_ctx2 env | Some e \<Rightarrow> errors_Is e ErrIssuerHostMismatch))"

lemma iteration_ok:
  assumes "run_inv s"
  shows "turn_ok d env s (iteration d env s)"
proof (cases "it_ctx env")
  case True
  then show ?thesis using assms by (simp add: iteration_def turn_ok_def run_inv_def)
next
  case False
  obtain r s0 where es: "ensureServer d s = (r, s0)" by fastforce
  note e = ensureServer_inv [OF assms es]
  have pd: "pub_down (r_pub s)" using assms by (simp add: run_inv_def)
  show ?thesis
  proof (cases "startAndProbe (it_start env) (it_failed_probe env) (it_polls env) (r, r_world s0)")
    case None
    then show ?thesis using False es by (simp add: iteration_def turn_ok_def)
  next
    case (Some x)
    then obtain r1 w1 state err where sp:
      "startAndProbe (it_start env) (it_failed_probe env) (it_polls env) (r, r_world s0) =
        Some ((r1, w1), state, err)" by (cases x) auto
    then have h: "holds (Some r1) w1" using startAndProbe_held e by blast
    let ?s1 = "s0\<lparr>r_server := Some r1, r_world := w1\<rparr>"
    let ?s2 = "recordStateTransition (d_cfg d) state ?s1"
    have it: "iteration d env s =
        (if it_ctx2 env then Exit None ?s1 else processLoopAction d env state err r1 ?s2)"
      using False es sp by (simp add: iteration_def Let_def)
    have s2: "holds (Some r1) (r_world ?s2)" "\<not> r_verified ?s2" "pub_down (r_pub ?s2)" "r_pub ?s2 = r_pub s"
      using h e pd by simp_all
    show ?thesis
    proof (cases "it_ctx2 env")
      case True
      then show ?thesis using it h e pd by (simp add: turn_ok_def)
    next
      case cont: False
      show ?thesis
      proof (cases "decideNext state err")
        case actionServe
        then show ?thesis
          using it cont serve_turn [OF refl s2(1-3), of d env] s2(4)
          by (auto simp: processLoopAction_def turn_ok_def run_inv_def)
      next
        case actionReauth
        obtain r' s' where ra: "handleReauth d (it_create_key env) r1 ?s2 = (r', s')" by fastforce
        from reauth_turn [OF s2(1,3) this] show ?thesis
          using it cont actionReauth ra s2(4) by (simp add: processLoopAction_def turn_ok_def)
      next
        case actionRetry
        obtain s' where rt: "processRetryAction d state err r1 ?s2 = Turn s'" using retry_is_turn by blast
        from retry_turn [OF s2(1,3) this] show ?thesis
          using it cont actionRetry rt s2(4) by (simp add: processLoopAction_def turn_ok_def)
      qed
    qed
  qed
qed

lemma run_loop_exit:
  "run_loop d envs s = Some (err, t) \<Longrightarrow> run_inv s \<Longrightarrow>
     \<exists>env s'. t = deferred_close s' \<and> holds (r_server s') (r_world s') \<and> pub_down (r_pub s') \<and>
       (case err of None \<Rightarrow> it_ctx env \<or> it_ctx2 env | Some e \<Rightarrow> errors_Is e ErrIssuerHostMismatch) \<and>
       env \<in> set envs"
proof (induction envs arbitrary: s)
  case (Cons env envs)
  note ok = iteration_ok [OF Cons.prems(2), of d env]
  show ?case
  proof (cases "iteration d env s")
    case (Exit e s')
    then show ?thesis using Cons.prems(1) ok
      by (intro exI [of _ env] exI [of _ s']) (auto simp: turn_ok_def)
  next
    case (Turn s')
    then have "run_inv s'" using ok by (simp add: turn_ok_def)
    moreover have "run_loop d envs s' = Some (err, t)" using Cons.prems(1) Turn by simp
    ultimately obtain env' s'' where "t = deferred_close s''" "holds (r_server s'') (r_world s'')"
        "pub_down (r_pub s'')" "env' \<in> set envs"
        "case err of None \<Rightarrow> it_ctx env' \<or> it_ctx2 env' | Some e \<Rightarrow> errors_Is e ErrIssuerHostMismatch"
      using Cons.IH by blast
    then show ?thesis by (intro exI [of _ env'] exI [of _ s'']) simp
  qed (use Cons.prems in simp)
qed simp

lemma runner_init_inv: "run_inv (runner_init s)"
  by (simp add: run_inv_def runner_init_def holds_def pub_down_def)

lemma deferred_close_held: "holds (r_server s) (r_world s) \<Longrightarrow> opened (r_world (deferred_close s)) = []"
proof (cases "r_server s")
  case (Some r)
  assume "holds (r_server s) (r_world s)"
  then show ?thesis using close_server_held [of r s] Some by (simp add: deferred_close_def holds_def)
qed (simp add: deferred_close_def holds_def)

lemma deferred_close_pub [simp]: "r_pub (deferred_close s) = r_pub s"
  by (simp add: deferred_close_def split: option.splits)

text \<open>What a finished run has reported last.\<close>

lemma Run_exit_down: "tsrunner_Run d envs s = Some (err, t) \<Longrightarrow> pub_down (r_pub t)"
  using run_loop_exit [OF _ runner_init_inv] unfolding tsrunner_Run_def by fastforce

section \<open>Properties\<close>

definition sample_deps :: run_deps where
  "sample_deps =
     \<lparr>d_cfg = \<lparr>FunnelAddr = [], rn_HTTPTimeouts = zero_timeouts, StartTimeout = 0, ShutdownTimeout = 0,
        PollInterval = 0, rn_Logger = None, ExpectedIssuerHost = ''a.ts.net''\<rparr>,
      d_factory = \<lparr>rc_Hostname = ''a'', rc_StateSecret = ''s'', rc_sLogger = None\<rparr>,
      d_minter = \<lparr>ClientID = ''i'', ClientSecret = ''c'', Tags = [''tag:t''], BaseURL = [], mi_Logger = None\<rparr>,
      d_slog_default = JSONHandler 0\<rparr>"

definition sample_iter :: "string \<Rightarrow> string list \<Rightarrow> iter_env" where
  "sample_iter state domains =
     \<lparr>it_ctx = False, it_start = \<lparr>se_kubestore = None, se_ctx = None, se_start = None\<rparr>,
      it_failed_probe = Inr [], it_polls = [\<lparr>po_state = Inr state, po_arm = PollTick\<rparr>], it_ctx2 = False,
      it_create_key = (\<lambda>_. Inr ''key''), it_domains = Inr domains,
      it_serve = \<lparr>sv_listen = None, sv_watch = [], sv_arm = ArmFlipped, sv_shutdown = None\<rparr>\<rparr>"

definition sample_run_obs :: obs where
  "sample_run_obs = \<lparr>default_logger = JSONHandler 0, emitted = [], obs_metrics = None\<rparr>"

text \<open>C8: Whenever \<open>Run\<close> returns, after any sequence of failures, re-authentications and serve
  cycles, every underlying tsnet server it built is closed, the public surface was last reported
  down, and the result is nil with the context done, or the fatal issuer mismatch.\<close>

theorem runner_returns_clean:
  assumes "tsrunner_Run d envs s = Some (err, t)"
  shows "opened (r_world t) = [] \<and> pub_down (r_pub t) \<and>
    (case err of None \<Rightarrow> \<exists>env \<in> set envs. it_ctx env \<or> it_ctx2 env
     | Some e \<Rightarrow> errors_Is e ErrIssuerHostMismatch)"
proof -
  obtain env s' where "t = deferred_close s'" "holds (r_server s') (r_world s')" "pub_down (r_pub s')"
      "case err of None \<Rightarrow> it_ctx env \<or> it_ctx2 env | Some e \<Rightarrow> errors_Is e ErrIssuerHostMismatch"
      "env \<in> set envs"
    using run_loop_exit [OF assms [unfolded tsrunner_Run_def] runner_init_inv] by blast
  then show ?thesis using deferred_close_held [of s'] by (auto split: option.splits)
qed

theorem runner_returns_clean_witness:
  "\<exists>err t. tsrunner_Run sample_deps [sample_iter ''NeedsLogin'' [], sample_iter ''Running'' [''a.ts.net''],
      sample_iter ''Running'' [''b.ts.net'']] sample_run_obs = Some (err, t) \<and>
    built (r_world t) = 3 \<and> opened (r_world t) = []"
proof -
  let ?run = "tsrunner_Run sample_deps [sample_iter ''NeedsLogin'' [], sample_iter ''Running'' [''a.ts.net''],
      sample_iter ''Running'' [''b.ts.net'']] sample_run_obs"
  have "case ?run of None \<Rightarrow> False | Some (err, t) \<Rightarrow> built (r_world t) = 3" by code_simp
  then obtain err t where "?run = Some (err, t)" "built (r_world t) = 3"
    by (auto split: option.splits prod.splits)
  then show ?thesis using runner_returns_clean by blast
qed

text \<open>The state after a number of turns that neither exit nor get stuck.\<close>

fun turns :: "run_deps \<Rightarrow> iter_env list \<Rightarrow> run_state \<Rightarrow> run_state option" where
  "turns d [] s = Some s"
| "turns d (env # envs) s =
     (case iteration d env s of Turn s' \<Rightarrow> turns d envs s' | _ \<Rightarrow> None)"

lemma turns_inv: "turns d envs s = Some t \<Longrightarrow> run_inv s \<Longrightarrow> run_inv t"
proof (induction envs arbitrary: s)
  case (Cons env envs)
  then show ?case using iteration_ok [of s d env]
    by (auto simp: turn_ok_def split: turn.splits)
qed simp

text \<open>C7: Between turns at most one underlying server is open, and it is the one the runner
  holds; nothing leaks however often it re-authenticates or retries.\<close>

theorem at_most_one_server:
  assumes "turns d envs (runner_init s) = Some t"
  shows "length (opened (r_world t)) \<le> 1 \<and>
    (\<forall>i \<in> set (opened (r_world t)). \<exists>r u. r_server t = Some r \<and> srv r = Some u \<and> sv_id u = i)"
  using turns_inv [OF assms runner_init_inv]
  by (auto simp: run_inv_def holds_def split: option.splits)

theorem at_most_one_server_witness:
  "\<exists>t. turns (sample_deps\<lparr>d_minter := (d_minter sample_deps)\<lparr>Tags := []\<rparr>\<rparr>)
     [sample_iter ''NeedsLogin'' [], sample_iter ''NeedsLogin'' []] (runner_init sample_run_obs) = Some t \<and>
   length (opened (r_world t)) \<le> 1 \<and> built (r_world t) = 1"
proof -
  let ?run = "turns (sample_deps\<lparr>d_minter := (d_minter sample_deps)\<lparr>Tags := []\<rparr>\<rparr>)
     [sample_iter ''NeedsLogin'' [], sample_iter ''NeedsLogin'' []] (runner_init sample_run_obs)"
  have "case ?run of None \<Rightarrow> False | Some t \<Rightarrow> built (r_world t) = 1" by code_simp
  then obtain t where "?run = Some t" "built (r_world t) = 1" by (auto split: option.splits)
  then show ?thesis using at_most_one_server by blast
qed

text \<open>C6: The public surface is touched only for a verified host. From any state the loop reaches,
  a turn calls \<open>SetPublicReady\<close> only if no host is expected or the expected host is among the
  certificate domains read in that very turn: every serve cycle verifies again.\<close>

theorem public_only_for_verified_host:
  assumes "turns d envs (runner_init s) = Some t" and "iteration d env t \<in> {Turn t', Exit err t'}"
  shows "\<exists>p. r_pub t' = r_pub t @ p \<and>
    (p \<noteq> [] \<longrightarrow> ExpectedIssuerHost (d_cfg d) = [] \<or>
      (\<exists>l. it_domains env = Inr l \<and> ExpectedIssuerHost (d_cfg d) \<in> set l))"
  using iteration_ok [OF turns_inv [OF assms(1) runner_init_inv], of d env] assms(2)
  by (auto simp: turn_ok_def host_ok_def)

theorem public_only_for_verified_host_witness:
  "\<exists>t'. iteration sample_deps (sample_iter ''Running'' [''a.ts.net'']) (runner_init sample_run_obs) = Turn t' \<and>
     r_pub t' \<noteq> [] \<and> ExpectedIssuerHost (d_cfg sample_deps) = ''a.ts.net'' \<and>
     (\<exists>l. it_domains (sample_iter ''Running'' [''a.ts.net'']) = Inr l \<and> ''a.ts.net'' \<in> set l)"
proof -
  let ?t = "iteration sample_deps (sample_iter ''Running'' [''a.ts.net'']) (runner_init sample_run_obs)"
  have "case ?t of Turn t' \<Rightarrow> r_pub t' \<noteq> [] | _ \<Rightarrow> False" by code_simp
  then obtain t' where t: "?t = Turn t'" "r_pub t' \<noteq> []" by (auto split: turn.splits)
  have "turns sample_deps [] (runner_init sample_run_obs) = Some (runner_init sample_run_obs)" by simp
  from public_only_for_verified_host [OF this, of "sample_iter ''Running'' [''a.ts.net'']" t'] t
  show ?thesis by (auto simp: sample_deps_def runner_init_def)
qed

text \<open>The stored delay after a number of sleeps since a reset.\<close>

fun backoff_after :: "nat \<Rightarrow> duration" where
  "backoff_after 0 = backoff_reset"
| "backoff_after (Suc n) = snd (backoff_sleep (backoff_after n))"

lemma backoff_step:
  assumes "cur = min (100000000 * x) 30000000000" and "1 \<le> (x :: int)"
  shows "fst (backoff_sleep cur) = cur \<and> snd (backoff_sleep cur) = min (100000000 * (2 * x)) 30000000000"
proof -
  have "0 < cur" "cur \<le> 30000000000" using assms by auto
  then have "wrap64 (cur * 2) = cur * 2" by (intro wrap64_id) (auto simp: in64_def)
  then have "backoff_sleep cur = (cur, min (cur * 2) 30000000000)"
    using \<open>0 < cur\<close> by (simp add: backoff_sleep_def backoffMax_def Second_def Let_def)
  moreover have "min (cur * 2) 30000000000 = min (100000000 * (2 * x)) 30000000000"
    using assms by (auto simp: min_def)
  ultimately show ?thesis by simp
qed

lemma backoff_after_Suc: "backoff_after (Suc n) = min (100000000 * 2 ^ Suc n) 30000000000"
proof (induction n)
  case 0
  then show ?case by code_simp
next
  case (Suc n)
  have "(1 :: int) \<le> 2 ^ Suc n" by (rule one_le_power) simp
  from backoff_step [OF Suc.IH this] show ?case
    by (simp only: backoff_after.simps(2) [of "Suc n"] power_Suc [of 2 "Suc n"])
qed

text \<open>C26: The delays of consecutive failures double from 100 ms and are capped at 30 s: the
  \<open>n\<close>-th sleep after a reset waits \<open>min (100 ms * 2^n) (30 s)\<close>, without overflow.\<close>

theorem backoff_delays:
  "fst (backoff_sleep (backoff_after n)) = min (100 * Millisecond * 2 ^ n) (30 * Second)"
proof (cases n)
  case 0
  then show ?thesis by (simp add: backoff_reset_def backoff_sleep_def backoffBase_def Millisecond_def Second_def Let_def)
next
  case (Suc m)
  have "(1 :: int) \<le> 2 ^ Suc m" by (rule one_le_power) simp
  from backoff_step [OF backoff_after_Suc this, THEN conjunct1] show ?thesis
    by (simp only: Suc backoff_after_Suc Millisecond_def Second_def)
qed

text \<open>C35: With an auth key the start probe has no timeout, whatever the start timeout is: as long
  as the backend reports a state other than \<open>Running\<close> and the context is not done, the probe
  goes on for ever. Without a key the same backend ends it at the first \<open>NeedsLogin\<close>.\<close>

theorem keyed_probe_never_times_out:
  assumes "\<forall>p \<in> set polls. po_state p = Inr ''NeedsLogin'' \<and> (\<forall>e. po_arm p \<noteq> PollCtxDone e)"
    and "srv r \<noteq> None"
  shows "if HasAuthKey r then probe_loop r lastState polls = None
    else polls \<noteq> [] \<longrightarrow> probe_loop r lastState polls = Some (''NeedsLogin'', None)"
proof (cases "HasAuthKey r")
  case True
  have "probe_loop r lastState polls = None" using assms
  proof (induction polls arbitrary: lastState)
    case (Cons p ps)
    have b: "BackendState (po_state p) r = Inr BackendStateNeedsLogin"
      using Cons.prems by (simp add: BackendState_def backend_states)
    have n: "BackendStateNeedsLogin \<noteq> []" "BackendStateNeedsLogin \<noteq> BackendStateRunning"
      by (simp_all add: backend_states)
    have "probe_loop r BackendStateNeedsLogin ps = None" using Cons by simp
    then show ?case using b n True Cons.prems by (cases "po_arm p") (simp_all add: Let_def)
  qed simp
  then show ?thesis using True by simp
next
  case False
  show ?thesis
  proof (cases polls)
    case (Cons p ps)
    have "BackendState (po_state p) r = Inr BackendStateNeedsLogin"
      using Cons assms by (simp add: BackendState_def backend_states)
    then show ?thesis using Cons False by (simp add: Let_def backend_states)
  qed (simp add: False)
qed

definition keyed_server :: realServer where
  "keyed_server = \<lparr>rs_cfg = d_factory sample_deps, authKey = ''k'',
     srv = Some \<lparr>sv_id = 0, sv_AuthKey = ''k'', sv_Hostname = ''a'', sv_Ephemeral = False\<rparr>\<rparr>"

theorem keyed_probe_never_times_out_witness:
  "probe_loop keyed_server [] (replicate 1000 \<lparr>po_state = Inr ''NeedsLogin'',
     po_arm = PollTimeout ErrDeadlineExceeded\<rparr>) = None"
proof -
  have "srv keyed_server \<noteq> None" "HasAuthKey keyed_server"
    by (simp_all add: keyed_server_def HasAuthKey_def)
  then show ?thesis
    using keyed_probe_never_times_out [of "replicate 1000 \<lparr>po_state = Inr ''NeedsLogin'',
        po_arm = PollTimeout ErrDeadlineExceeded\<rparr>" keyed_server "[]"] by simp
qed

text \<open>Without a key the start probe returns: it ends as soon as the backend is decisive, the
  timeout fires or the context is done, whatever came before.\<close>

lemma unkeyed_probe_returns:
  assumes "\<not> HasAuthKey r" and "srv r \<noteq> None"
    and "\<exists>p \<in> set polls. po_state p \<in> {Inr ''Running'', Inr ''NeedsLogin''} \<or> po_arm p \<noteq> PollTick"
  shows "\<exists>state err. probe_loop r lastState polls = Some (state, err)"
  using assms(3)
proof (induction polls arbitrary: lastState)
  case (Cons p ps)
  show ?case
  proof (cases "po_state p \<in> {Inr ''Running'', Inr ''NeedsLogin''} \<or> po_arm p \<noteq> PollTick")
    case True
    then show ?thesis using assms(1,2)
      by (cases "po_arm p"; cases "po_state p") (auto simp: BackendState_def backend_states Let_def)
  next
    case False
    then have "\<exists>q \<in> set ps. po_state q \<in> {Inr ''Running'', Inr ''NeedsLogin''} \<or> po_arm q \<noteq> PollTick"
      using Cons.prems by auto
    then show ?thesis using Cons.IH False assms(1,2)
      by (cases "po_state p") (auto simp: BackendState_def backend_states Let_def)
  qed
qed simp

text \<open>C25: Re-authentication. In state \<open>NeedsLogin\<close> a minted key replaces the server by a fresh one
  that carries it, with the old one closed and the backoff reset; if minting fails the same server
  stays, still open, after one sleep.\<close>

theorem reauth_replaces_server:
  assumes "holds (Some r) (r_world s)" and "handleReauth d ck r s = (r', s')"
    and "Mint (d_minter d) (d_slog_default d) ck (r_obs s) = (key, o')"
  shows "case key of
      Inr k \<Rightarrow> authKey r' = k \<and> srv r' = None \<and> opened (r_world s') = [] \<and> r_backoff s' = 0 \<and> r_slept s' = r_slept s
    | Inl e \<Rightarrow> r' = r \<and> opened (r_world s') = opened (r_world s) \<and>
        r_slept s' = r_slept s @ [fst (backoff_sleep (r_backoff s))]"
proof (cases key)
  case (Inl e)
  then show ?thesis using assms(2,3)
    by (auto simp: handleReauth_def do_sleep_def split: prod.splits)
next
  case (Inr k)
  have "opened (snd (Close (r, r_world s))) = []"
    using real_server.close_held [OF assms(1)] by (simp add: holds_def)
  then show ?thesis using Inr assms(2,3)
    by (auto simp: handleReauth_def SetAuthKey_def NewRealServerFactory_def close_server_def do_reset_def
        backoff_reset_def)
qed

theorem reauth_replaces_server_witness:
  "authKey (fst (handleReauth sample_deps (\<lambda>_. Inr ''key'') keyed_server
     (runner_init sample_run_obs \<lparr>r_world := \<lparr>built = 1, opened = [0]\<rparr>\<rparr>))) = ''key''"
proof -
  let ?s = "runner_init sample_run_obs \<lparr>r_world := \<lparr>built = 1, opened = [0]\<rparr>\<rparr>"
  have h: "holds (Some keyed_server) (r_world ?s)" by (simp add: holds_def keyed_server_def)
  obtain r' s' where ra: "handleReauth sample_deps (\<lambda>_. Inr ''key'') keyed_server ?s = (r', s')" by fastforce
  obtain o' where "Mint (d_minter sample_deps) (d_slog_default sample_deps) (\<lambda>_. Inr ''key'') (r_obs ?s) =
      (Inr ''key'', o')" by (simp add: Mint_def sample_deps_def)
  from reauth_replaces_server [OF h ra this] show ?thesis using ra by simp
qed

text \<open>C24: A host mismatch is fatal and happens before the listener opens: in state \<open>Running\<close> with
  the expected host missing from the certificate domains, the turn exits with the mismatch error,
  never having reported the public surface up or down, and closes the server.\<close>

theorem mismatch_is_fatal:
  assumes "holds (Some r) (r_world s)" and "\<not> r_verified s" and "srv r \<noteq> None"
    and "ExpectedIssuerHost (d_cfg d) \<noteq> []" and "it_domains env = Inr domains"
    and "ExpectedIssuerHost (d_cfg d) \<notin> set domains"
  shows "\<exists>e t. processLoopAction d env ''Running'' None r s = Exit (Some e) t \<and>
    errors_Is e ErrIssuerHostMismatch \<and> r_pub t = r_pub s \<and> opened (r_world t) = [] \<and> r_slept t = r_slept s"
proof -
  have dn: "decideNext ''Running'' None = actionServe" by (simp add: decideNext_def backend_states)
  let ?e = "ErrWrap ''issuer host mismatch'' ErrIssuerHostMismatch"
  have m: "errors_Is ?e ErrIssuerHostMismatch" by (simp add: errors_Is_def)
  have o: "opened (snd (Close (r, r_world s))) = []"
    using real_server.close_held [OF assms(1)] by (simp add: holds_def)
  have l: "r_slept (on_log f t) = r_slept t" "r_slept (do_reset t) = r_slept t" "r_slept (close_server r t) = r_slept t"
    for f t by (simp_all add: on_log_def do_reset_def close_server_def)
  have c: "opened (r_world (close_server r t)) = []" if "r_world t = r_world s" for t
    using o that by (simp add: close_server_def)
  show ?thesis using assms(2-6) m
    by (simp add: processLoopAction_def dn processServeAction_def handleServe_def runServeStep_def
        verifyIssuerHost_def CertDomains_def Let_def l c)
qed

theorem mismatch_is_fatal_witness:
  "\<exists>e t. processLoopAction sample_deps (sample_iter ''Running'' [''b.ts.net'']) ''Running'' None keyed_server
     (runner_init sample_run_obs \<lparr>r_world := \<lparr>built = 1, opened = [0]\<rparr>\<rparr>) = Exit (Some e) t \<and> r_pub t = []"
proof -
  let ?s = "runner_init sample_run_obs \<lparr>r_world := \<lparr>built = 1, opened = [0]\<rparr>\<rparr>"
  have "holds (Some keyed_server) (r_world ?s)" "\<not> r_verified ?s" "srv keyed_server \<noteq> None"
    "ExpectedIssuerHost (d_cfg sample_deps) \<noteq> []"
    "it_domains (sample_iter ''Running'' [''b.ts.net'']) = Inr [''b.ts.net'']"
    "ExpectedIssuerHost (d_cfg sample_deps) \<notin> set [''b.ts.net'']"
    by (simp_all add: holds_def keyed_server_def runner_init_def sample_deps_def sample_iter_def)
  from mismatch_is_fatal [OF this] show ?thesis by (auto simp: runner_init_def)
qed

end
