(* ===== verification/Process.thy ===== *)
theory Process
  imports Handler HA Config Runner
begin

text \<open>
  \<open>cmd/oidc-proxy/main.go\<close>: how the process is put together and how it ends. Files, listeners,
  signals and the two servers' outcomes are arguments; the components are those of the other
  theories.
\<close>

section \<open>Errors and logs of the process\<close>

fun firstErr :: "go_error option list \<Rightarrow> go_error option" where
  "firstErr [] = None"
| "firstErr (e # es) = (if e \<noteq> None then e else firstErr es)"

definition stop_attrs :: "go_error option \<Rightarrow> attr list" where
  "stop_attrs runErr =
     [(''result'', AString ''success'')] @
     (case runErr of
        None \<Rightarrow> []
      | Some e \<Rightarrow>
          [(''result'', AString ''error''), (''error_kind'', AString (processErrorKind e)),
           (''error'', AString (processErrorSummary e))])"

definition logProcessStop :: "logger \<Rightarrow> go_error option \<Rightarrow> obs \<Rightarrow> obs" where
  "logProcessStop lg runErr =
     Log lg (if runErr = None then LevelInfo else LevelError) ''process'' ''process_stop''
       ''process stopping'' (stop_attrs runErr)"

definition bootstrapLogger :: "env \<Rightarrow> handler" where
  "bootstrapLogger env =
     (let format = (case ParseFormat (env ''LOG_FORMAT'') of None \<Rightarrow> FormatJSON | Some f \<Rightarrow> f) in
      case NewLogger format LevelInfo of None \<Rightarrow> JSONHandler LevelInfo | Some h \<Rightarrow> h)"

section \<open>Putting the components together\<close>

definition newRuntimeState :: "bool \<Rightarrow> runtimeState" where
  "newRuntimeState enabled = SetLeaderElectionEnabled enabled new_runtimeState"

text \<open>The functions behind the probes: the runtime state and the cache's readiness.\<close>

definition health_view_of :: "runtimeState \<Rightarrow> bool \<Rightarrow> health_view" where
  "health_view_of s cacheReady =
     \<lparr>hv_live = Some (state_Live s), hv_ready = Some (state_Ready cacheReady s),
      hv_leader = Some (state_LeaderReady cacheReady s)\<rparr>"

definition buildOIDCHandler :: "config \<Rightarrow> oidc_handler" where
  "buildOIDCHandler c =
     (New_oidc_handler (c_IssuerURL c) (c_DiscoveryMaxAgeHeader c))\<lparr>has_MetricsHandler := True\<rparr>"

definition buildTSNetFactory :: "config \<Rightarrow> handler \<Rightarrow> RealServerConfig" where
  "buildTSNetFactory c lg =
     \<lparr>rc_Hostname = c_TSHostname c, rc_StateSecret = c_TSStateSecret c, rc_sLogger = Some lg\<rparr>"

definition buildAuthMinter :: "config \<Rightarrow> handler \<Rightarrow> OAuthMinter" where
  "buildAuthMinter c lg =
     \<lparr>ClientID = c_TSAPIClientID c, ClientSecret = c_TSAPIClientSecret c, Tags = [c_TSTag c],
      BaseURL = [], mi_Logger = Some lg\<rparr>"

definition buildRunnerConfig :: "host_parser \<Rightarrow> config \<Rightarrow> handler \<Rightarrow> (go_error, runner_config) result" where
  "buildRunnerConfig parseHost c lg =
     (case url_Parse parseHost (c_IssuerURL c) of
        None \<Rightarrow> Inl (ErrText ''parse issuer URL'')
      | Some u \<Rightarrow>
          Inr \<lparr>FunnelAddr = c_FunnelAddr c, rn_HTTPTimeouts = DefaultHTTPTimeouts,
               StartTimeout = c_TSStartTimeout c, ShutdownTimeout = c_ShutdownTimeout c,
               PollInterval = c_TSStatusPollInterval c, rn_Logger = Some lg,
               ExpectedIssuerHost = url_Hostname u\<rparr>)"

definition allowlist_of :: "config \<Rightarrow> AllowlistConfig" where
  "allowlist_of c =
     \<lparr>al_Enabled = c_SourceIPAllowlistEnabled c, al_CIDRs = c_SourceIPAllowlistCIDRs c\<rparr>"

definition leader_config_of :: "config \<Rightarrow> logger \<Rightarrow> leader_config" where
  "leader_config_of c lg =
     \<lparr>LeaseName = c_LeaderElectionLeaseName c, Namespace = c_LeaderElectionNamespace c,
      Identity = c_LeaderElectionIdentity c, LeaseDuration = c_LeaderElectionLeaseDuration c,
      RenewDeadline = c_LeaderElectionRenewDeadline c, RetryPeriod = c_LeaderElectionRetryPeriod c,
      lc_Logger = lg\<rparr>"

text \<open>What starting the cache meets: the CA file, the priming fetch and two clock readings.\<close>

record cache_env =
  ce_ca :: "(go_error, bytes) result"
  ce_appendCerts :: "bytes \<Rightarrow> bool"
  ce_fetch :: fetch_env
  ce_store :: time
  ce_metric :: time

definition startCache ::
  "config \<Rightarrow> handler \<Rightarrow> handler \<Rightarrow> cache_env \<Rightarrow> obs \<Rightarrow> (go_error, cache) result \<times> obs" where
  "startCache c lg slog_default env s =
     (case NewHTTPFetcher DefaultJWKSUpstreamURL DefaultSATokenPath DefaultSACAPath (Some lg) slog_default
             (ce_ca env) (ce_appendCerts env) of
        Inl e \<Rightarrow> (Inl (ErrWrap ''jwks fetcher'' e), s)
      | Inr f \<Rightarrow>
          (let cache0 = NewCache (c_JWKSCacheTTL c) (c_JWKSCacheMaxAgeHeader c) (Some lg) slog_default;
               ((cache1, s1), err) =
                 Prime json_Marshal (Fetch f (ce_fetch env)) (ce_store env) (ce_metric env) (cache0, s)
           in case err of
                Some e \<Rightarrow> (Inl (ErrWrap ''jwks prime'' e), s1)
              | None \<Rightarrow> (Inr cache1, s1)))"

record processConfig =
  pc_handler :: oidc_handler
  pc_cache :: cache
  pc_state :: runtimeState
  pc_runner :: run_deps
  pc_leader :: "leader_config option"
  pc_allowlist :: AllowlistConfig

definition setupProcess ::
  "host_parser \<Rightarrow> config \<Rightarrow> handler \<Rightarrow> handler \<Rightarrow> cache_env \<Rightarrow> obs \<Rightarrow>
     (go_error, processConfig) result \<times> obs" where
  "setupProcess parseHost c lg slog_default env s =
     (let st0 = newRuntimeState (c_LeaderElectionEnabled c);
          s0 = s\<lparr>obs_metrics := Some (New_metrics (wrap64 (c_JWKSCacheTTL c + c_JWKSCacheMaxAgeHeader c)))\<rparr>;
          (cr, s1) = startCache c lg slog_default env s0
      in case cr of
           Inl e \<Rightarrow> (Inl e, s1)
         | Inr cache1 \<Rightarrow>
             (let (st1, s2) =
                (if \<not> c_LeaderElectionEnabled c
                 then (SetLeader True st0, record_if (SetLeader_metric True) s1) else (st0, s1))
              in case buildRunnerConfig parseHost c lg of
                   Inl e \<Rightarrow> (Inl e, s2)
                 | Inr rcfg \<Rightarrow>
                     (Inr \<lparr>pc_handler = buildOIDCHandler c, pc_cache = cache1, pc_state = st1,
                           pc_runner = \<lparr>d_cfg = rcfg, d_factory = buildTSNetFactory c lg,
                             d_minter = buildAuthMinter c lg, d_slog_default = slog_default\<rparr>,
                           pc_leader = (if c_LeaderElectionEnabled c then Some (leader_config_of c (Some lg))
                                        else None),
                           pc_allowlist = allowlist_of c\<rparr>, s2)))"

section \<open>Running and stopping\<close>

record health_env =
  he_listen :: "go_error option"
  he_serve :: "go_error option"

definition health_result :: "health_env \<Rightarrow> go_error option" where
  "health_result env =
     (case he_serve env of
        None \<Rightarrow> None
      | Some e \<Rightarrow> if errors_Is e ErrServerClosed then None else Some (ErrWrap ''health server'' e))"

definition startHealthServer :: "logger \<Rightarrow> string \<Rightarrow> health_env \<Rightarrow> obs \<Rightarrow> (go_error, obs) result" where
  "startHealthServer lg addr env s =
     (case he_listen env of
        Some e \<Rightarrow> Inl (ErrWrap (''health listen '' @ addr) e)
      | None \<Rightarrow>
          Inr (Info lg ''health_http'' ''health_server_start'' ''health server started''
                 [(''addr'', AString addr)] (record_if RecordHealthServerStart s)))"

text \<open>Which channel the \<open>select\<close> receives from first; both are received from in the end.\<close>

datatype first_exit = RunnerFirst | HealthFirst

record wait_env =
  we_first :: first_exit
  we_runErr :: "go_error option"
  we_shutdown :: "go_error option"

definition runProcessWithHealthServer ::
  "logger \<Rightarrow> string \<Rightarrow> health_env \<Rightarrow> wait_env \<Rightarrow> obs \<Rightarrow> go_error option \<times> obs" where
  "runProcessWithHealthServer lg addr henv wenv s =
     (case startHealthServer lg addr henv s of
        Inl e \<Rightarrow> (Some e, s)
      | Inr s1 \<Rightarrow>
          (let healthErr = health_result henv;
               runErr0 = (case we_first wenv of
                            RunnerFirst \<Rightarrow> we_runErr wenv
                          | HealthFirst \<Rightarrow> firstErr [healthErr, we_runErr wenv]);
               runErr1 = (case we_shutdown wenv of
                            None \<Rightarrow> runErr0
                          | Some e \<Rightarrow>
                              if errors_Is e ErrServerClosed then runErr0
                              else firstErr [runErr0, Some (ErrWrap ''health shutdown'' e)]);
               runErr2 = (case we_first wenv of
                            RunnerFirst \<Rightarrow> firstErr [runErr1, healthErr]
                          | HealthFirst \<Rightarrow> runErr1)
           in (runErr2, s1)))"

definition start_attrs :: "config \<Rightarrow> string \<Rightarrow> string \<Rightarrow> attr list" where
  "start_attrs c host level =
     [(''hostname'', AString (c_TSHostname c)), (''funnel_addr'', AString (c_FunnelAddr c)),
      (''issuer_host'', AString host), (''log_format'', AString (c_LogFormat c)),
      (''log_level'', AString level),
      (''source_ip_allowlist_enabled'', ABool (c_SourceIPAllowlistEnabled c)),
      (''source_ip_allowlist_cidr_count'', AInt (int (length (c_SourceIPAllowlistCIDRs c))))]"

record process_env =
  pe_vars :: env
  pe_parseHost :: host_parser
  pe_level_text :: "int \<Rightarrow> string"
  pe_cache :: cache_env
  pe_health :: health_env
  pe_wait :: "processConfig \<Rightarrow> wait_env"

text \<open>
  \<open>run\<close>: the error it returns, and every record it leaves. How long the process runs and what the
  runner returns is \<open>pe_wait\<close>; \<open>pe_level_text\<close> is the text of a log level.
\<close>

definition run_main :: "handler \<Rightarrow> process_env \<Rightarrow> obs \<Rightarrow> go_error option \<times> obs" where
  "run_main boot env s0 =
     (case Load (pe_parseHost env) (pe_vars env) of
        Inl _ \<Rightarrow> (let e = Some (ErrText ''config'') in (e, logProcessStop (Some boot) e s0))
      | Inr c \<Rightarrow>
          (case NewLogger (c_LogFormat c) (c_LogLevel c) of
             None \<Rightarrow> (let e = Some (ErrText ''logger'') in (e, logProcessStop (Some boot) e s0))
           | Some lg \<Rightarrow>
               (let s1 = s0\<lparr>default_logger := lg\<rparr> in
                case url_Parse (pe_parseHost env) (c_IssuerURL c) of
                  None \<Rightarrow>
                    (let e = Some (ErrText ''parse issuer URL'') in (e, logProcessStop (Some lg) e s1))
                | Some u \<Rightarrow>
                    (let s2 = Info (Some lg) ''process'' ''process_start'' ''process starting''
                           (start_attrs c (url_Hostname u) (pe_level_text env (c_LogLevel c))) s1;
                         (p, s3) = setupProcess (pe_parseHost env) c lg lg (pe_cache env) s2
                     in case p of
                          Inl e \<Rightarrow> (Some e, logProcessStop (Some lg) (Some e) s3)
                        | Inr pc \<Rightarrow>
                            (let (e, s4) = runProcessWithHealthServer (Some lg) (c_HealthAddr c)
                                   (pe_health env) (pe_wait env pc) s3
                             in (e, logProcessStop (Some lg) e s4))))))"

definition exit_code :: "go_error option \<Rightarrow> int" where
  "exit_code e = (if e = None then 0 else 1)"

definition main_program :: "process_env \<Rightarrow> obs \<Rightarrow> int \<times> obs" where
  "main_program env s =
     (let boot = bootstrapLogger (pe_vars env);
          (e, t) = run_main boot env (s\<lparr>default_logger := boot\<rparr>)
      in (exit_code e, t))"

section \<open>Properties\<close>

text \<open>C15: No failure of a supervised part is swallowed: the process ends without an error exactly
  when the health listener opened, the runner returned nil, the health server ended by being closed
  and its shutdown succeeded; whichever of the two servers ended first.\<close>

theorem process_failures_surface:
  "fst (runProcessWithHealthServer lg addr henv wenv s) = None \<longleftrightarrow>
     he_listen henv = None \<and> we_runErr wenv = None \<and>
     (\<forall>e. he_serve henv = Some e \<longrightarrow> errors_Is e ErrServerClosed) \<and>
     (\<forall>e. we_shutdown wenv = Some e \<longrightarrow> errors_Is e ErrServerClosed)"
  by (auto simp: runProcessWithHealthServer_def startHealthServer_def health_result_def Let_def
      split: option.splits first_exit.splits if_splits)

theorem process_failures_surface_witness:
  "fst (runProcessWithHealthServer None [] \<lparr>he_listen = None, he_serve = Some ErrServerClosed\<rparr>
     \<lparr>we_first = RunnerFirst, we_runErr = None, we_shutdown = None\<rparr> sample_obs) = None"
  unfolding process_failures_surface by (simp add: errors_Is_def)

text \<open>A failing process logs its stop with two results. The attribute list starts with
  \<open>result=success\<close> and the error's own \<open>result=error\<close> is appended to it, so a reader that takes
  the first sees success.\<close>

lemma stop_log_result_twice:
  assumes "handler_level h \<le> LevelError"
  shows "\<exists>r. emitted (logProcessStop (Some h) (Some e) s) = emitted s @ [r] \<and> lr_level r = LevelError \<and>
    [v. (k, v) \<leftarrow> lr_attrs r, k = ''result''] = [AString ''success'', AString ''error'']"
  using assms by (simp add: logProcessStop_def Log_def LogAttrs_def stop_attrs_def)

lemma setup_cache:
  assumes "setupProcess ph c lg df env s = (Inr pc, s')"
  shows "\<exists>f j. Fetch f (ce_fetch env) = Inr j \<and> f_url f = DefaultJWKSUpstreamURL \<and>
    pc_cache pc = store (Marshal j) (ce_store env)
      (NewCache (c_JWKSCacheTTL c) (c_JWKSCacheMaxAgeHeader c) (Some lg) df)"
proof -
  obtain s0 s1 where "startCache c lg df env s0 = (Inr (pc_cache pc), s1)"
    using assms by (auto simp: setupProcess_def Let_def split: prod.splits sum.splits if_splits)
  then show ?thesis
    by (auto simp: startCache_def Prime_def json_Marshal_def NewHTTPFetcher_def Let_def
        split: sum.splits prod.splits option.splits if_splits) (intro exI conjI, assumption, simp_all)
qed

lemma setup_ready:
  assumes "Load parseHost evars = Inr c" and "setupProcess parseHost c lg df env s = (Inr pc, s')"
    and "c_JWKSCacheMaxAgeHeader c + c_JWKSCacheTTL c < 2 ^ 63" and "0 < ce_store env"
    and "now < ce_store env + c_JWKSCacheMaxAgeHeader c + c_JWKSCacheTTL c"
  shows "Ready now (pc_cache pc) \<and>
    (\<exists>j. valid_jwks j \<and> fst (Current now (pc_cache pc)) = Marshal j)"
proof -
  let ?c0 = "NewCache (c_JWKSCacheTTL c) (c_JWKSCacheMaxAgeHeader c) (Some lg) df"
  obtain f j where j: "Fetch f (ce_fetch env) = Inr j"
    and pc: "pc_cache pc = store (Marshal j) (ce_store env) ?c0"
    using setup_cache [OF assms(2)] by blast
  have "valid_config parseHost c" using assms(1) by (rule Load_valid)
  then have sane: "sane ?c0" using assms(3)
    by (auto simp: valid_config_def duration_checks_def sane_def NewCache_def)
  then have pos: "0 < c_JWKSCacheMaxAgeHeader c + c_JWKSCacheTTL c"
    by (simp add: sane_def NewCache_def)
  from Current_store [OF sane, of now j "ce_store env"]
  have "fst (Current now (pc_cache pc)) = Marshal j"
    using assms(4,5) pos by (simp add: pc spec_current_def NewCache_def max_def)
  then show ?thesis using Fetch_valid [OF j] by (auto simp: Ready_Current)
qed

text \<open>C12: Startup fails fast or serves. Let maximum age plus refresh interval of a loaded configuration
  fit an \<open>int64\<close> (\<open>stale_window_overflow\<close> is the other case) and the clock not stand at its zero. If
  setting it up succeeds, the cache is ready and serves a key set that passed the gate, until maximum
  age plus refresh interval have passed since it was stored.\<close>

theorem startup_ready:
  assumes "Load parseHost evars = Inr c" and "setupProcess parseHost c lg df env s = (Inr pc, s')"
    and "c_JWKSCacheMaxAgeHeader c + c_JWKSCacheTTL c < 2 ^ 63" and "0 < ce_store env"
    and "now < ce_store env + c_JWKSCacheMaxAgeHeader c + c_JWKSCacheTTL c"
  shows "Ready now (pc_cache pc) \<and>
    (\<exists>j. valid_jwks j \<and> fst (Current now (pc_cache pc)) = Marshal j)"
  using assms by (rule setup_ready)

definition sample_cache_env :: cache_env where
  "sample_cache_env =
     \<lparr>ce_ca = Inr ''pem'', ce_appendCerts = (\<lambda>_. True), ce_fetch = sample_env, ce_store = 60, ce_metric = 60\<rparr>"

lemma sample_fetch_any: "Fetch f sample_env = Inr sample_jwks"
  using sample_fetch by (simp add: Fetch_ok sample_env_def)

lemma sample_parse_issuer: "\<exists>u. url_Parse plain_host (c_IssuerURL sample_config) = Some u"
proof -
  have "url_Parse plain_host (c_IssuerURL sample_config) \<noteq> None" by code_simp
  then show ?thesis by auto
qed

lemma sample_setup:
  "\<exists>pc s'. setupProcess plain_host sample_config (JSONHandler 0) (JSONHandler 0) sample_cache_env s = (Inr pc, s')"
proof -
  obtain u where "url_Parse plain_host (c_IssuerURL sample_config) = Some u" using sample_parse_issuer by blast
  then show ?thesis
    by (simp add: setupProcess_def startCache_def NewHTTPFetcher_def sample_cache_env_def Prime_def
        sample_fetch_any json_Marshal_def buildRunnerConfig_def Let_def split: if_splits)
qed

theorem startup_ready_witness:
  "\<exists>pc. Ready 61 (pc_cache pc) \<and>
    (\<exists>s'. setupProcess plain_host sample_config (JSONHandler 0) (JSONHandler 0) sample_cache_env sample_obs = (Inr pc, s'))"
proof -
  obtain pc s' where st: "setupProcess plain_host sample_config (JSONHandler 0) (JSONHandler 0)
      sample_cache_env sample_obs = (Inr pc, s')" using sample_setup by blast
  have d: "c_JWKSCacheMaxAgeHeader sample_config + c_JWKSCacheTTL sample_config = 120000000000" by code_simp
  have "c_JWKSCacheMaxAgeHeader sample_config + c_JWKSCacheTTL sample_config < 2 ^ 63" unfolding d by simp
  moreover have "0 < ce_store sample_cache_env"
    "61 < ce_store sample_cache_env + c_JWKSCacheMaxAgeHeader sample_config + c_JWKSCacheTTL sample_config"
    using d by (simp_all add: sample_cache_env_def)
  ultimately have "Ready 61 (pc_cache pc)" using startup_ready [OF sample_Load st] by blast
  then show ?thesis using st by blast
qed

text \<open>C33: The two validations agree: a loaded configuration with leader election enabled passes
  the elector's own, with no default filled in.\<close>

theorem loaded_config_passes_elector:
  assumes "Load parseHost evars = Inr c" and "c_LeaderElectionEnabled c"
  shows "leader_validate (leader_defaults df (leader_config_of c (Some lg))) = Inr () \<and>
    leader_defaults df (leader_config_of c (Some lg)) = leader_config_of c (Some lg)"
proof -
  have v: "valid_config parseHost c" using assms(1) by (rule Load_valid)
  then have "0 < c_LeaderElectionRetryPeriod c" by (simp add: valid_config_def duration_checks_def)
  then have d: "leader_defaults df (leader_config_of c (Some lg)) = leader_config_of c (Some lg)"
    using v assms(2) by (auto simp: valid_config_def leader_defaults_def leader_config_of_def Let_def)
  show ?thesis unfolding d using v assms(2) \<open>0 < c_LeaderElectionRetryPeriod c\<close>
    by (simp add: leader_validate_iff valid_config_def leader_config_of_def)
qed

definition ha_vars :: "(string \<times> string) list" where
  "ha_vars = [(''LEADER_ELECTION_ENABLED'', ''true''), (''LEADER_ELECTION_LEASE_NAME'', ''l''),
     (''POD_NAMESPACE'', ''n''), (''POD_NAME'', ''p'')] @ sample_vars"

theorem loaded_config_passes_elector_witness:
  "\<exists>c. Load plain_host (vars ha_vars) = Inr c \<and>
     leader_validate (leader_defaults (JSONHandler 0) (leader_config_of c (Some (JSONHandler 0)))) = Inr ()"
proof -
  have "case Load plain_host (vars ha_vars) of Inl e \<Rightarrow> False | Inr c \<Rightarrow> c_LeaderElectionEnabled c"
    by code_simp
  then obtain c where "Load plain_host (vars ha_vars) = Inr c" "c_LeaderElectionEnabled c"
    by (auto split: sum.splits)
  then show ?thesis using loaded_config_passes_elector by blast
qed

text \<open>C28: The probes tell the truth about the key endpoint. At an instant at which \<open>/readyz\<close> or
  \<open>/leaderz\<close> answers 200, the key endpoint answers 200 with the cached keys.\<close>

theorem ready_probe_means_keys:
  assumes "x_w x = new_response" and "x_w y = new_response"
    and "f \<in> {hv_ready (health_view_of s (Ready now c)), hv_leader (health_view_of s (Ready now c))}"
    and "final_status (x_w (handle_probe f x)) = 200"
  shows "final_status (x_w (handleJWKS (Current now c) (Ready now c) y)) = 200 \<and>
    rw_body (x_w (handleJWKS (Current now c) (Ready now c) y)) = current c"
proof -
  have "f \<noteq> Some False" using assms(1,4)
    by (auto simp: handle_probe_def final_status_def new_response_def)
  then have r: "Ready now c" using assms(3)
    by (auto simp: health_view_of_def state_Ready_def state_LeaderReady_def split: if_splits)
  then have cur: "fst (Current now c) = current c" "fst (Current now c) \<noteq> []"
    by (auto simp: Ready_def Current_def Ready_Current [symmetric] split: prod.splits)
  show ?thesis unfolding cache_provider.handleJWKS_cases using r assms(2) cur
    by (simp add: final_status_def new_response_def)
qed

theorem ready_probe_means_keys_witness:
  "final_status (x_w (handleJWKS (Current 61 (store (Marshal sample_jwks) 60 sample_cache))
     (Ready 61 (store (Marshal sample_jwks) 60 sample_cache)) sample_exchange)) = 200"
proof -
  let ?c = "store (Marshal sample_jwks) 60 sample_cache"
  let ?s = "SetPublicReady True (newRuntimeState False)"
  have "hv_ready (health_view_of ?s (Ready 61 ?c)) = Some True" by code_simp
  then have "final_status (x_w (handle_probe (hv_ready (health_view_of ?s (Ready 61 ?c))) sample_exchange)) = 200"
    by (simp add: handle_probe_def final_status_def sample_exchange_def new_response_def)
  then show ?thesis
    using ready_probe_means_keys [OF sample_exchange_new sample_exchange_new, of _ ?s 61 ?c] by blast
qed

text \<open>C39: The host check can be configured away. An issuer whose authority is a lone colon passes
  validation where the parser accepts an empty port, and the host name derived from it is empty,
  which the runner takes as no expectation: it then serves under any certificate name.\<close>

theorem colon_issuer_disables_host_check:
  assumes "parseHost '':'' = Some '':''" and "c_IssuerURL c = ''https://:''"
  shows "validateIssuerURL parseHost c = Inr () \<and>
    (\<exists>rc. buildRunnerConfig parseHost c lg = Inr rc \<and> ExpectedIssuerHost rc = [] \<and>
      (\<forall>ds r s. verifyIssuerHost rc ds r s = (s, None)))"
proof -
  have l: "list_all (\<lambda>c. \<not> ctl_byte c) '':''" by (simp add: ctl_byte_def)
  have sp: "splitHostPort '':'' = ([], [])" by code_simp
  have u: "url_Parse parseHost ''https://:'' = Some
    \<lparr>u_Scheme = ''https'', u_Opaque = [], u_User = None, u_Host = '':'', u_Path = [], u_RawQuery = [],
     u_Fragment = []\<rparr>"
    using parse_url_https [OF l, of parseHost "'':''" "[]"] assms(1) by (simp add: url_Parse_def Cut_absent)
  then show ?thesis using assms(2) sp
    by (simp add: validateIssuerURL_def url_Port_def buildRunnerConfig_def url_Hostname_def verifyIssuerHost_def)
qed

definition port_host :: host_parser where
  "port_host h = (if validOptionalPort (dropWhile (\<lambda>c. c \<noteq> CHR '':'') h) then Some h else None)"

theorem colon_issuer_disables_host_check_witness:
  "validateIssuerURL port_host (sample_config\<lparr>c_IssuerURL := ''https://:''\<rparr>) = Inr ()"
proof -
  have "port_host '':'' = Some '':''" by code_simp
  then show ?thesis using colon_issuer_disables_host_check [of port_host "sample_config\<lparr>c_IssuerURL := ''https://:''\<rparr>"]
    by simp
qed

end
