(* ===== verification/Serve.thy ===== *)
theory Serve
  imports Runner Transition
begin

text \<open>
  \<open>serveOnce\<close> of \<open>internal/tsrunner/runner.go\<close> with its goroutines: the one in \<open>srv.Serve\<close>, the
  watcher that polls the backend, and the caller with its \<open>select\<close>. Theory Runner takes the arm of
  the \<open>select\<close> as given and the watcher's records as written before it; here the goroutines
  interleave, and the sequential version is shown to be what every interleaving amounts to, but for
  the order of log records. Of \<open>http.Server\<close> the model uses its documented contract: once \<open>Shutdown\<close>
  was called, \<open>Serve\<close> returns \<open>ErrServerClosed\<close>.
\<close>

section \<open>State and events\<close>

datatype watch_status = Watching | WatchClosed

text \<open>What the caller has left after its \<open>select\<close>; the deferred calls are part of it.\<close>

datatype serve_action =
    PubOff
  | LogFlip
  | CountRestart
  | LogRestart
  | CallShutdown
  | AwaitShutdown
  | RecvServe
  | CancelWatch
  | Return "go_error option"

record serve_sys =
  ss_run :: run_state
  ss_ctx :: bool
  ss_serve :: "go_error option reporter"
  ss_watch :: watch_status
  ss_cancelled :: bool
  ss_shut :: bool
  ss_main :: "serve_action list option"
  ss_ret :: "go_error option option"

definition deferred_calls :: "go_error option \<Rightarrow> serve_action list" where
  "deferred_calls err = [CancelWatch, PubOff, Return err]"

definition ctx_arm :: "serve_action list" where
  "ctx_arm = [PubOff, CallShutdown, AwaitShutdown, RecvServe] @ deferred_calls None"

definition flipped_arm :: "serve_action list" where
  "flipped_arm =
     [LogFlip, CountRestart, LogRestart, PubOff, CallShutdown, AwaitShutdown, RecvServe] @ deferred_calls None"

definition serve_failed_arm :: "go_error option \<Rightarrow> serve_action list" where
  "serve_failed_arm err =
     PubOff # deferred_calls
       (if (case err of None \<Rightarrow> False | Some e \<Rightarrow> errors_Is e ErrServerClosed) then None else err)"

text \<open>\<open>Main\<close> is the caller's next action, with the outcome of \<open>Shutdown\<close> where it awaits it.\<close>

datatype serve_event =
    CtxEnds
  | ServeEnds "go_error option"
  | WatchPolls "(go_error, string) result"
  | WatchStops
  | TakeCtx
  | TakeFlipped
  | TakeServe
  | Main "go_error option"

definition serve_enabled :: "serve_event \<Rightarrow> serve_sys \<Rightarrow> bool" where
  "serve_enabled ev st \<longleftrightarrow>
     (case ev of
        CtxEnds \<Rightarrow> True
      | ServeEnds err \<Rightarrow> ss_serve st = Running \<and> (ss_shut st \<longrightarrow> err = Some ErrServerClosed)
      | WatchPolls _ \<Rightarrow> ss_watch st = Watching
      | WatchStops \<Rightarrow> ss_watch st = Watching \<and> (ss_ctx st \<or> ss_cancelled st)
      | TakeCtx \<Rightarrow> ss_main st = None \<and> ss_ctx st
      | TakeFlipped \<Rightarrow> ss_main st = None \<and> ss_watch st = WatchClosed
      | TakeServe \<Rightarrow> ss_main st = None \<and> reported (ss_serve st)
      | Main _ \<Rightarrow>
          (case ss_main st of
             None \<Rightarrow> False
           | Some [] \<Rightarrow> False
           | Some (a # as) \<Rightarrow> a = RecvServe \<longrightarrow> reported (ss_serve st)))"

text \<open>The caller's actions on what it shares with the rest of the program.\<close>

fun main_effect :: "runner_config \<Rightarrow> go_error option \<Rightarrow> serve_action \<Rightarrow> run_state \<Rightarrow> run_state" where
  "main_effect cfg out PubOff s = SetPub False s"
| "main_effect cfg out LogFlip s = on_log (logStateChange (rn_Logger cfg) BackendStateNeedsLogin) s"
| "main_effect cfg out CountRestart s = on_log (record_if (RecordPublicListenerRestart ''needs_login'')) s"
| "main_effect cfg out LogRestart s = on_log (logListenerRestart (rn_Logger cfg) ''needs_login'') s"
| "main_effect cfg out AwaitShutdown s = on_log (shutdown (rn_Logger cfg) out) s"
| "main_effect cfg out a s = s"

fun main_control :: "serve_action \<Rightarrow> serve_sys \<Rightarrow> serve_sys" where
  "main_control CallShutdown st = st\<lparr>ss_shut := True\<rparr>"
| "main_control RecvServe st = st\<lparr>ss_serve := receive (ss_serve st)\<rparr>"
| "main_control CancelWatch st = st\<lparr>ss_cancelled := True\<rparr>"
| "main_control (Return err) st = st\<lparr>ss_ret := Some err\<rparr>"
| "main_control a st = st"

fun serve_apply :: "runner_config \<Rightarrow> realServer \<Rightarrow> serve_event \<Rightarrow> serve_sys \<Rightarrow> serve_sys" where
  "serve_apply cfg r CtxEnds st = st\<lparr>ss_ctx := True\<rparr>"
| "serve_apply cfg r (ServeEnds err) st = st\<lparr>ss_serve := Reported err\<rparr>"
| "serve_apply cfg r (WatchPolls out) st =
     (case BackendState out r of
        Inl e \<Rightarrow> st\<lparr>ss_run := on_log (logStatePollFailure (rn_Logger cfg) (Some e)) (ss_run st)\<rparr>
      | Inr state \<Rightarrow> if state = BackendStateNeedsLogin then st\<lparr>ss_watch := WatchClosed\<rparr> else st)"
| "serve_apply cfg r WatchStops st = st\<lparr>ss_watch := WatchClosed\<rparr>"
| "serve_apply cfg r TakeCtx st = st\<lparr>ss_main := Some ctx_arm\<rparr>"
| "serve_apply cfg r TakeFlipped st = st\<lparr>ss_main := Some flipped_arm\<rparr>"
| "serve_apply cfg r TakeServe st =
     (case ss_serve st of
        Reported err \<Rightarrow> st\<lparr>ss_serve := receive (ss_serve st), ss_main := Some (serve_failed_arm err)\<rparr>
      | _ \<Rightarrow> st)"
| "serve_apply cfg r (Main out) st =
     (case ss_main st of
        Some (a # as) \<Rightarrow>
          main_control a (st\<lparr>ss_run := main_effect cfg out a (ss_run st), ss_main := Some as\<rparr>)
      | _ \<Rightarrow> st)"

abbreviation serve_step ::
  "runner_config \<Rightarrow> realServer \<Rightarrow> serve_event \<Rightarrow> serve_sys \<Rightarrow> serve_sys \<Rightarrow> bool" where
  "serve_step cfg r \<equiv> lts_step serve_enabled (serve_apply cfg r)"

abbreviation serve_reach ::
  "runner_config \<Rightarrow> realServer \<Rightarrow> serve_sys \<Rightarrow> serve_event list \<Rightarrow> serve_sys \<Rightarrow> bool" where
  "serve_reach cfg r \<equiv> lts_reach serve_enabled (serve_apply cfg r)"

lemmas serve_event = lts_event [where en = serve_enabled and ap = "serve_apply cfg r" for cfg r]

text \<open>Where the goroutines are when the listener is open and the caller reaches its \<open>select\<close>.\<close>

definition serve_init :: "run_state \<Rightarrow> bool \<Rightarrow> serve_sys" where
  "serve_init s ctx =
     \<lparr>ss_run = SetPub True (SetPub False s), ss_ctx = ctx, ss_serve = Running, ss_watch = Watching,
      ss_cancelled = False, ss_shut = False, ss_main = None, ss_ret = None\<rparr>"

section \<open>Forgetting the log\<close>

definition mute :: "obs \<Rightarrow> obs" where
  "mute s = s\<lparr>emitted := []\<rparr>"

definition forget :: "run_state \<Rightarrow> run_state" where
  "forget s = s\<lparr>r_obs := mute (r_obs s)\<rparr>"

lemma mute_Log: "mute (Log l v c e m as s) = mute s"
  by (simp add: mute_def Log_def LogAttrs_def Let_def)

lemma mute_logs [simp]:
  "mute (logStatePollFailure l err s) = mute s" "mute (logStateChange l state s) = mute s"
  "mute (logListenerRestart l x s) = mute s" "mute (shutdown l out s) = mute s"
  by (auto simp: logStatePollFailure_def logStateChange_def logListenerRestart_def shutdown_def
      logHTTPShutdownFailure_def log_defs mute_Log split: option.splits)

lemma forget_on_log: "(\<And>x. mute (f x) = mute x) \<Longrightarrow> forget (on_log f s) = forget s"
  by (simp add: forget_def on_log_def)

lemma forget_logs [simp]:
  "forget (on_log (logStatePollFailure l err) s) = forget s"
  "forget (on_log (logStateChange l state) s) = forget s"
  "forget (on_log (logListenerRestart l x) s) = forget s"
  "forget (on_log (shutdown l out) s) = forget s"
  by (simp_all add: forget_on_log)

lemma mute_record_if: "mute x = mute y \<Longrightarrow> mute (record_if f x) = mute (record_if f y)"
  by (cases x; cases y) (simp add: mute_def record_if_def)

lemma forget_eqD:
  "forget s = forget t \<Longrightarrow> mute (r_obs s) = mute (r_obs t)"
  by (cases s; cases t) (simp add: forget_def)

lemma forget_on_log_cong:
  "forget s = forget t \<Longrightarrow> mute (f (r_obs s)) = mute (f (r_obs t)) \<Longrightarrow> forget (on_log f s) = forget (on_log f t)"
  by (cases s; cases t) (simp add: forget_def on_log_def)

lemma forget_SetPub: "forget s = forget t \<Longrightarrow> forget (SetPub v s) = forget (SetPub v t)"
  by (cases s; cases t) (simp add: forget_def SetPub_def)

lemma forget_main_effect:
  "forget s = forget t \<Longrightarrow> forget (main_effect cfg out a s) = forget (main_effect cfg out' a t)"
  by (cases a) (auto intro: forget_SetPub forget_on_log_cong mute_record_if dest: forget_eqD)

section \<open>What an arm amounts to\<close>

definition run_arm :: "runner_config \<Rightarrow> serve_action list \<Rightarrow> run_state \<Rightarrow> run_state" where
  "run_arm cfg as s = fold (main_effect cfg None) as s"

text \<open>
  The arms the caller may be in, with the arm of the sequential version each stands for and what
  must have happened for it to be taken.
\<close>

definition arm_of :: "serve_sys \<Rightarrow> serve_arm \<Rightarrow> serve_action list \<Rightarrow> bool" where
  "arm_of st arm as \<longleftrightarrow>
     (case arm of
        ArmCtxDone \<Rightarrow> as = ctx_arm \<and> ss_ctx st
      | ArmFlipped \<Rightarrow> as = flipped_arm \<and> ss_watch st = WatchClosed
      | ArmServe err \<Rightarrow> as = serve_failed_arm err)"

text \<open>The caller's invariant: what it has done is a prefix of its arm, and the shared state is what
  that prefix makes of it, but for the log.\<close>

definition serve_inv :: "runner_config \<Rightarrow> run_state \<Rightarrow> serve_sys \<Rightarrow> bool" where
  "serve_inv cfg s0 st \<longleftrightarrow>
     (case ss_main st of
        None \<Rightarrow> forget (ss_run st) = forget s0 \<and> \<not> received (ss_serve st) \<and> \<not> ss_shut st \<and> ss_ret st = None
      | Some as \<Rightarrow>
          (\<exists>arm ds. arm_of st arm (ds @ as) \<and> forget (ss_run st) = forget (run_arm cfg ds s0) \<and>
             (CallShutdown \<in> set ds \<longrightarrow> ss_shut st) \<and>
             (RecvServe \<in> set ds \<or> (\<exists>err. arm = ArmServe err) \<longrightarrow> received (ss_serve st)) \<and>
             (RecvServe \<in> set as \<longrightarrow> \<not> received (ss_serve st)) \<and>
             (CancelWatch \<in> set ds \<longrightarrow> ss_cancelled st) \<and>
             (\<forall>err. ss_ret st = Some err \<longleftrightarrow> Return err \<in> set ds)))"

lemma main_control_frame [simp]:
  "ss_run (main_control a st) = ss_run st" "ss_main (main_control a st) = ss_main st"
  "ss_ctx (main_control a st) = ss_ctx st" "ss_watch (main_control a st) = ss_watch st"
  by (cases a; simp)+

lemmas arm_defs = ctx_arm_def flipped_arm_def serve_failed_arm_def deferred_calls_def

text \<open>The last action of an arm is its return, and the server's result is received at most once.\<close>

lemma Return_last:
  "arm_of st arm (ds @ Return err # as) \<Longrightarrow> as = [] \<and> (\<forall>e. Return e \<notin> set ds)"
  by (cases arm) (auto simp: arm_of_def arm_defs append_eq_Cons_conv Cons_eq_append_conv)

lemma Recv_once:
  "arm_of st arm (ds @ RecvServe # as) \<Longrightarrow> RecvServe \<notin> set as \<and> (\<forall>err. arm \<noteq> ArmServe err)"
  by (cases arm) (auto simp: arm_of_def arm_defs append_eq_Cons_conv Cons_eq_append_conv)

lemma arm_of_mono:
  "arm_of st arm as \<Longrightarrow> (ss_ctx st \<Longrightarrow> ss_ctx t) \<Longrightarrow> (ss_watch st = WatchClosed \<Longrightarrow> ss_watch t = WatchClosed) \<Longrightarrow>
     arm_of t arm as"
  by (auto simp: arm_of_def split: serve_arm.splits)

lemma serve_inv_main:
  assumes "serve_inv cfg s0 st" and "serve_enabled (Main out) st"
  shows "serve_inv cfg s0 (serve_apply cfg r (Main out) st)"
proof -
  obtain a as where m: "ss_main st = Some (a # as)"
    and recv: "a = RecvServe \<Longrightarrow> \<exists>err. ss_serve st = Reported err"
    using assms(2) by (auto simp: serve_enabled_def split: option.splits list.splits)
  obtain arm ds where arm: "arm_of st arm (ds @ a # as)"
    and fr: "forget (ss_run st) = forget (run_arm cfg ds s0)"
    and sh: "CallShutdown \<in> set ds \<longrightarrow> ss_shut st"
    and rd: "RecvServe \<in> set ds \<or> (\<exists>err. arm = ArmServe err) \<longrightarrow> received (ss_serve st)"
    and rp: "RecvServe \<in> set (a # as) \<longrightarrow> \<not> received (ss_serve st)"
    and cw: "CancelWatch \<in> set ds \<longrightarrow> ss_cancelled st"
    and rt: "\<forall>err. ss_ret st = Some err \<longleftrightarrow> Return err \<in> set ds"
    using assms(1) m by (auto simp: serve_inv_def)
  let ?st = "st\<lparr>ss_run := main_effect cfg out a (ss_run st), ss_main := Some as\<rparr>"
  let ?t = "main_control a ?st"
  have t: "serve_apply cfg r (Main out) st = ?t" by (simp add: m)
  have n1: "arm_of ?t arm ((ds @ [a]) @ as)" using arm_of_mono [OF arm, of ?t] by simp
  have n2: "forget (ss_run ?t) = forget (run_arm cfg (ds @ [a]) s0)"
    using forget_main_effect [OF fr] by (simp add: run_arm_def)
  have n3: "CallShutdown \<in> set (ds @ [a]) \<longrightarrow> ss_shut ?t" using sh by (cases a) auto
  have n4: "CancelWatch \<in> set (ds @ [a]) \<longrightarrow> ss_cancelled ?t" using cw by (cases a) auto
  have n5: "RecvServe \<in> set (ds @ [a]) \<or> (\<exists>err. arm = ArmServe err) \<longrightarrow> received (ss_serve ?t)"
    using rd recv by (cases a) (auto simp: received_iff)
  have n6: "RecvServe \<in> set as \<longrightarrow> \<not> received (ss_serve ?t)"
    using rp Recv_once [of st arm ds as] arm by (cases a) auto
  have n7: "\<forall>err. ss_ret ?t = Some err \<longleftrightarrow> Return err \<in> set (ds @ [a])"
    using rt Return_last [of st arm ds] arm by (cases a) auto
  have main: "ss_main ?t = Some as" by simp
  show ?thesis unfolding t serve_inv_def main option.case
    by (intro exI [of _ arm] exI [of _ "ds @ [a]"] conjI; fact)
qed

text \<open>Steps of the others: the caller's progress stays as it is.\<close>

lemma serve_inv_other:
  assumes "serve_inv cfg s0 st" and "ss_main t = ss_main st" and "forget (ss_run t) = forget (ss_run st)"
    and "ss_ctx st \<Longrightarrow> ss_ctx t" and "ss_watch st = WatchClosed \<Longrightarrow> ss_watch t = WatchClosed"
    and "received (ss_serve st) \<longleftrightarrow> received (ss_serve t)" and "ss_shut t = ss_shut st"
    and "ss_cancelled t = ss_cancelled st" and "ss_ret t = ss_ret st"
  shows "serve_inv cfg s0 t"
proof (cases "ss_main st")
  case None
  then show ?thesis using assms by (simp add: serve_inv_def)
next
  case (Some as)
  then show ?thesis using assms(1) arm_of_mono [OF _ assms(4,5)] assms(2,3,6-9)
    unfolding serve_inv_def by simp blast
qed

lemma serve_inv_take:
  assumes "serve_inv cfg s0 st" and "ss_main st = None" and "arm_of t arm as" and "ss_main t = Some as"
    and "ss_run t = ss_run st" and "ss_ret t = ss_ret st" and "\<forall>err. arm = ArmServe err \<longrightarrow> received (ss_serve t)"
    and "RecvServe \<in> set as \<longrightarrow> \<not> received (ss_serve t)"
  shows "serve_inv cfg s0 t"
  using assms unfolding serve_inv_def
  by (auto simp: run_arm_def intro!: exI [of _ arm] exI [of _ "[]"])

interpretation caller: state_invariant serve_enabled "serve_apply cfg r" "serve_inv cfg s0" for cfg r s0
proof
  fix ev st assume st: "serve_enabled ev st" and inv: "serve_inv cfg s0 st"
  show "serve_inv cfg s0 (serve_apply cfg r ev st)"
  proof (cases ev)
    case (Main out)
    then show ?thesis using serve_inv_main [OF inv] st by simp
  next
    case TakeCtx
    then show ?thesis using st inv
      by (intro serve_inv_take [OF inv, where arm = ArmCtxDone and as = ctx_arm])
        (auto simp: serve_enabled_def arm_of_def serve_inv_def)
  next
    case TakeFlipped
    then show ?thesis using st inv
      by (intro serve_inv_take [OF inv, where arm = ArmFlipped and as = flipped_arm])
        (auto simp: serve_enabled_def arm_of_def serve_inv_def)
  next
    case TakeServe
    then obtain err where "ss_serve st = Reported err" "ss_main st = None"
      using st by (auto simp: serve_enabled_def)
    then show ?thesis using st inv TakeServe
      by (intro serve_inv_take [OF inv, where arm = "ArmServe err" and as = "serve_failed_arm err"])
        (auto simp: arm_of_def arm_defs)
  qed (use st in \<open>intro serve_inv_other [OF inv]; auto simp: serve_enabled_def split: sum.splits if_splits\<close>)+
qed

lemma serve_init_inv: "serve_inv cfg (SetPub True (SetPub False s)) (serve_init s ctx)"
  by (simp add: serve_inv_def serve_init_def)

text \<open>A caller that has returned has been through the whole of its arm.\<close>

lemma returned_arm:
  assumes "serve_inv cfg s0 st" and "ss_ret st = Some err"
  obtains arm as where "arm_of st arm as" "Return err \<in> set as" "forget (ss_run st) = forget (run_arm cfg as s0)"
    "received (ss_serve st)" "ss_cancelled st"
proof -
  obtain bs where m: "ss_main st = Some bs" using assms by (auto simp: serve_inv_def split: option.splits)
  then obtain arm ds where arm: "arm_of st arm (ds @ bs)" and fr: "forget (ss_run st) = forget (run_arm cfg ds s0)"
    and r: "RecvServe \<in> set ds \<or> (\<exists>err. arm = ArmServe err) \<longrightarrow> received (ss_serve st)"
    and c: "CancelWatch \<in> set ds \<longrightarrow> ss_cancelled st" and ret: "Return err \<in> set ds"
    using assms by (auto simp: serve_inv_def)
  obtain d1 d2 where d: "ds = d1 @ Return err # d2" using ret split_list by metis
  then have nil: "d2 @ bs = []" using Return_last [of st arm d1 err "d2 @ bs"] arm by simp
  then have "arm_of st arm ds" using arm by simp
  moreover have "CancelWatch \<in> set ds" "RecvServe \<in> set ds \<or> (\<exists>err. arm = ArmServe err)"
    using \<open>arm_of st arm ds\<close> by (cases arm; auto simp: arm_of_def arm_defs)+
  ultimately show ?thesis using that fr r c ret by blast
qed

section \<open>The sequential version\<close>

text \<open>The environment in which the sequential version takes an arm: the listener opens, the watcher
  logs nothing.\<close>

definition arm_env :: "serve_arm \<Rightarrow> serve_env" where
  "arm_env arm = \<lparr>sv_listen = None, sv_watch = [], sv_arm = arm, sv_shutdown = None\<rparr>"

definition arm_result :: "serve_arm \<Rightarrow> go_error option" where
  "arm_result arm =
     (case arm of
        ArmServe err \<Rightarrow> if (case err of None \<Rightarrow> False | Some e \<Rightarrow> errors_Is e ErrServerClosed) then None else err
      | _ \<Rightarrow> None)"

lemma shutdown_None [simp]: "shutdown lg None s = s"
  by (simp add: shutdown_def)

lemma on_log_id [simp]: "on_log (\<lambda>s. s) t = t" "on_log (shutdown lg None) t = t"
  by (simp_all add: on_log_def)

lemma serveOnce_arm:
  assumes "srv r \<noteq> None" and "arm_of st arm as"
  shows "serveOnce cfg (arm_env arm) r s = (run_arm cfg as (SetPub True (SetPub False s)), arm_result arm)"
proof -
  have w: "watchForLoginNeeded lg r [] = (\<lambda>s. s)" for lg by (rule ext) simp
  show ?thesis using assms w
    by (cases arm) (auto simp: serveOnce_def arm_env_def ListenFunnel_def arm_of_def arm_defs run_arm_def
        arm_result_def Let_def)
qed

lemma arm_return: "arm_of st arm as \<Longrightarrow> Return err \<in> set as \<Longrightarrow> err = arm_result arm"
  by (cases arm) (auto simp: arm_of_def arm_defs arm_result_def)

section \<open>Returning\<close>

text \<open>The caller's steps left, with one more where it waits for \<open>Serve\<close> to return.\<close>

lemma serve_main_returns:
  assumes "serve_inv cfg s0 st" and "ss_main st = Some as" and "ss_ret st = None"
  shows "\<exists>es u. serve_reach cfg r st es u \<and> ss_ret u \<noteq> None \<and> length es \<le> 2 * length as"
  using assms
proof (induction as arbitrary: st)
  case Nil
  then obtain arm ds where "arm_of st arm ds" "\<forall>err. Return err \<notin> set ds" by (auto simp: serve_inv_def)
  then show ?case by (cases arm) (auto simp: arm_of_def arm_defs)
next
  case (Cons a as)
  have step: "\<exists>es u. serve_reach cfg r t es u \<and> ss_ret u \<noteq> None \<and> length es \<le> Suc (2 * length as)"
    if inv: "serve_inv cfg s0 t" and m: "ss_main t = Some (a # as)" and n: "ss_ret t = None"
      and ok: "a = RecvServe \<Longrightarrow> \<exists>err. ss_serve t = Reported err" for t
  proof -
    have en: "serve_enabled (Main None) t" using m ok by (simp add: serve_enabled_def)
    let ?u = "serve_apply cfg r (Main None) t"
    have st: "serve_step cfg r (Main None) t ?u" using en by (rule serve_event)
    have um: "ss_main ?u = Some as" using m by simp
    show ?thesis
    proof (cases "ss_ret ?u")
      case None
      obtain es u where "serve_reach cfg r ?u es u" "ss_ret u \<noteq> None" "length es \<le> 2 * length as"
        using Cons.IH [OF caller.step [OF st inv] um None] by blast
      then show ?thesis using lts_reach_Cons [OF st]
        by (intro exI [of _ "Main None # es"] exI [of _ u]) auto
    next
      case (Some err)
      then show ?thesis using lts_extend [OF lts_start st]
        by (intro exI [of _ "[Main None]"] exI [of _ ?u]) simp
    qed
  qed
  show ?case
  proof (cases "a = RecvServe \<and> ss_serve st = Running")
    case True
    let ?ev = "ServeEnds (Some ErrServerClosed)"
    let ?t = "serve_apply cfg r ?ev st"
    have st: "serve_step cfg r ?ev st ?t" using True by (intro serve_event) (simp add: serve_enabled_def)
    obtain es u where "serve_reach cfg r ?t es u" "ss_ret u \<noteq> None" "length es \<le> Suc (2 * length as)"
      using step [OF caller.step [OF st Cons.prems(1)]] Cons.prems by auto
    then show ?thesis using lts_reach_Cons [OF st] by (intro exI [of _ "?ev # es"] exI [of _ u]) auto
  next
    case False
    have "a = RecvServe \<Longrightarrow> \<not> received (ss_serve st)" using Cons.prems by (auto simp: serve_inv_def)
    then have "a = RecvServe \<Longrightarrow> \<exists>err. ss_serve st = Reported err" using False by (cases "ss_serve st") auto
    then obtain es u where "serve_reach cfg r st es u" "ss_ret u \<noteq> None" "length es \<le> Suc (2 * length as)"
      using step [OF Cons.prems] by blast
    then show ?thesis by (intro exI [of _ es] exI [of _ u]) simp
  qed
qed

lemma serve_arm_length: "arm_of st arm (ds @ as) \<Longrightarrow> length as \<le> 10"
  by (cases arm) (auto simp: arm_of_def arm_defs dest!: arg_cong [where f = length])

section \<open>Properties\<close>

text \<open>C14: Serving refines its sequential version. However its goroutines interleave, if \<open>serveOnce\<close> returns
  it has the result, and leaves the shared state, of the sequential \<open>serveOnce\<close> on the arm
  it took, but for the log; its \<open>Serve\<close> goroutine has ended, the watcher is told to stop, and the
  last report is that the public surface is down.\<close>

theorem serve_refines_sequential:
  assumes "serve_reach cfg r (serve_init s ctx) es t" and "ss_ret t = Some err" and "srv r \<noteq> None"
  shows "\<exists>arm. forget (ss_run t) = forget (fst (serveOnce cfg (arm_env arm) r s)) \<and>
      err = snd (serveOnce cfg (arm_env arm) r s) \<and>
      (arm = ArmCtxDone \<longrightarrow> ss_ctx t) \<and> (arm = ArmFlipped \<longrightarrow> ss_watch t = WatchClosed) \<and>
      received (ss_serve t) \<and> ss_cancelled t \<and> \<not> last (r_pub (ss_run t))"
proof -
  obtain arm as where a: "arm_of t arm as" "Return err \<in> set as"
    and fr: "forget (ss_run t) = forget (run_arm cfg as (SetPub True (SetPub False s)))"
    and e: "received (ss_serve t)" "ss_cancelled t"
    using returned_arm [OF caller.invariant [OF assms(1) serve_init_inv] assms(2)] by blast
  have so: "serveOnce cfg (arm_env arm) r s = (run_arm cfg as (SetPub True (SetPub False s)), arm_result arm)"
    by (rule serveOnce_arm [OF assms(3) a(1)])
  have "r_pub (ss_run t) = r_pub (run_arm cfg as (SetPub True (SetPub False s)))"
    using fr by (metis forget_def run_state.select_convs(7) run_state.surjective run_state.update_convs(6))
  then have "\<not> last (r_pub (ss_run t))" using serveOnce_frame [OF so] by (auto simp: last_append)
  then show ?thesis using a(1) arm_return [OF a] fr e so
    by (intro exI [of _ arm]) (auto simp: arm_of_def)
qed

abbreviation serve_exec ::
  "runner_config \<Rightarrow> realServer \<Rightarrow> serve_event list \<Rightarrow> serve_sys \<Rightarrow> serve_sys option" where
  "serve_exec cfg r \<equiv> lts_exec serve_enabled (serve_apply cfg r)"

definition flip_events :: "serve_event list" where
  "flip_events =
     [WatchPolls (Inl ErrCanceled), WatchPolls (Inr ''NeedsLogin''), TakeFlipped] @ replicate 6 (Main None) @
     [ServeEnds (Some ErrServerClosed)] @ replicate 4 (Main None)"

theorem serve_refines_sequential_witness:
  "\<exists>t arm. serve_reach (d_cfg sample_deps) keyed_server (serve_init (runner_init sample_run_obs) False) flip_events t \<and>
     ss_ret t = Some None \<and>
     forget (ss_run t) = forget (fst (serveOnce (d_cfg sample_deps) (arm_env arm) keyed_server (runner_init sample_run_obs)))"
proof -
  let ?x = "serve_exec (d_cfg sample_deps) keyed_server flip_events (serve_init (runner_init sample_run_obs) False)"
  have "case ?x of None \<Rightarrow> False | Some t \<Rightarrow> ss_ret t = Some None" by code_simp
  then obtain t where t: "?x = Some t" "ss_ret t = Some None" by (auto split: option.splits)
  have k: "srv keyed_server \<noteq> None" by (simp add: keyed_server_def)
  note r = lts_exec_reach [OF t(1)]
  from serve_refines_sequential [OF r t(2) k] show ?thesis using r t(2) by blast
qed

text \<open>C30: Serving ends when its context does. From every state its goroutines can be in, once the
  context is done, the watcher has ended or \<open>Serve\<close> has returned, \<open>serveOnce\<close> can return within 21
  steps: nothing blocks for ever.\<close>

theorem serve_returns:
  assumes "serve_reach cfg r (serve_init s ctx) es t" and "ss_ret t = None"
    and "ss_ctx t \<or> ss_watch t = WatchClosed \<or> ss_serve t \<noteq> Running"
  shows "\<exists>fs u. serve_reach cfg r t fs u \<and> ss_ret u \<noteq> None \<and> length fs \<le> 21"
proof -
  have inv: "serve_inv cfg (SetPub True (SetPub False s)) t"
    using caller.invariant [OF assms(1) serve_init_inv] .
  have go: "\<exists>fs u. serve_reach cfg r u0 fs u \<and> ss_ret u \<noteq> None \<and> length fs \<le> 20"
    if i: "serve_inv cfg (SetPub True (SetPub False s)) u0" and m: "ss_main u0 = Some as" "ss_ret u0 = None" for u0 as
  proof -
    have "length as \<le> 10" using i m serve_arm_length by (auto simp: serve_inv_def)
    then show ?thesis using serve_main_returns [OF i m, of r] by force
  qed
  show ?thesis
  proof (cases "ss_main t")
    case (Some as)
    then show ?thesis using go [OF inv Some assms(2)] by force
  next
    case None
    then have "\<not> received (ss_serve t)" using inv by (simp add: serve_inv_def)
    then have "serve_enabled TakeCtx t \<or> serve_enabled TakeFlipped t \<or> serve_enabled TakeServe t"
      using None assms(3) by (cases "ss_serve t") (auto simp: serve_enabled_def)
    then obtain ev where "ev \<in> {TakeCtx, TakeFlipped, TakeServe}" and en: "serve_enabled ev t" by blast
    then obtain as where m: "ss_main (serve_apply cfg r ev t) = Some as" "ss_ret (serve_apply cfg r ev t) = None"
      using assms(2) by (auto simp: serve_enabled_def)
    have st: "serve_step cfg r ev t (serve_apply cfg r ev t)" using en by (rule serve_event)
    obtain fs u where "serve_reach cfg r (serve_apply cfg r ev t) fs u" "ss_ret u \<noteq> None" "length fs \<le> 20"
      using go [OF caller.step [OF st inv] m] by blast
    then show ?thesis using lts_reach_Cons [OF st] by (intro exI [of _ "ev # fs"] exI [of _ u]) simp
  qed
qed

theorem serve_returns_witness:
  "\<exists>fs u. serve_reach (d_cfg sample_deps) keyed_server (serve_init (runner_init sample_run_obs) True) fs u \<and>
     ss_ret u \<noteq> None \<and> length fs \<le> 21"
  using serve_returns [OF lts_start, of "runner_init sample_run_obs" True] by (simp add: serve_init_def)

text \<open>C40: A shutdown can be counted as a restart. The watcher ends when its context does, closing the
  channel that stands for \<open>NeedsLogin\<close>; if the \<open>select\<close> takes that arm, a plain shutdown leaves a
  \<open>needs_login\<close> restart in the metrics although the backend never reported it.\<close>

theorem shutdown_counted_as_restart:
  assumes "obs_metrics (r_obs s) = Some m"
  shows "\<exists>es t m'. serve_reach cfg r (serve_init s False) es t \<and> ss_ret t = Some None \<and>
    (\<forall>out. WatchPolls out \<notin> set es) \<and> obs_metrics (r_obs (ss_run t)) = Some m' \<and>
    calls m' = calls m @ [Inc ''public_listener_restarts_total'' [''needs_login'']]"
proof -
  let ?es = "[CtxEnds, WatchStops, TakeFlipped] @ replicate 6 (Main None) @
    [ServeEnds (Some ErrServerClosed)] @ replicate 4 (Main None)"
  have tr: "TrimSpace ''needs_login'' \<noteq> []" by code_simp
  have fr: "obs_metrics (logStateChange l st x) = obs_metrics x" "obs_metrics (logListenerRestart l y x) = obs_metrics x"
    for l st x y by (simp_all add: logStateChange_def logListenerRestart_def frame)
  obtain t where t: "serve_exec cfg r ?es (serve_init s False) = Some t"
    by (simp add: serve_enabled_def serve_init_def flipped_arm_def deferred_calls_def eval_nat_numeral)
  then have "ss_ret t = Some None \<and> r_obs (ss_run t) =
      logListenerRestart (rn_Logger cfg) ''needs_login'' (record_if (RecordPublicListenerRestart ''needs_login'')
        (logStateChange (rn_Logger cfg) BackendStateNeedsLogin (r_obs s)))"
    by (auto simp: serve_enabled_def serve_init_def flipped_arm_def deferred_calls_def eval_nat_numeral
        SetPub_def on_log_def)
  moreover have "\<forall>out. WatchPolls out \<notin> set ?es" by simp
  ultimately show ?thesis using lts_exec_reach [OF t] assms tr
    by (intro exI [of _ ?es] exI [of _ t])
      (simp add: fr record_if_def RecordPublicListenerRestart_def inc_unless_blank_def)
qed

theorem shutdown_counted_as_restart_witness:
  "\<exists>es t m'. serve_reach (d_cfg sample_deps) keyed_server
       (serve_init (runner_init (sample_run_obs\<lparr>obs_metrics := Some (New_metrics 0)\<rparr>)) False) es t \<and>
     ss_ret t = Some None \<and> obs_metrics (r_obs (ss_run t)) = Some m' \<and>
     calls m' = [Inc ''public_listener_restarts_total'' [''needs_login'']]"
proof -
  have "obs_metrics (r_obs (runner_init (sample_run_obs\<lparr>obs_metrics := Some (New_metrics 0)\<rparr>))) = Some (New_metrics 0)"
    by (simp add: runner_init_def)
  moreover have "calls (New_metrics 0) = []" by (simp add: New_metrics_def)
  ultimately show ?thesis using shutdown_counted_as_restart [of _ "New_metrics 0" "d_cfg sample_deps" keyed_server] by fastforce
qed

end
