(* ===== verification/Supervise.thy ===== *)
theory Supervise
  imports Process Serve
begin

text \<open>
  \<open>runProcessWithHealthServer\<close> of \<open>cmd/oidc-proxy/main.go\<close> with its goroutines: the health server,
  the process runner and the caller between its \<open>select\<close> and its return. Theory Process takes the
  order of the two results as given; here they interleave. Of \<open>http.Server\<close> the model uses that
  \<open>Serve\<close> returns \<open>ErrServerClosed\<close> once \<open>Shutdown\<close> was called, of the runner that it reports one
  result (theories HA and Serve show that it can, once its context is done).
\<close>

section \<open>State and events\<close>

datatype health_action = HealthCount | HealthLog

datatype sup_action = CallStop | RecvRunner | ShutdownHealth | AwaitHealth | RecvHealth | ReturnErr

record sup_sys =
  sp_obs :: obs
  sp_ctx :: bool
  sp_start :: "health_action list"
  sp_health :: "go_error option reporter"
  sp_runner :: "go_error option reporter"
  sp_shut :: bool
  sp_shutdownErr :: "go_error option"
  sp_main :: "sup_action list option"
  sp_runErr :: "go_error option"
  sp_ret :: "go_error option option"

definition shutdown_and_return :: "sup_action list" where
  "shutdown_and_return = [CallStop, ShutdownHealth, AwaitHealth]"

fun sup_arm :: "first_exit \<Rightarrow> sup_action list" where
  "sup_arm RunnerFirst = shutdown_and_return @ [RecvHealth, ReturnErr]"
| "sup_arm HealthFirst = [CallStop, RecvRunner] @ shutdown_and_return @ [ReturnErr]"

datatype sup_event =
    SupSignal
  | HealthStep
  | HealthServes "go_error option"
  | RunnerReturns "go_error option"
  | TakeRunner
  | TakeHealth
  | SupMain "go_error option"

definition sup_enabled :: "sup_event \<Rightarrow> sup_sys \<Rightarrow> bool" where
  "sup_enabled ev st \<longleftrightarrow>
     (case ev of
        SupSignal \<Rightarrow> True
      | HealthStep \<Rightarrow> sp_start st \<noteq> []
      | HealthServes err \<Rightarrow>
          sp_start st = [] \<and> sp_health st = Running \<and> (sp_shut st \<longrightarrow> err = Some ErrServerClosed)
      | RunnerReturns err \<Rightarrow> sp_runner st = Running
      | TakeRunner \<Rightarrow> sp_main st = None \<and> reported (sp_runner st)
      | TakeHealth \<Rightarrow> sp_main st = None \<and> reported (sp_health st)
      | SupMain _ \<Rightarrow>
          (case sp_main st of
             None \<Rightarrow> False
           | Some [] \<Rightarrow> False
           | Some (a # as) \<Rightarrow>
               (a = RecvRunner \<longrightarrow> reported (sp_runner st)) \<and> (a = RecvHealth \<longrightarrow> reported (sp_health st))))"

fun chan_value :: "go_error option reporter \<Rightarrow> go_error option" where
  "chan_value (Reported v) = v"
| "chan_value (Received v) = v"
| "chan_value Running = None"

lemma chan_value_receive [simp]: "chan_value (receive g) = chan_value g"
  by (cases g) simp_all

definition add_shutdown_err :: "go_error option \<Rightarrow> go_error option \<Rightarrow> go_error option" where
  "add_shutdown_err out runErr =
     (case out of
        None \<Rightarrow> runErr
      | Some e \<Rightarrow>
          if errors_Is e ErrServerClosed then runErr
          else firstErr [runErr, Some (ErrWrap ''health shutdown'' e)])"

fun sup_control :: "go_error option \<Rightarrow> sup_action \<Rightarrow> sup_sys \<Rightarrow> sup_sys" where
  "sup_control out CallStop st = st\<lparr>sp_ctx := True\<rparr>"
| "sup_control out RecvRunner st =
     st\<lparr>sp_runner := receive (sp_runner st), sp_runErr := firstErr [sp_runErr st, chan_value (sp_runner st)]\<rparr>"
| "sup_control out ShutdownHealth st = st\<lparr>sp_shut := True\<rparr>"
| "sup_control out AwaitHealth st =
     st\<lparr>sp_shutdownErr := out, sp_runErr := add_shutdown_err out (sp_runErr st)\<rparr>"
| "sup_control out RecvHealth st =
     st\<lparr>sp_health := receive (sp_health st), sp_runErr := firstErr [sp_runErr st, chan_value (sp_health st)]\<rparr>"
| "sup_control out ReturnErr st = st\<lparr>sp_ret := Some (sp_runErr st)\<rparr>"

fun sup_apply :: "logger \<Rightarrow> string \<Rightarrow> sup_event \<Rightarrow> sup_sys \<Rightarrow> sup_sys" where
  "sup_apply lg addr SupSignal st = st\<lparr>sp_ctx := True\<rparr>"
| "sup_apply lg addr HealthStep st =
     (case sp_start st of
        [] \<Rightarrow> st
      | HealthCount # as \<Rightarrow> st\<lparr>sp_start := as, sp_obs := record_if RecordHealthServerStart (sp_obs st)\<rparr>
      | HealthLog # as \<Rightarrow>
          st\<lparr>sp_start := as,
            sp_obs := Info lg ''health_http'' ''health_server_start'' ''health server started''
              [(''addr'', AString addr)] (sp_obs st)\<rparr>)"
| "sup_apply lg addr (HealthServes err) st =
     st\<lparr>sp_health := Reported (health_result \<lparr>he_listen = None, he_serve = err\<rparr>)\<rparr>"
| "sup_apply lg addr (RunnerReturns err) st = st\<lparr>sp_runner := Reported err\<rparr>"
| "sup_apply lg addr TakeRunner st =
     st\<lparr>sp_runErr := chan_value (sp_runner st), sp_runner := receive (sp_runner st),
       sp_main := Some (sup_arm RunnerFirst)\<rparr>"
| "sup_apply lg addr TakeHealth st =
     st\<lparr>sp_runErr := chan_value (sp_health st), sp_health := receive (sp_health st),
       sp_main := Some (sup_arm HealthFirst)\<rparr>"
| "sup_apply lg addr (SupMain out) st =
     (case sp_main st of
        Some (a # as) \<Rightarrow> sup_control out a (st\<lparr>sp_main := Some as\<rparr>)
      | _ \<Rightarrow> st)"

abbreviation sup_reach :: "logger \<Rightarrow> string \<Rightarrow> sup_sys \<Rightarrow> sup_event list \<Rightarrow> sup_sys \<Rightarrow> bool" where
  "sup_reach lg addr \<equiv> lts_reach sup_enabled (sup_apply lg addr)"

lemmas sup_event = lts_event [where en = sup_enabled and ap = "sup_apply lg addr" for lg addr]

definition sup_init :: "obs \<Rightarrow> bool \<Rightarrow> sup_sys" where
  "sup_init s ctx =
     \<lparr>sp_obs = s, sp_ctx = ctx, sp_start = [HealthCount, HealthLog], sp_health = Running,
      sp_runner = Running, sp_shut = False, sp_shutdownErr = None, sp_main = None, sp_runErr = None,
      sp_ret = None\<rparr>"

section \<open>The caller's invariant\<close>

fun sup_val :: "sup_sys \<Rightarrow> sup_action \<Rightarrow> go_error option \<Rightarrow> go_error option" where
  "sup_val st RecvRunner e = firstErr [e, chan_value (sp_runner st)]"
| "sup_val st RecvHealth e = firstErr [e, chan_value (sp_health st)]"
| "sup_val st AwaitHealth e = add_shutdown_err (sp_shutdownErr st) e"
| "sup_val st a e = e"

fun first_val :: "sup_sys \<Rightarrow> first_exit \<Rightarrow> go_error option" where
  "first_val st RunnerFirst = chan_value (sp_runner st)"
| "first_val st HealthFirst = chan_value (sp_health st)"

text \<open>What the caller has received, by the arm and the part of it that is done.\<close>

definition got_runner :: "first_exit \<Rightarrow> sup_action list \<Rightarrow> bool" where
  "got_runner first ds \<longleftrightarrow> first = RunnerFirst \<or> RecvRunner \<in> set ds"

definition got_health :: "first_exit \<Rightarrow> sup_action list \<Rightarrow> bool" where
  "got_health first ds \<longleftrightarrow> first = HealthFirst \<or> RecvHealth \<in> set ds"

definition sup_inv :: "sup_sys \<Rightarrow> bool" where
  "sup_inv st \<longleftrightarrow>
     (\<forall>v. sp_health st \<in> {Reported v, Received v} \<longrightarrow> sp_start st = [] \<and>
        (\<exists>err. v = health_result \<lparr>he_listen = None, he_serve = err\<rparr>)) \<and>
     (case sp_main st of
        None \<Rightarrow> \<not> received (sp_runner st) \<and> \<not> received (sp_health st) \<and> sp_ret st = None \<and> \<not> sp_shut st
      | Some as \<Rightarrow>
          (\<exists>first ds. sup_arm first = ds @ as \<and>
             sp_runErr st = fold (sup_val st) ds (first_val st first) \<and>
             received (sp_runner st) = got_runner first ds \<and> received (sp_health st) = got_health first ds \<and>
             (CallStop \<in> set ds \<longrightarrow> sp_ctx st) \<and> (ShutdownHealth \<in> set ds \<longrightarrow> sp_shut st) \<and>
             sp_ret st = (if ReturnErr \<in> set ds then Some (sp_runErr st) else None)))"

lemma sup_arm_cases:
  "sup_arm first = ds @ as \<Longrightarrow>
     (first, ds) \<in> {(RunnerFirst, []), (RunnerFirst, [CallStop]), (RunnerFirst, [CallStop, ShutdownHealth]),
       (RunnerFirst, shutdown_and_return), (RunnerFirst, shutdown_and_return @ [RecvHealth]),
       (RunnerFirst, shutdown_and_return @ [RecvHealth, ReturnErr]),
       (HealthFirst, []), (HealthFirst, [CallStop]), (HealthFirst, [CallStop, RecvRunner]),
       (HealthFirst, [CallStop, RecvRunner, CallStop]), (HealthFirst, [CallStop, RecvRunner, CallStop, ShutdownHealth]),
       (HealthFirst, [CallStop, RecvRunner] @ shutdown_and_return),
       (HealthFirst, [CallStop, RecvRunner] @ shutdown_and_return @ [ReturnErr])}"
  by (cases first) (auto simp: shutdown_and_return_def append_eq_Cons_conv Cons_eq_append_conv)

text \<open>Each action occurs once, but for the stop, and the two results are received where they must.\<close>

lemma sup_arm_next:
  assumes "sup_arm first = ds @ a # as"
  shows "(a = AwaitHealth \<longrightarrow> AwaitHealth \<notin> set ds) \<and> (a = RecvRunner \<longrightarrow> \<not> got_runner first ds) \<and>
    (a = RecvHealth \<longrightarrow> \<not> got_health first ds) \<and> (ReturnErr \<notin> set ds) \<and>
    (a = ReturnErr \<longrightarrow> got_runner first ds \<and> got_health first ds \<and> as = [] \<and> CallStop \<in> set ds \<and>
       ds = butlast (sup_arm first))"
  using sup_arm_cases [OF assms] assms
  by (auto simp: got_runner_def got_health_def shutdown_and_return_def)

lemma sup_control_frame [simp]:
  "sp_obs (sup_control out a st) = sp_obs st" "sp_start (sup_control out a st) = sp_start st"
  "sp_main (sup_control out a st) = sp_main st"
  "chan_value (sp_runner (sup_control out a st)) = chan_value (sp_runner st)"
  "chan_value (sp_health (sup_control out a st)) = chan_value (sp_health st)"
  by (cases a; simp)+

lemma sup_val_control:
  "x \<noteq> AwaitHealth \<or> a \<noteq> AwaitHealth \<Longrightarrow> sup_val (sup_control out a st) x e = sup_val st x e"
  "first_val (sup_control out a st) first = first_val st first"
  by (cases x; cases a; simp) (cases first; simp)

lemma fold_sup_val:
  assumes "a = AwaitHealth \<longrightarrow> AwaitHealth \<notin> set ds"
  shows "fold (sup_val (sup_control out a st)) ds e = fold (sup_val st) ds e"
  using assms by (intro fold_cong) (auto intro!: ext sup_val_control)

lemma sup_inv_main:
  assumes "sup_inv st" and "sup_enabled (SupMain out) st"
  shows "sup_inv (sup_apply lg addr (SupMain out) st)"
proof -
  obtain a as where m: "sp_main st = Some (a # as)"
    and rr: "a = RecvRunner \<Longrightarrow> \<exists>v. sp_runner st = Reported v"
    and rh: "a = RecvHealth \<Longrightarrow> \<exists>v. sp_health st = Reported v"
    using assms(2) by (auto simp: sup_enabled_def split: option.splits list.splits)
  obtain first ds where arm: "sup_arm first = ds @ a # as"
    and v: "sp_runErr st = fold (sup_val st) ds (first_val st first)"
    and gr: "received (sp_runner st) = got_runner first ds"
    and gh: "received (sp_health st) = got_health first ds"
    and cs: "CallStop \<in> set ds \<longrightarrow> sp_ctx st" and sh: "ShutdownHealth \<in> set ds \<longrightarrow> sp_shut st"
    and rt: "sp_ret st = (if ReturnErr \<in> set ds then Some (sp_runErr st) else None)"
    using assms(1) m by (auto simp: sup_inv_def)
  note nx = sup_arm_next [OF arm]
  let ?s1 = "st\<lparr>sp_main := Some as\<rparr>"
  let ?t = "sup_control out a ?s1"
  have t: "sup_apply lg addr (SupMain out) st = ?t" by (simp add: m)
  have sv: "sup_val ?s1 = sup_val st" "first_val ?s1 = first_val st"
  proof -
    show "sup_val ?s1 = sup_val st" by (intro ext) (case_tac x; simp)
    show "first_val ?s1 = first_val st" by (intro ext) (case_tac x; simp)
  qed
  have "fold (sup_val ?t) ds (first_val ?t first) = sp_runErr st"
    using nx by (simp add: v fold_sup_val sup_val_control sv)
  then have n1: "sp_runErr ?t = fold (sup_val ?t) (ds @ [a]) (first_val ?t first)"
    by (cases a) (simp_all add: add_shutdown_err_def)
  have n2: "received (sp_runner ?t) = got_runner first (ds @ [a])"
    using gr rr by (cases a) (auto simp: got_runner_def)
  have n3: "received (sp_health ?t) = got_health first (ds @ [a])"
    using gh rh by (cases a) (auto simp: got_health_def)
  have n4: "CallStop \<in> set (ds @ [a]) \<longrightarrow> sp_ctx ?t" using cs by (cases a) auto
  have n5: "ShutdownHealth \<in> set (ds @ [a]) \<longrightarrow> sp_shut ?t" using sh by (cases a) auto
  have n6: "sp_ret ?t = (if ReturnErr \<in> set (ds @ [a]) then Some (sp_runErr ?t) else None)"
    using rt nx by (cases a) auto
  have n0: "sup_arm first = (ds @ [a]) @ as" using arm by simp
  have n7: "\<forall>v. sp_health ?t \<in> {Reported v, Received v} \<longrightarrow> sp_start ?t = [] \<and>
      (\<exists>err. v = health_result \<lparr>he_listen = None, he_serve = err\<rparr>)"
    using assms(1) rh unfolding sup_inv_def by (cases a) fastforce+
  have main: "sp_main ?t = Some as" by simp
  show ?thesis unfolding t sup_inv_def main option.case
    by (intro conjI [OF n7] exI [of _ first] exI [of _ "ds @ [a]"] conjI; fact)
qed

text \<open>Steps of the goroutines: what the caller has received does not change.\<close>

lemma sup_inv_other:
  assumes "sup_inv st"
    and "\<forall>v. sp_health t \<in> {Reported v, Received v} \<longrightarrow> sp_start t = [] \<and>
        (\<exists>err. v = health_result \<lparr>he_listen = None, he_serve = err\<rparr>)"
    and same: "sp_main t = sp_main st" "sp_runErr t = sp_runErr st" "sp_ret t = sp_ret st" "sp_shut t = sp_shut st"
      "sp_shutdownErr t = sp_shutdownErr st" "sp_ctx st \<longrightarrow> sp_ctx t"
    and recv: "received (sp_runner t) = received (sp_runner st)" "received (sp_health t) = received (sp_health st)"
      "received (sp_runner st) \<longrightarrow> sp_runner t = sp_runner st"
      "received (sp_health st) \<longrightarrow> sp_health t = sp_health st"
  shows "sup_inv t"
proof (cases "sp_main st")
  case None
  have "\<not> received (sp_runner st) \<and> \<not> received (sp_health st) \<and> sp_ret st = None \<and> \<not> sp_shut st"
    using assms(1) unfolding sup_inv_def None option.case by (rule conjunct2)
  then have "\<not> received (sp_runner t) \<and> \<not> received (sp_health t) \<and> sp_ret t = None \<and> \<not> sp_shut t"
    by (simp only: recv(1,2) same(3,4) simp_thms)
  then show ?thesis unfolding sup_inv_def same(1) None option.case by (rule conjI [OF assms(2)])
next
  case (Some as)
  then obtain first ds where arm: "sup_arm first = ds @ as"
    and v: "sp_runErr st = fold (sup_val st) ds (first_val st first)"
    and gr: "received (sp_runner st) = got_runner first ds"
    and gh: "received (sp_health st) = got_health first ds"
    and cs: "CallStop \<in> set ds \<longrightarrow> sp_ctx st" and sh: "ShutdownHealth \<in> set ds \<longrightarrow> sp_shut st"
    and rt: "sp_ret st = (if ReturnErr \<in> set ds then Some (sp_runErr st) else None)"
    using assms(1) by (auto simp: sup_inv_def)
  have r: "got_runner first ds \<Longrightarrow> sp_runner t = sp_runner st" "got_health first ds \<Longrightarrow> sp_health t = sp_health st"
    using recv(3,4) by (simp_all only: gr gh simp_thms)
  have "sup_val t x e = sup_val st x e" if "x \<in> set ds" for x e
    using r that same(5) by - (cases x, simp_all add: got_runner_def got_health_def)
  then have f: "fold (sup_val t) ds e = fold (sup_val st) ds e" for e by (intro fold_cong) (auto intro!: ext)
  have "first_val t first = first_val st first"
    using r by (cases first) (simp_all add: got_runner_def got_health_def)
  then have "sp_runErr t = fold (sup_val t) ds (first_val t first)" using v f same by simp
  moreover have "received (sp_runner t) = got_runner first ds" "received (sp_health t) = got_health first ds"
    using gr gh recv by simp_all
  moreover have "CallStop \<in> set ds \<longrightarrow> sp_ctx t" "ShutdownHealth \<in> set ds \<longrightarrow> sp_shut t"
    "sp_ret t = (if ReturnErr \<in> set ds then Some (sp_runErr t) else None)" using cs sh rt same by simp_all
  ultimately show ?thesis unfolding sup_inv_def same(1) Some option.case using arm assms(2) by blast
qed

lemma sup_inv_take:
  assumes "sup_inv st" and "sup_enabled ev st" and "ev \<in> {TakeRunner, TakeHealth}"
  shows "sup_inv (sup_apply lg addr ev st)"
proof -
  have n: "sp_main st = None" using assms(2,3) by (auto simp: sup_enabled_def)
  have arm: "sup_arm first = [] @ sup_arm first" for first by simp
  have i: "\<not> received (sp_runner st) \<and> \<not> received (sp_health st) \<and> sp_ret st = None"
    "\<forall>v. sp_health st \<in> {Reported v, Received v} \<longrightarrow> sp_start st = [] \<and>
        (\<exists>err. v = health_result \<lparr>he_listen = None, he_serve = err\<rparr>)"
    using assms(1) n by (simp_all add: sup_inv_def)
  from assms(3) show ?thesis
  proof (elim insertE emptyE)
    assume "ev = TakeRunner"
    then show ?thesis using i assms(2) unfolding sup_inv_def
      by (auto simp: sup_enabled_def got_runner_def got_health_def intro!: exI [of _ RunnerFirst] exI [of _ "[]"])
  next
    assume "ev = TakeHealth"
    then show ?thesis using i assms(2) unfolding sup_inv_def
      by (auto simp: sup_enabled_def got_runner_def got_health_def intro!: exI [of _ HealthFirst] exI [of _ "[]"])
  qed
qed

interpretation supervisor: state_invariant sup_enabled "sup_apply lg addr" sup_inv for lg addr
proof
  fix ev st assume en: "sup_enabled ev st" and inv: "sup_inv st"
  have hv: "\<forall>v. sp_health st \<in> {Reported v, Received v} \<longrightarrow> sp_start st = [] \<and>
        (\<exists>err. v = health_result \<lparr>he_listen = None, he_serve = err\<rparr>)"
    using inv unfolding sup_inv_def by blast
  show "sup_inv (sup_apply lg addr ev st)"
  proof (cases ev)
    case (SupMain out)
    then show ?thesis using sup_inv_main [OF inv] en by simp
  next
    case HealthStep
    then have "sp_start st \<noteq> []" using en by (simp add: sup_enabled_def)
    then have "sp_health st = Running" using hv by (cases "sp_health st") auto
    then show ?thesis using HealthStep hv
      by (intro sup_inv_other [OF inv]) (auto split: list.splits health_action.splits)
  next
    case (HealthServes err)
    then show ?thesis using en by (intro sup_inv_other [OF inv]) (auto simp: sup_enabled_def)
  next
    case (RunnerReturns err)
    then show ?thesis using en hv by (intro sup_inv_other [OF inv]) (auto simp: sup_enabled_def)
  next
    case SupSignal
    then show ?thesis using hv by (intro sup_inv_other [OF inv]) simp_all
  qed (use sup_inv_take [OF inv en, of lg addr] in simp_all)
qed

lemma sup_init_inv: "sup_inv (sup_init s ctx)"
  by (simp add: sup_inv_def sup_init_def)

text \<open>What the health goroutine has recorded.\<close>

definition start_inv :: "logger \<Rightarrow> string \<Rightarrow> obs \<Rightarrow> sup_sys \<Rightarrow> bool" where
  "start_inv lg addr s st \<longleftrightarrow>
     (let s1 = record_if RecordHealthServerStart s in
      (sp_start st, sp_obs st) \<in>
        {([HealthCount, HealthLog], s), ([HealthLog], s1),
         ([], Info lg ''health_http'' ''health_server_start'' ''health server started'' [(''addr'', AString addr)] s1)})"

interpretation starter: state_invariant sup_enabled "sup_apply lg addr" "start_inv lg addr s" for lg addr s
proof
  fix ev st assume en: "sup_enabled ev st" and inv: "start_inv lg addr s st"
  show "start_inv lg addr s (sup_apply lg addr ev st)"
  proof (cases ev)
    case HealthStep
    then show ?thesis using inv by (auto simp: start_inv_def Let_def)
  next
    case (SupMain out)
    then show ?thesis using inv by (simp add: start_inv_def split: option.splits list.splits)
  qed (use inv in \<open>simp_all add: start_inv_def\<close>)
qed

lemma start_init_inv: "start_inv lg addr s (sup_init s ctx)"
  by (simp add: start_inv_def sup_init_def)

section \<open>Progress\<close>

definition sup_left :: "sup_sys \<Rightarrow> nat" where
  "sup_left st =
     (case sp_main st of None \<Rightarrow> 100 | Some as \<Rightarrow> 8 * length as) + length (sp_start st) +
     (if sp_runner st = Running then 1 else 0) + (if sp_health st = Running then 1 else 0)"

lemma sup_main_left:
  assumes "sp_main st = Some (a # as)"
  shows "sup_left (sup_apply lg addr (SupMain None) st) < sup_left st"
  using assms by (cases a) (auto simp: sup_left_def)

lemma sup_progress:
  assumes "sup_inv st" and "sp_ret st = None"
  shows "\<exists>ev. ev \<noteq> SupSignal \<and> sup_enabled ev st \<and> sup_left (sup_apply lg addr ev st) < sup_left st"
proof (cases "sp_main st")
  case None
  then have "\<not> received (sp_runner st)" using assms(1) by (simp add: sup_inv_def)
  then show ?thesis
  proof (cases "sp_runner st")
    case Running
    then show ?thesis by (intro exI [of _ "RunnerReturns None"]) (simp add: sup_enabled_def sup_left_def)
  next
    case (Reported v)
    then show ?thesis using None
      by (intro exI [of _ TakeRunner]) (simp add: sup_enabled_def sup_left_def shutdown_and_return_def)
  qed simp
next
  case (Some bs)
  then obtain first ds where arm: "sup_arm first = ds @ bs"
    and gr: "received (sp_runner st) = got_runner first ds" and gh: "received (sp_health st) = got_health first ds"
    and nr: "ReturnErr \<notin> set ds"
    using assms unfolding sup_inv_def by (auto split: if_splits)
  show ?thesis
  proof (cases bs)
    case Nil
    then show ?thesis using arm nr by (cases first) (auto simp: shutdown_and_return_def)
  next
    case (Cons a as)
    note nx = sup_arm_next [OF arm [unfolded Cons]]
    have m: "sp_main st = Some (a # as)" using Some Cons by simp
    consider "a = RecvRunner" "sp_runner st = Running" | "a = RecvHealth" "sp_health st = Running" |
      "(a = RecvRunner \<longrightarrow> reported (sp_runner st)) \<and> (a = RecvHealth \<longrightarrow> reported (sp_health st))"
      using nx gr gh by (cases "sp_runner st"; cases "sp_health st") auto
    then show ?thesis
    proof cases
      case 1
      then show ?thesis by (intro exI [of _ "RunnerReturns None"]) (simp add: sup_enabled_def sup_left_def)
    next
      case 2
      show ?thesis
      proof (cases "sp_start st")
        case Nil
        then show ?thesis using 2
          by (intro exI [of _ "HealthServes (Some ErrServerClosed)"]) (simp add: sup_enabled_def sup_left_def)
      next
        case (Cons h hs)
        then show ?thesis
          by (intro exI [of _ HealthStep]; cases h) (simp_all add: sup_enabled_def sup_left_def)
      qed
    next
      case 3
      then show ?thesis using m sup_main_left [OF m]
        by (intro exI [of _ "SupMain None"]) (simp add: sup_enabled_def)
    qed
  qed
qed

lemma sup_can_return:
  "sup_inv st \<Longrightarrow> \<exists>es u. sup_reach lg addr st es u \<and> sp_ret u \<noteq> None \<and> SupSignal \<notin> set es \<and> length es \<le> sup_left st"
proof (induction "sup_left st" arbitrary: st rule: less_induct)
  case less
  show ?case
  proof (cases "sp_ret st")
    case None
    then obtain ev where ev: "ev \<noteq> SupSignal" "sup_enabled ev st" "sup_left (sup_apply lg addr ev st) < sup_left st"
      using sup_progress [OF less.prems] by blast
    note st = sup_event [OF ev(2), of lg addr]
    obtain es u where "sup_reach lg addr (sup_apply lg addr ev st) es u" "sp_ret u \<noteq> None" "SupSignal \<notin> set es"
      "length es \<le> sup_left (sup_apply lg addr ev st)"
      using less.hyps [OF ev(3) supervisor.step [OF st less.prems]] by blast
    then show ?thesis using lts_reach_Cons [OF st] ev(1,3)
      by (intro exI [of _ "ev # es"] exI [of _ u]) auto
  next
    case (Some err)
    then show ?thesis using lts_start by (intro exI [of _ "[]"] exI [of _ st]) auto
  qed
qed

section \<open>Properties\<close>

text \<open>C13: Supervision refines its sequential version. However the health server, the runner and the
  caller interleave, the error \<open>runProcessWithHealthServer\<close> returns and the records it leaves are
  those of the sequential version for the order in which the two ended; by then both have ended and
  the context is cancelled.\<close>

theorem supervise_refines_sequential:
  assumes "sup_reach lg addr (sup_init s ctx) es t" and "sp_ret t = Some err"
  shows "\<exists>first serveErr.
    (err, sp_obs t) = runProcessWithHealthServer lg addr \<lparr>he_listen = None, he_serve = serveErr\<rparr>
       \<lparr>we_first = first, we_runErr = chan_value (sp_runner t), we_shutdown = sp_shutdownErr t\<rparr> s \<and>
    received (sp_runner t) \<and> received (sp_health t) \<and> sp_ctx t"
proof -
  have inv: "sup_inv t" using supervisor.invariant [OF assms(1) sup_init_inv] .
  have st: "start_inv lg addr s t" using starter.invariant [OF assms(1) start_init_inv] .
  obtain as where m: "sp_main t = Some as" using inv assms(2) by (cases "sp_main t") (auto simp: sup_inv_def)
  then obtain first ds where arm: "sup_arm first = ds @ as"
    and v: "sp_runErr t = fold (sup_val t) ds (first_val t first)"
    and gr: "received (sp_runner t) = got_runner first ds" and gh: "received (sp_health t) = got_health first ds"
    and cs: "CallStop \<in> set ds \<longrightarrow> sp_ctx t"
    and r: "ReturnErr \<in> set ds" and e: "err = sp_runErr t"
    using inv assms(2) unfolding sup_inv_def by (auto split: if_splits)
  have ds: "(first, ds) \<in> {(RunnerFirst, sup_arm RunnerFirst), (HealthFirst, sup_arm HealthFirst)}"
    using sup_arm_cases [OF arm] r by (auto simp: shutdown_and_return_def)
  then have got: "received (sp_runner t)" "received (sp_health t)" "sp_ctx t"
    using gr gh cs by (auto simp: got_runner_def got_health_def shutdown_and_return_def)
  then obtain h where h: "sp_health t = Received h" by (auto simp: received_iff)
  then obtain serveErr where hs: "h = health_result \<lparr>he_listen = None, he_serve = serveErr\<rparr>" "sp_start t = []"
    using inv unfolding sup_inv_def by blast
  have "sp_obs t = Info lg ''health_http'' ''health_server_start'' ''health server started''
      [(''addr'', AString addr)] (record_if RecordHealthServerStart s)"
    using st hs(2) by (simp add: start_inv_def Let_def)
  then have "(err, sp_obs t) = runProcessWithHealthServer lg addr \<lparr>he_listen = None, he_serve = serveErr\<rparr>
       \<lparr>we_first = first, we_runErr = chan_value (sp_runner t), we_shutdown = sp_shutdownErr t\<rparr> s"
    using ds h hs(1) unfolding e v
    by (auto simp: shutdown_and_return_def runProcessWithHealthServer_def startHealthServer_def Let_def
        add_shutdown_err_def split: option.splits)
  then show ?thesis using got by blast
qed

definition sup_sample_events :: "sup_event list" where
  "sup_sample_events =
     [HealthStep, RunnerReturns (Some ErrLeadershipLost), TakeRunner, SupMain None, SupMain None, HealthStep,
      HealthServes (Some ErrServerClosed), SupMain None, SupMain None, SupMain None]"

theorem supervise_refines_sequential_witness:
  "\<exists>t first serveErr. sup_reach None [] (sup_init sample_obs False) sup_sample_events t \<and>
     sp_ret t = Some (Some ErrLeadershipLost) \<and>
     (Some ErrLeadershipLost, sp_obs t) = runProcessWithHealthServer None [] \<lparr>he_listen = None, he_serve = serveErr\<rparr>
       \<lparr>we_first = first, we_runErr = chan_value (sp_runner t), we_shutdown = sp_shutdownErr t\<rparr> sample_obs"
proof -
  let ?x = "lts_exec sup_enabled (sup_apply None []) sup_sample_events (sup_init sample_obs False)"
  have "case ?x of None \<Rightarrow> False | Some t \<Rightarrow> sp_ret t = Some (Some ErrLeadershipLost)" by code_simp
  then obtain t where t: "?x = Some t" "sp_ret t = Some (Some ErrLeadershipLost)" by (auto split: option.splits)
  note r = lts_exec_reach [OF t(1)]
  show ?thesis using supervise_refines_sequential [OF r t(2)] r t(2) by blast
qed

text \<open>C31: The supervisor has no deadlock. From every state its goroutines can be in, it can return
  within a bounded number of steps, without any signal from outside, when the runner returns.\<close>

theorem supervise_returns:
  assumes "sup_reach lg addr (sup_init s ctx) es t"
  shows "\<exists>fs u. sup_reach lg addr t fs u \<and> sp_ret u \<noteq> None \<and> SupSignal \<notin> set fs \<and> length fs \<le> sup_left t"
  using sup_can_return [OF supervisor.invariant [OF assms sup_init_inv]] .

theorem supervise_returns_witness:
  "\<exists>fs u. sup_reach None [] (sup_init sample_obs False) fs u \<and> sp_ret u \<noteq> None \<and> SupSignal \<notin> set fs"
  using supervise_returns [OF lts_start, of None "[]" sample_obs False] by blast

end
