(* ===== verification/Service.thy ===== *)
theory Service
  imports Supervise
begin

text \<open>
  The service as a whole: what a public client can get from a process that was set up from a
  loaded configuration, after any sequence of refreshes, and where the flags behind its probes are
  left when its goroutines have ended.
\<close>

section \<open>The cache of a running process\<close>

text \<open>The cache after the refresh loop met \<open>evs\<close>, and the ticks it acted on.\<close>

definition cache_after :: "run_event list \<Rightarrow> cache \<Rightarrow> obs \<Rightarrow> cache" where
  "cache_after evs c s = fst (Run json_Marshal evs (c, s))"

fun ticks_of :: "run_event list \<Rightarrow> tick list" where
  "ticks_of [] = []"
| "ticks_of (CtxDone # es) = []"
| "ticks_of (TickerFired t # es) = t # ticks_of es"

text \<open>Every refresh fetches over HTTP.\<close>

definition http_ticks :: "run_event list \<Rightarrow> bool" where
  "http_ticks evs \<longleftrightarrow> (\<forall>t \<in> set (ticks_of evs). \<exists>f env. t_fetch t = Fetch f env)"

lemma Run_exec: "Run json_Marshal evs st = exec json_Marshal (map DoTick (ticks_of evs)) st"
  by (induction evs arbitrary: st rule: ticks_of.induct) (simp_all add: exec_def)

text \<open>Priming followed by the loop is a run from the new cache.\<close>

lemma primed_run:
  "cache_after evs (store (Marshal j) t0 c) s =
     fst (exec json_Marshal (DoPrime (Inr j) t0 t0 # map DoTick (ticks_of evs)) (c, s))"
proof -
  have "fst (exec json_Marshal (DoPrime (Inr j) t0 t0 # map DoTick (ticks_of evs)) (c, s)) =
      apply_good ([(j, t0)] @ concat (map good (map DoTick (ticks_of evs)))) c"
    by (simp add: exec_cache good_def)
  also have "\<dots> = apply_good (concat (map good (map DoTick (ticks_of evs)))) (store (Marshal j) t0 c)"
    by (simp only: apply_good_append [symmetric]) (simp add: apply_good_def)
  also have "\<dots> = cache_after evs (store (Marshal j) t0 c) s"
    by (simp only: cache_after_def Run_exec exec_cache)
  finally show ?thesis by simp
qed

text \<open>Where a served key set comes from: the priming fetch or a refresh.\<close>

definition fetched_at :: "jwks \<Rightarrow> time \<Rightarrow> cache_env \<Rightarrow> run_event list \<Rightarrow> bool" where
  "fetched_at j t0 env evs \<longleftrightarrow>
     (t0 = ce_store env \<and> (\<exists>f. Fetch f (ce_fetch env) = Inr j)) \<or>
     (\<exists>t \<in> set (ticks_of evs). t_fetch t = Inr j \<and> t_store t = t0)"

lemma fetched_valid:
  "fetched_at j t0 env evs \<Longrightarrow> http_ticks evs \<Longrightarrow> valid_jwks j \<and> ParseAndValidate (Marshal j) = Inr j"
  unfolding fetched_at_def http_ticks_def using Fetch_valid http_fetcher.stored_reparses by metis

lemma served_from:
  assumes "setupProcess ph c lg df env s = (Inr pc, s')" and "Load ph evars = Inr c"
    and "c_JWKSCacheMaxAgeHeader c + c_JWKSCacheTTL c < 2 ^ 63"
    and "Current now (cache_after evs (pc_cache pc) s0) = (body, cc)" and "body \<noteq> []"
  shows "\<exists>j t0 n. fetched_at j t0 env evs \<and> body = Marshal j \<and> cc = ''public, max-age='' @ Itoa n \<and> 0 \<le> n \<and>
    max now t0 + n * Second \<le> t0 + c_JWKSCacheMaxAgeHeader c + c_JWKSCacheTTL c + Second \<and>
    (c_JWKSCacheMaxAgeHeader c + c_JWKSCacheTTL c < 2 ^ 22 * Second \<longrightarrow>
       max now t0 + n * Second \<le> t0 + c_JWKSCacheMaxAgeHeader c + c_JWKSCacheTTL c)"
proof -
  let ?c0 = "NewCache (c_JWKSCacheTTL c) (c_JWKSCacheMaxAgeHeader c) (Some lg) df"
  let ?m = "c_JWKSCacheMaxAgeHeader c" and ?t = "c_JWKSCacheTTL c"
  obtain f j0 where f: "Fetch f (ce_fetch env) = Inr j0" and pc: "pc_cache pc = store (Marshal j0) (ce_store env) ?c0"
    using setup_cache [OF assms(1)] by blast
  have "valid_config ph c" using assms(2) by (rule Load_valid)
  then have pos: "0 < ?m" "0 < ?t" by (auto simp: valid_config_def duration_checks_def)
  then have sane: "sane ?c0" using assms(3) by (simp add: sane_def NewCache_def Second_def)
  let ?ops = "DoPrime (Inr j0) (ce_store env) (ce_store env) # map DoTick (ticks_of evs)"
  have "spec_current ?m ?t (last_good ?ops) now = (body, cc)"
    using exec_refines [OF sane NewCache_empty, of now ?ops s0] assms(4)
    unfolding pc primed_run by (simp add: NewCache_def)
  then obtain j t0 where g: "last_good ?ops = Some (j, t0)" and b: "body = Marshal j"
    and a: "max (now - t0) 0 < ?m + ?t" and h: "cc = cache_control (min ?m (?m + ?t - max (now - t0) 0))"
    using assms(5) by (auto simp: spec_current_def split: option.splits prod.splits if_splits)
  obtain n where n: "0 \<le> n" "cc = ''public, max-age='' @ Itoa n"
    "max (now - t0) 0 + n * Second \<le> ?m + ?t + Second"
    "?m + ?t < 2 ^ 22 * Second \<longrightarrow> max (now - t0) 0 + n * Second \<le> ?m + ?t"
    using header_lifetime [of ?m ?t "max (now - t0) 0"] pos assms(3) a h by auto
  have "fetched_at j t0 env evs" using last_good_mem [OF g] f by (auto simp: fetched_at_def)
  moreover have "max now t0 = t0 + max (now - t0) 0" by simp
  ultimately show ?thesis using b n by (intro exI [of _ j] exI [of _ t0] exI [of _ n]) auto
qed

section \<open>Properties\<close>

text \<open>C2: What a public client can get. Take any environment that loads with a maximum age and a
  refresh interval whose sum fits an \<open>int64\<close>, a process that was set up from it, and any number of
  refreshes with any outcomes. A 200 of the public listener carries the discovery document of the
  configured issuer, or the canonical bytes of a key set that one of those fetches returned and the
  gate accepts again. The lifetime of the keys ends no later than the fetch plus maximum age plus
  refresh interval when these sum to less than \<open>2^22\<close> seconds (48 days), and at most a second later
  when they do not.\<close>

theorem public_end_to_end:
  assumes "Load parseHost evars = Inr c" and "setupProcess parseHost c lg df env s = (Inr pc, s')"
    and "c_JWKSCacheMaxAgeHeader c + c_JWKSCacheTTL c < 2 ^ 63" and "http_ticks evs"
    and "pv_current v = Current now (cache_after evs (pc_cache pc) s')"
    and "x_w x = new_response" and "redirect_code menv \<noteq> 200"
    and "w = x_w (public_handler (Some lg) df (pc_allowlist pc) (pc_handler pc) menv clock v r x)"
    and "final_status w = 200"
  shows "rw_body w = Render (c_IssuerURL c) \<or>
    (\<exists>j t0 n. rw_body w = Marshal j \<and> ParseAndValidate (rw_body w) = Inr j \<and> valid_jwks j \<and>
       fetched_at j t0 env evs \<and>
       header_Get ''Cache-Control'' (final_header w) = Some (''public, max-age='' @ Itoa n) \<and>
       0 \<le> n \<and> max now t0 + n * Second \<le> t0 + c_JWKSCacheMaxAgeHeader c + c_JWKSCacheTTL c + Second \<and>
       (c_JWKSCacheMaxAgeHeader c + c_JWKSCacheTTL c < 2 ^ 22 * Second \<longrightarrow>
          max now t0 + n * Second \<le> t0 + c_JWKSCacheMaxAgeHeader c + c_JWKSCacheTTL c))"
proof -
  have h: "Discovery (pc_handler pc) = Render (c_IssuerURL c)"
    using assms(2) by (auto simp: setupProcess_def Let_def buildOIDCHandler_def New_oidc_handler_def
        split: prod.splits sum.splits if_splits)
  obtain body cc where v: "pv_current v = (body, cc)" by fastforce
  have "rw_body w = Discovery (pc_handler pc) \<or> rw_body w = fst (pv_current v) \<and> rw_body w \<noteq> [] \<and>
      header_Get ''Cache-Control'' (final_header w) = Some (snd (pv_current v))"
    using public_200_response [OF assms(6-9)] by blast
  then show ?thesis
  proof (elim conjE disjE)
    assume "rw_body w = Discovery (pc_handler pc)"
    then show ?thesis using h by simp
  next
    assume w: "rw_body w = fst (pv_current v)" "rw_body w \<noteq> []"
      "header_Get ''Cache-Control'' (final_header w) = Some (snd (pv_current v))"
    have cur: "Current now (cache_after evs (pc_cache pc) s') = (body, cc)" using assms(5) v by simp
    have "body \<noteq> []" using w v by simp
    from served_from [OF assms(2,1,3) cur this]
    obtain j t0 n where j: "fetched_at j t0 env evs" "body = Marshal j" "cc = ''public, max-age='' @ Itoa n"
        "0 \<le> n" "max now t0 + n * Second \<le> t0 + c_JWKSCacheMaxAgeHeader c + c_JWKSCacheTTL c + Second"
        "c_JWKSCacheMaxAgeHeader c + c_JWKSCacheTTL c < 2 ^ 22 * Second \<longrightarrow>
          max now t0 + n * Second \<le> t0 + c_JWKSCacheMaxAgeHeader c + c_JWKSCacheTTL c"
      by blast
    then show ?thesis using fetched_valid [OF j(1) assms(4)] w v
      by (intro disjI2 exI [of _ j] exI [of _ t0] exI [of _ n]) auto
  qed
qed

definition allowed_request :: request where
  "allowed_request = (sample_target ''GET'' ''/openid/v1/jwks'')\<lparr>rq_src := Some (Addr4 0x0A000001, 443)\<rparr>"

theorem public_end_to_end_witness:
  "\<exists>(pc :: processConfig) s' w. w = x_w (public_handler (Some (JSONHandler 0)) (JSONHandler 0) (pc_allowlist pc) (pc_handler pc)
       sample_mux_env sample_clock
       \<lparr>pv_current = Current 61 (cache_after [CtxDone] (pc_cache pc) s'), pv_ready = True\<rparr>
       allowed_request sample_exchange) \<and>
     final_status w = 200 \<and>
     (rw_body w = Render (c_IssuerURL sample_config) \<or>
       (\<exists>j t0. rw_body w = Marshal j \<and> ParseAndValidate (rw_body w) = Inr j \<and>
          fetched_at j t0 sample_cache_env [CtxDone]))"
proof -
  let ?lg = "JSONHandler 0" and ?r = allowed_request
  obtain pc s' where st: "setupProcess plain_host sample_config ?lg ?lg sample_cache_env sample_obs = (Inr pc, s')"
    using sample_setup by blast
  let ?v = "\<lparr>pv_current = Current 61 (cache_after [CtxDone] (pc_cache pc) s'), pv_ready = True\<rparr>"
  let ?w = "x_w (public_handler (Some ?lg) ?lg (pc_allowlist pc) (pc_handler pc) sample_mux_env sample_clock ?v
    ?r sample_exchange)"
  have d: "c_JWKSCacheMaxAgeHeader sample_config + c_JWKSCacheTTL sample_config = 120000000000" by code_simp
  then have b: "c_JWKSCacheMaxAgeHeader sample_config + c_JWKSCacheTTL sample_config < 2 ^ 63"
    by simp
  have "list_ex (\<lambda>p. Contains p (Addr4 0x0A000001)) (c_SourceIPAllowlistCIDRs sample_config)" by code_simp
  then have al: "list_ex (\<lambda>p. Contains p (Addr4 0x0A000001)) (al_CIDRs (pc_allowlist pc))"
    using st by (auto simp: setupProcess_def Let_def allowlist_of_def split: prod.splits sum.splits if_splits)
  have "Ready 61 (pc_cache pc)" using setup_ready [OF sample_Load st] d
    by (simp add: sample_cache_env_def)
  then obtain body cc where ne: "Current 61 (cache_after [CtxDone] (pc_cache pc) s') = (body, cc)" "body \<noteq> []"
    by (cases "Current 61 (pc_cache pc)") (simp add: cache_after_def Ready_Current)
  have "findHandler ServeMux ?r = Found RJWKS" by code_simp
  moreover have "rq_src ?r = Some (Addr4 0x0A000001, 443)" by (simp add: allowed_request_def)
  ultimately have ok: "final_status ?w = 200"
    using al ne by (simp add: SrcFromContext_def public_handler_def AuditMiddleware_def Middleware_def mux_ServeHTTP_def
        serve_public_def handleJWKS_def final_status_def sample_exchange_def new_response_def Let_def
        split: prod.splits)
  have ht: "http_ticks [CtxDone]" by (simp add: http_ticks_def)
  have rc: "redirect_code sample_mux_env \<noteq> 200" by (simp add: sample_mux_env_def)
  have pv: "pv_current ?v = Current 61 (cache_after [CtxDone] (pc_cache pc) s')" by simp
  from public_end_to_end [OF sample_Load st b ht pv sample_exchange_new rc refl ok]
  have body: "rw_body ?w = Render (c_IssuerURL sample_config) \<or>
    (\<exists>j t0. rw_body ?w = Marshal j \<and> ParseAndValidate (rw_body ?w) = Inr j \<and>
       fetched_at j t0 sample_cache_env [CtxDone])" by blast
  show ?thesis
    by (rule exI [of _ pc], rule exI [of _ s'], rule exI [of _ ?w]) (intro conjI refl ok body)
qed

text \<open>The leader's runs of the public runner: what the elector's callback starts is \<open>tsrunner.Run\<close>
  on some script, with its result and its reports.\<close>

definition runs_of :: "run_deps \<Rightarrow> ha_event list \<Rightarrow> bool" where
  "runs_of deps es \<longleftrightarrow>
     (\<forall>ups err d. StartedLeading ups err d \<in> set es \<longrightarrow>
        (\<exists>envs o' u. tsrunner_Run deps envs o' = Some (err, u) \<and> r_pub u = ups))"

lemma runs_complete: "runs_of deps es \<Longrightarrow> complete_runs es"
  unfolding runs_of_def complete_runs_def using Run_exit_down settles_pub unfolding pub_down_def by blast

text \<open>C10: A pod that stops leading takes its public surface down. Put the public runner under the
  elector: in every interleaving of the elector's callbacks, of any number of terms, with what the
  runner reports in each of them, once all goroutines have finished neither the flag behind the
  probes nor the gauge says that the surface is up, and the pod is not leader-ready.\<close>

theorem surface_down_at_end:
  assumes "ha_reach env (ha_init env r s d) es t" and "runs_of deps es" and "quiet t"
    and "\<not> PublicReady r" and "publicReadyValue (obs_metrics s) = 0"
  shows "\<not> PublicReady (rt t) \<and> publicReadyValue (obs_metrics (ha_obs t)) = 0 \<and> \<not> state_LeaderReady j (rt t)"
  using ha_quiet_is_down [OF assms(1) runs_complete [OF assms(2)] assms(3-5)] .

text \<open>A term in which the runner serves, is restarted and ends with its context.\<close>

definition sample_term :: "ha_event list" where
  "sample_term =
     [StartedLeading [False, True, False, False] None True] @ replicate 8 (Act 0) @ [ElectorExits] @
     replicate 5 (Act 1) @ replicate 5 (Act 0) @ replicate 5 (Act 1) @ [SelectErr]"

theorem surface_down_at_end_witness:
  "\<exists>t. ha_reach sample_ha_env (ha_init sample_ha_env sample_rt sample_ha_obs False) sample_term t \<and>
     quiet t \<and> \<not> PublicReady (rt t)"
proof -
  have "case ha_exec sample_ha_env sample_term sample_ha of None \<Rightarrow> False | Some t \<Rightarrow> quiet t" by code_simp
  then obtain t where t: "ha_exec sample_ha_env sample_term sample_ha = Some t" "quiet t"
    by (auto simp del: lts_exec.simps split: option.splits)
  have "map_option (\<lambda>(e, u). (e, r_pub u)) (tsrunner_Run sample_deps
      [sample_iter ''Running'' [''a.ts.net''], (sample_iter ''Running'' [''b.ts.net''])\<lparr>it_ctx := True\<rparr>]
      sample_run_obs) = Some (None, [False, True, False, False])" by code_simp
  then have "runs_of sample_deps sample_term" by (auto simp: runs_of_def sample_term_def)
  moreover have "\<not> PublicReady sample_rt" "publicReadyValue (obs_metrics sample_ha_obs) = 0" by code_simp+
  ultimately show ?thesis
    using surface_down_at_end [OF lts_exec_reach [OF t(1) [unfolded sample_ha_def]] _ t(2)]
      lts_exec_reach [OF t(1) [unfolded sample_ha_def]] t(2) by blast
qed

end
