(* ===== verification/Gauges.thy ===== *)
theory Gauges
  imports Cache_Run
begin

text \<open>
  The cache and the recorder: the gauges \<open>jwks_ready\<close> and \<open>jwks_keys\<close> that
  \<open>internal/metrics/metrics.go\<close> computes from atomics of its own, against the cache of
  \<open>internal/oidc/cache.go\<close> whose \<open>Prime\<close> and \<open>refresh\<close> feed them.
\<close>

section \<open>What an operation does to the recorder\<close>

text \<open>The recorder reads its clock after the cache stored the keys.\<close>

fun op_metric :: "cache_op \<Rightarrow> time" where
  "op_metric (DoPrime fetched now mnow) = mnow"
| "op_metric (DoTick t) = t_metric t"

text \<open>The atomics behind the key gauges.\<close>

definition jwks_atomics :: "metrics \<Rightarrow> duration \<times> int \<times> int \<times> bool" where
  "jwks_atomics m = (jwksStaleWindow m, jwksUpdatedAt m, jwksKidCount m, jwksHasValue m)"

lemma jwks_atomics_call [simp]: "jwks_atomics (call c m) = jwks_atomics m"
  by (simp add: jwks_atomics_def call_def)

lemma jwks_atomics_update [simp]:
  "jwks_atomics (updateJWKSState now k m) = (jwksStaleWindow m, UnixNano now, k, True)"
  by (simp add: jwks_atomics_def updateJWKSState_def)

lemma jwksStaleWindow_call [simp]: "jwksStaleWindow (call c m) = jwksStaleWindow m"
  by (simp add: call_def)

lemma exec_op_recorder:
  assumes "obs_metrics s = Some m"
  shows "\<exists>m'. obs_metrics (snd (exec_op json_Marshal p (c, s))) = Some m' \<and>
    jwks_atomics m' =
      (case op_fetch p of
         Inl e \<Rightarrow> jwks_atomics m
       | Inr j \<Rightarrow> (jwksStaleWindow m, UnixNano (op_metric p), int (length (Keys j)), True))"
proof (cases p)
  case (DoPrime fetched now mnow)
  then show ?thesis using assms
    by (cases fetched) (simp_all add: Prime_def json_Marshal_def frame record_if_def record_defs)
next
  case (DoTick t)
  then show ?thesis using assms
    by (cases "t_fetch t"; cases "freshnessLocked (t_fresh t) c")
      (auto simp: on_tick_def refresh_def remainingFreshness_def json_Marshal_def frame record_if_def
        record_defs Let_def)
qed

section \<open>Cache and recorder together\<close>

text \<open>Both hold the same operation's fetch, or neither holds any.\<close>

definition gauge_inv :: "cache_op list \<Rightarrow> cache \<Rightarrow> metrics \<Rightarrow> bool" where
  "gauge_inv ops c m \<longleftrightarrow>
     jwksStaleWindow m = wrap64 (maxAge c + ttl c) \<and> ready c = jwksHasValue m \<and>
     (ready c \<longrightarrow>
        (\<exists>p \<in> set ops. \<exists>j. op_fetch p = Inr j \<and> current c = Marshal j \<and> updatedAt c = op_time p \<and>
           jwksUpdatedAt m = UnixNano (op_metric p) \<and> jwksKidCount m = int (length (Keys j))))"

lemma gauge_inv_op:
  assumes "gauge_inv ops c m" and "obs_metrics s = Some m"
    and "exec_op json_Marshal p (c, s) = (c', s')"
  shows "\<exists>m'. obs_metrics s' = Some m' \<and> gauge_inv (ops @ [p]) c' m'"
proof -
  obtain m' where m': "obs_metrics s' = Some m'"
    and a: "jwks_atomics m' = (case op_fetch p of Inl e \<Rightarrow> jwks_atomics m
      | Inr j \<Rightarrow> (jwksStaleWindow m, UnixNano (op_metric p), int (length (Keys j)), True))"
    using exec_op_recorder [OF assms(2), of p c] assms(3) by auto
  have c': "c' = apply_good (good p) c" using exec_op_cache [of p c s] assms(3) by simp
  have "gauge_inv (ops @ [p]) c' m'"
  proof (cases "op_fetch p")
    case (Inl e)
    then show ?thesis using assms(1) a
      by (auto simp: gauge_inv_def jwks_atomics_def c' good_def apply_good_def)
  next
    case (Inr j)
    then show ?thesis using assms(1) a
      by (auto simp: gauge_inv_def jwks_atomics_def c' good_def apply_good_def store_def)
  qed
  then show ?thesis using m' by blast
qed

lemma gauge_inv_exec:
  assumes "gauge_inv [] c0 m0" and "obs_metrics s0 = Some m0" and "exec json_Marshal ops (c0, s0) = (c, s)"
  shows "\<exists>m. obs_metrics s = Some m \<and> gauge_inv ops c m"
  using assms(3)
proof (induction ops arbitrary: c s rule: rev_induct)
  case (snoc p ops)
  obtain c1 s1 where e: "exec json_Marshal ops (c0, s0) = (c1, s1)" by fastforce
  then show ?case using snoc.IH [OF e] snoc.prems gauge_inv_op by (fastforce simp: exec_def)
qed (use assms(1,2) in \<open>simp add: exec_def\<close>)

text \<open>The recorder that \<open>setupProcess\<close> makes for a cache fits it.\<close>

lemma gauge_inv_init: "gauge_inv [] (NewCache t m lg df) (New_metrics (wrap64 (t + m)))"
  by (simp add: gauge_inv_def NewCache_def New_metrics_def add.commute)

section \<open>The readings\<close>

text \<open>Clock readings the recorder keeps exactly: after 1970, before 2262.\<close>

definition unix_time :: "time \<Rightarrow> bool" where
  "unix_time t \<longleftrightarrow> unix_epoch < t \<and> t < unix_epoch + 2 ^ 63"

lemma unix_time_roundtrip:
  "unix_time t \<Longrightarrow> time_Unix_nano (UnixNano t) = t \<and> UnixNano t \<noteq> 0"
proof -
  assume t: "unix_time t"
  then have "UnixNano t = t - unix_epoch" unfolding UnixNano_def unix_time_def
    by (intro wrap64_id) (simp add: in64_def)
  then show ?thesis using t by (simp add: time_Unix_nano_def unix_time_def)
qed

lemma ready_reading:
  assumes "jwksHasValue m" and "jwksUpdatedAt m = UnixNano t" and "unix_time t"
    and "0 < jwksStaleWindow m" and "in64 (jwksStaleWindow m)"
  shows "jwksReadyValue now (Some m) =
    (if Seconds (max (Sub now t) 0) \<le> Seconds (jwksStaleWindow m) then 1 else 0)"
proof -
  have "(if Seconds (Sub now t) < 0 then 0 else Seconds (Sub now t)) = Seconds (max (Sub now t) 0)"
  proof (cases "Sub now t \<le> 0")
    case True
    then have "Seconds (Sub now t) \<le> 0" by (rule Seconds_nonpos)
    moreover have "Seconds 0 = 0" using Seconds_nonneg [of 0] Seconds_nonpos [of 0] by simp
    ultimately show ?thesis using True by (simp add: max_def)
  next
    case False
    then show ?thesis using Seconds_nonneg [of "Sub now t"] by simp
  qed
  then have "jwksAgeSeconds now (Some m) = Seconds (max (Sub now t) 0)"
    using assms(1,2) unix_time_roundtrip [OF assms(3)] by (simp add: jwksAgeSeconds_def Let_def)
  then show ?thesis using assms by (simp add: jwksReadyValue_def not_le [symmetric])
qed

text \<open>Ready in the cache is ready in the gauge: the recorder's age is at most the cache's.\<close>

lemma reading_of_ready:
  assumes "gauge_inv ops c m" and "sane c" and "Ready now c"
    and "\<forall>p \<in> set ops. op_time p \<le> op_metric p \<and> unix_time (op_metric p)"
  shows "jwksReadyValue now (Some m) = 1 \<and>
    (\<exists>j. fst (Current now c) = Marshal j \<and> jwksKidCountValue now (Some m) = float_of_int (int (length (Keys j))))"
proof -
  have r: "ready c" using assms(3) by (auto simp: Ready_def freshnessLocked_def split: if_splits)
  then obtain p j where p: "p \<in> set ops" and j: "current c = Marshal j" "updatedAt c = op_time p"
      "jwksUpdatedAt m = UnixNano (op_metric p)" "jwksKidCount m = int (length (Keys j))"
    using assms(1) unfolding gauge_inv_def by blast
  let ?w = "maxAge c + ttl c"
  have w: "jwksStaleWindow m = ?w" "0 < ?w" "in64 ?w" 
    using assms(1,2) by (auto simp: gauge_inv_def sane_def in64_def wrap64_id)
  have "exact_age now c < ?w" using assms(2,3) by (auto simp: Ready_def freshness_spec split: if_splits)
  then have "max (Sub now (op_metric p)) 0 \<le> ?w"
    using assms(4) p j(2) w(2) by (force simp: exact_age_def Sub_def)
  then have "Seconds (max (Sub now (op_metric p)) 0) \<le> Seconds ?w" using w(3) by (intro Seconds_mono) auto
  moreover have "unix_time (op_metric p)" "jwksHasValue m" using assms(1,4) p r by (auto simp: gauge_inv_def)
  ultimately have g: "jwksReadyValue now (Some m) = 1" using w j(3) by (simp add: ready_reading)
  have "fst (Current now c) = Marshal j" using assms(3) j(1) by (auto simp: Ready_def Current_def split: prod.splits)
  then show ?thesis using g j(4) by (auto simp: jwksKidCountValue_def)
qed

lemma in64_age: "in64 (max (Sub now t) 0)"
  by (auto simp: Sub_def in64_def max_def)

text \<open>The gauge does not outlast the window by a second.\<close>

lemma reading_bound:
  assumes "jwksReadyValue now (Some m) = 1" and "jwksUpdatedAt m = UnixNano t" and "unix_time t"
    and "jwksStaleWindow m = w" and "0 < w" and "w < (2 ^ 22 - 1) * Second"
  shows "now < t + w + Second"
proof (rule ccontr)
  assume "\<not> ?thesis"
  then have big: "w + Second \<le> max (Sub now t) 0" using assms(5,6) by (auto simp: Sub_def Second_def)
  have v: "jwksHasValue m" using assms(1) by (auto simp: jwksReadyValue_def split: if_splits)
  have "in64 w" using assms(5,6) by (simp add: in64_def Second_def)
  then have le: "Seconds (max (Sub now t) 0) \<le> Seconds w"
    using assms(1,4,5) ready_reading [OF v assms(2,3)] by (auto split: if_splits)
  have fl: "whole_seconds (w + Second) = (w + Second) div Second" "whole_seconds w = w div Second"
    using assms(5,6) by (intro whole_seconds_floor; simp add: Second_def)+
  have "Seconds (w + Second) \<le> Seconds w"
    using order_trans [OF Seconds_mono [OF _ big in64_age] le] assms(5) by (simp add: Second_def)
  moreover have "0 \<le> Seconds (w + Second)" "0 \<le> Seconds w"
    using assms(5) by (auto intro!: Seconds_nonneg simp: Second_def)
  ultimately have "whole_seconds (w + Second) \<le> whole_seconds w"
    by (simp add: whole_seconds_def int_of_float_def floor_mono)
  then show False unfolding fl by (simp add: Second_def)
qed

lemma exec_settings:
  "exec json_Marshal ops (c0, s0) = (c, s) \<Longrightarrow> ttl c = ttl c0 \<and> maxAge c = maxAge c0"
  using exec_cache [of ops c0 s0] by (auto simp: apply_good_def store_def split: list.splits)

definition gauge_obs :: obs where
  "gauge_obs = \<lparr>default_logger = JSONHandler 0, emitted = [], obs_metrics = Some (New_metrics (90 * Second))\<rparr>"

text \<open>They part for an instant: at an age of exactly the stale window the cache is no longer ready and
  the gauge still is, because it asks for an age beyond the window.\<close>

lemma gauge_outlasts_cache:
  "let (c, s) = exec json_Marshal [DoPrime (Inr sample_jwks) (unix_epoch + Second) (unix_epoch + Second)]
         (NewCache (60 * Second) (30 * Second) None (JSONHandler 0), gauge_obs)
   in \<not> Ready (unix_epoch + 91 * Second) c \<and> jwksReadyValue (unix_epoch + 91 * Second) (obs_metrics s) = 1"
  by code_simp

end
