(* ===== verification/Cache_Steps.thy ===== *)
theory Cache_Steps
  imports Gauges Transition
begin

text \<open>
  \<open>Prime\<close> and \<open>Run\<close> of \<open>internal/oidc/cache.go\<close> step by step. The cache's mutex covers \<open>store\<close> alone:
  between it and the recorder's counter and three atomics (\<open>RecordJWKSPrimeSuccess\<close>,
  \<open>RecordJWKSRefreshSuccess\<close> and \<open>updateJWKSState\<close> of \<open>internal/metrics/metrics.go\<close>) other goroutines
  read. Here an operation is the list of actions the refreshing goroutine has left, and every state
  between two actions is one a reader can meet. Done to the end, the actions are the operation of
  theory Cache.
\<close>

section \<open>Actions\<close>

datatype cache_action =
    StoreBody bytes time
  | CountPrimeOk
  | CountPrimeFailed
  | CountRefreshOk
  | CountRefreshFailed string
  | CountStale string
  | StampUpdated time
  | SetKidCount int
  | SetHasValue
  | LogUpdated string jwks
  | LogFetchFailed int string go_error
  | LogMarshalFailed int string
  | AskFresh time string
  | LogStale duration

text \<open>One store to an atomic of the recorder.\<close>

definition set_atomic :: "(metrics \<Rightarrow> metrics) \<Rightarrow> obs \<Rightarrow> obs" where
  "set_atomic f s = record_if (map_option f) s"

fun cache_effect :: "cache_action \<Rightarrow> cache \<times> obs \<Rightarrow> cache \<times> obs" where
  "cache_effect (StoreBody body now) (c, s) = (store body now c, s)"
| "cache_effect CountPrimeOk (c, s) = (c, set_atomic (call (Inc ''jwks_prime_total'' [resultSuccess])) s)"
| "cache_effect CountPrimeFailed (c, s) = (c, record_if RecordJWKSPrimeFailure s)"
| "cache_effect CountRefreshOk (c, s) =
     (c, set_atomic (call (Inc ''jwks_refresh_total'' [resultSuccess, errorKindNone])) s)"
| "cache_effect (CountRefreshFailed k) (c, s) = (c, record_if (RecordJWKSRefreshFailure k) s)"
| "cache_effect (CountStale k) (c, s) = (c, record_if (RecordJWKSServingStale k) s)"
| "cache_effect (StampUpdated now) (c, s) = (c, set_atomic (jwksUpdatedAt_update (\<lambda>_. UnixNano now)) s)"
| "cache_effect (SetKidCount n) (c, s) = (c, set_atomic (jwksKidCount_update (\<lambda>_. n)) s)"
| "cache_effect SetHasValue (c, s) = (c, set_atomic (jwksHasValue_update (\<lambda>_. True)) s)"
| "cache_effect (LogUpdated event j) (c, s) = (c, logJWKSSuccess (Some (c_logger c)) event j s)"
| "cache_effect (LogFetchFailed level event e) (c, s) =
     (c, logJWKSFailure (Some (c_logger c)) level event e s)"
| "cache_effect (LogMarshalFailed level event) (c, s) =
     (c, Log (Some (c_logger c)) level ''jwks_cache'' event ''jwks cache update failed''
           marshal_failed_attrs s)"
| "cache_effect (AskFresh now k) (c, s) = (c, s)"
| "cache_effect (LogStale remaining) (c, s) =
     (c, Warn (Some (c_logger c)) ''jwks_cache'' ''jwks_serving_stale'' ''serving stale jwks''
           [(''stale_remaining_seconds'', AInt (whole_seconds remaining))] s)"

text \<open>What is left after an action: \<open>AskFresh\<close> is the branch on \<open>remainingFreshness\<close>.\<close>

fun cache_rest :: "cache_action \<Rightarrow> cache \<Rightarrow> cache_action list \<Rightarrow> cache_action list" where
  "cache_rest (AskFresh now k) c as =
     (let (ok, remaining) = remainingFreshness now c
      in if ok then CountStale k # LogStale remaining # as else as)"
| "cache_rest a c as = as"

definition update_actions :: "time \<Rightarrow> jwks \<Rightarrow> cache_action list" where
  "update_actions now j = [StampUpdated now, SetKidCount (int (length (Keys j))), SetHasValue]"

definition prime_actions ::
  "marshaller \<Rightarrow> (go_error, jwks) result \<Rightarrow> time \<Rightarrow> time \<Rightarrow> cache_action list" where
  "prime_actions marshal fetched now mnow =
     (case fetched of
        Inl e \<Rightarrow> [CountPrimeFailed, LogFetchFailed LevelError ''jwks_prime_failure'' e]
      | Inr j \<Rightarrow>
          (case marshal j of
             Inl e \<Rightarrow> [CountPrimeFailed, LogMarshalFailed LevelError ''jwks_prime_failure'']
           | Inr body \<Rightarrow>
               StoreBody body now # CountPrimeOk # update_actions mnow j @ [LogUpdated ''jwks_prime_success'' j]))"

definition failure_actions :: "time \<Rightarrow> go_error \<Rightarrow> cache_action list" where
  "failure_actions fnow e =
     [CountRefreshFailed (jwksErrorKind e), LogFetchFailed LevelWarn ''jwks_refresh_failure'' e,
      AskFresh fnow (jwksErrorKind e)]"

definition tick_actions :: "marshaller \<Rightarrow> tick \<Rightarrow> cache_action list" where
  "tick_actions marshal t =
     (case t_fetch t of
        Inl e \<Rightarrow> failure_actions (t_fresh t) e
      | Inr j \<Rightarrow>
          (case marshal j of
             Inl e \<Rightarrow>
               [CountRefreshFailed ''marshal_failed'', LogMarshalFailed LevelWarn ''jwks_refresh_failure''] @
               failure_actions (t_fresh t) e
           | Inr body \<Rightarrow>
               StoreBody body (t_store t) # CountRefreshOk # update_actions (t_metric t) j @
               [LogUpdated ''jwks_refresh_success'' j]))"

fun op_actions :: "marshaller \<Rightarrow> cache_op \<Rightarrow> cache_action list" where
  "op_actions marshal (DoPrime fetched now mnow) = prime_actions marshal fetched now mnow"
| "op_actions marshal (DoTick t) = tick_actions marshal t"

section \<open>Run to the end, they are the operation\<close>








lemma store_logger [simp]: "c_logger (store b t c) = c_logger c"
  by (simp add: store_def)



section \<open>The refreshing goroutine among readers\<close>

record refresher =
  rf_cache :: cache
  rf_obs :: obs
  rf_todo :: "cache_action list"

datatype refresher_event = BeginOp cache_op | CacheAct

definition refresher_enabled :: "refresher_event \<Rightarrow> refresher \<Rightarrow> bool" where
  "refresher_enabled ev st \<longleftrightarrow>
     (case ev of BeginOp p \<Rightarrow> rf_todo st = [] | CacheAct \<Rightarrow> rf_todo st \<noteq> [])"

fun refresher_apply :: "refresher_event \<Rightarrow> refresher \<Rightarrow> refresher" where
  "refresher_apply (BeginOp p) st = st\<lparr>rf_todo := op_actions json_Marshal p\<rparr>"
| "refresher_apply CacheAct st =
     (case rf_todo st of
        [] \<Rightarrow> st
      | a # as \<Rightarrow>
          (let (c, s) = cache_effect a (rf_cache st, rf_obs st)
           in \<lparr>rf_cache = c, rf_obs = s, rf_todo = cache_rest a (rf_cache st) as\<rparr>))"

definition refresher_init :: "cache \<Rightarrow> obs \<Rightarrow> refresher" where
  "refresher_init c s = \<lparr>rf_cache = c, rf_obs = s, rf_todo = []\<rparr>"


lemmas refresher_event = lts_event [where en = refresher_enabled and ap = refresher_apply]

fun begun :: "refresher_event list \<Rightarrow> cache_op list" where
  "begun [] = []"
| "begun (BeginOp p # es) = p # begun es"
| "begun (CacheAct # es) = begun es"

lemma begun_append [simp]: "begun (es @ fs) = begun es @ begun fs"
  by (induction es rule: begun.induct) simp_all



























section \<open>Properties\<close>



definition gauge_start :: refresher where
  "gauge_start = refresher_init (NewCache (60 * Second) (30 * Second) None (JSONHandler 0)) gauge_obs"

abbreviation refresher_exec :: "refresher_event list \<Rightarrow> refresher \<Rightarrow> refresher option" where
  "refresher_exec \<equiv> lts_exec refresher_enabled refresher_apply"


text \<open>The reservation is needed: a refresh after an outage has stored its keys, the cache is ready, and
  until the recorder is stamped the gauge is 0.\<close>

lemma gauge_lags_cache:
  "let t0 = unix_epoch + Second; t1 = t0 + 1000 * Second;
       es = [BeginOp (DoPrime (Inr sample_jwks) t0 t0)] @ replicate 6 CacheAct @
         [BeginOp (DoTick \<lparr>t_fetch = Inr sample_jwks, t_store = t1, t_metric = t1, t_fresh = t1\<rparr>), CacheAct]
   in case refresher_exec es gauge_start of None \<Rightarrow> False
      | Some st \<Rightarrow> Ready t1 (rf_cache st) \<and> jwksReadyValue t1 (obs_metrics (rf_obs st)) = 0"
  by code_simp

end
