(* ===== verification/Observations.thy ===== *)
theory Observations
  imports Service Cache_Steps "HOL-Library.Sublist"
begin

text \<open>
  What the program may write to its observers: the calls it makes on the recorder and the shape of
  its log records. The Prometheus client panics on a call with the wrong number of label values,
  and \<open>docs/reference/metrics.md\<close> promises labels from small fixed sets; both are a typing of the
  calls, and every component keeps it. The locale states what a property of the observations must
  satisfy to be kept by the whole program, once for every such property.
\<close>

section \<open>Types of labels, calls and records\<close>

definition routes :: "string list" where
  "routes = [''discovery'', ''jwks'', ''unknown'']"

definition decisions :: "string list" where
  "decisions =
     [decisionServed, decisionDeniedMissingSrc, decisionDeniedCIDR, decisionJWKSNotReady,
      decisionMethodNotAllowed, decisionNotFound]"

definition results :: "string list" where
  "results = [metricsSuccess, metricsFailure]"

definition reasons :: "string list" where
  "reasons = [''needs_login'', ''serve_failure'']"

text \<open>The error taxonomy: the fetcher's kinds, the runner's and the minter's.\<close>

definition error_kinds :: "string list" where
  "error_kinds =
     [errorKindNone, ''request_build'', ''upstream_request'', ''upstream_status'', ''body_read'',
      ''body_too_large'', ''jwks_invalid'', ''token_read'', ''token_empty'', ''fetch_failed'',
      ''marshal_failed'', ''unexpected_state'', ''context_canceled'', ''deadline_exceeded'',
      ''operation_failed'', ''missing_client_credentials'', ''missing_tags'', ''create_auth_key_failed'',
      ''mint_auth_key_failed'']"

definition label_ok :: "string \<Rightarrow> string \<Rightarrow> bool" where
  "label_ok n v =
     (case map_of [(''route'', routes), (''decision'', decisions), (''result'', results),
             (''reason'', reasons), (''error_kind'', error_kinds)] n of
        Some vs \<Rightarrow> v \<in> set vs
      | None \<Rightarrow> n = ''state'' \<longrightarrow> TrimSpace v \<noteq> [])"

fun typed_call :: "metric_call \<Rightarrow> bool" where
  "typed_call (Inc n vs) =
     (case map_of registered n of None \<Rightarrow> False | Some names \<Rightarrow> list_all2 label_ok names vs)"
| "typed_call (Observe n vs x) =
     (case map_of registered n of None \<Rightarrow> False | Some names \<Rightarrow> list_all2 label_ok names vs)"

fun opens_with_event :: "attr list \<Rightarrow> bool" where
  "opens_with_event ((k1, AString c) # (k2, AString e) # as) \<longleftrightarrow> k1 = ''component'' \<and> k2 = ''event''"
| "opens_with_event as \<longleftrightarrow> False"

definition typed :: "obs \<Rightarrow> bool" where
  "typed s \<longleftrightarrow>
     list_all (\<lambda>r. opens_with_event (lr_attrs r)) (emitted s) \<and>
     (case obs_metrics s of None \<Rightarrow> True | Some m \<Rightarrow> list_all typed_call (calls m))"

lemma typed_call_arity: "typed_call c \<Longrightarrow> call_ok c"
  by (cases c) (auto simp: call_ok_def split: option.splits dest: list_all2_lengthD)

section \<open>The recorder's methods as the program calls them\<close>

inductive recorder_op :: "(metrics option \<Rightarrow> metrics option) \<Rightarrow> bool" where
  request: "route \<in> set routes \<Longrightarrow> d \<in> set decisions \<Longrightarrow> recorder_op (ObserveHTTPRequest route meth d st dur)"
| prime_ok: "recorder_op (RecordJWKSPrimeSuccess now n)"
| prime_failed: "recorder_op RecordJWKSPrimeFailure"
| refresh_ok: "recorder_op (RecordJWKSRefreshSuccess now n)"
| refresh_failed: "k \<in> set error_kinds \<Longrightarrow> recorder_op (RecordJWKSRefreshFailure k)"
| stale: "k \<in> set error_kinds \<Longrightarrow> recorder_op (RecordJWKSServingStale k)"
| start: "res \<in> set results \<Longrightarrow> k = [] \<or> k \<in> set error_kinds \<Longrightarrow> recorder_op (RecordTSNetStart res k)"
| transition: "recorder_op (RecordTSNetStateTransition state)"
| restart: "reason \<in> set reasons \<Longrightarrow> recorder_op (RecordPublicListenerRestart reason)"
| verification: "res \<in> set results \<Longrightarrow> recorder_op (RecordIssuerHostVerification res)"
| mint: "res \<in> set results \<Longrightarrow> k = [] \<or> k \<in> set error_kinds \<Longrightarrow> recorder_op (RecordAuthKeyMint res k)"
| election: "recorder_op (RecordLeaderElectionTransition state)"
| health: "recorder_op RecordHealthServerStart"
| leader: "recorder_op (SetLeader_metric v)"
| public: "recorder_op (SetPublicReady_metric v)"
| prime_counted: "recorder_op (map_option (call (Inc ''jwks_prime_total'' [resultSuccess])))"
| refresh_counted: "recorder_op (map_option (call (Inc ''jwks_refresh_total'' [resultSuccess, errorKindNone])))"
| stamp: "recorder_op (map_option (jwksUpdatedAt_update (\<lambda>_. n)))"
| kid_count: "recorder_op (map_option (jwksKidCount_update (\<lambda>_. n)))"
| has_value: "recorder_op (map_option (jwksHasValue_update (\<lambda>_. True)))"

lemma normalize_kind: "k = [] \<or> k \<in> set error_kinds \<Longrightarrow> normalizeErrorKind k \<in> set error_kinds"
proof -
  have "list_all (\<lambda>k. normalizeErrorKind k \<in> set error_kinds) ([] # error_kinds)" by code_simp
  then show "k = [] \<or> k \<in> set error_kinds \<Longrightarrow> ?thesis" by (auto simp: list_all_iff)
qed

lemma blank_labels: "list_all (\<lambda>v. TrimSpace v \<noteq> []) (results @ reasons)"
  by code_simp

lemma label_ok_simps [simp]:
  "label_ok ''route'' v \<longleftrightarrow> v \<in> set routes" "label_ok ''decision'' v \<longleftrightarrow> v \<in> set decisions"
  "label_ok ''result'' v \<longleftrightarrow> v \<in> set results" "label_ok ''reason'' v \<longleftrightarrow> v \<in> set reasons"
  "label_ok ''error_kind'' v \<longleftrightarrow> v \<in> set error_kinds" "label_ok ''state'' v \<longleftrightarrow> TrimSpace v \<noteq> []"
  "label_ok ''method'' v" "label_ok ''status_code'' v"
  by (simp_all add: label_ok_def)

lemma typed_call_simps [simp]:
  "typed_call (Inc ''http_requests_total'' [a, m, b, c]) \<longleftrightarrow> a \<in> set routes \<and> b \<in> set decisions"
  "typed_call (Observe ''http_request_duration_seconds'' [a, m, b] x) \<longleftrightarrow> a \<in> set routes \<and> b \<in> set decisions"
  "typed_call (Inc ''jwks_prime_total'' [a]) \<longleftrightarrow> a \<in> set results"
  "typed_call (Inc ''jwks_refresh_total'' [a, b]) \<longleftrightarrow> a \<in> set results \<and> b \<in> set error_kinds"
  "typed_call (Inc ''jwks_serving_stale_total'' [b]) \<longleftrightarrow> b \<in> set error_kinds"
  "typed_call (Inc ''tsnet_start_total'' [a, b]) \<longleftrightarrow> a \<in> set results \<and> b \<in> set error_kinds"
  "typed_call (Inc ''tsnet_state_transitions_total'' [a]) \<longleftrightarrow> TrimSpace a \<noteq> []"
  "typed_call (Inc ''public_listener_restarts_total'' [a]) \<longleftrightarrow> a \<in> set reasons"
  "typed_call (Inc ''issuer_host_verification_total'' [a]) \<longleftrightarrow> a \<in> set results"
  "typed_call (Inc ''auth_key_mint_total'' [a, b]) \<longleftrightarrow> a \<in> set results \<and> b \<in> set error_kinds"
  "typed_call (Inc ''leader_election_transitions_total'' [a]) \<longleftrightarrow> TrimSpace a \<noteq> []"
  "typed_call (Inc ''health_server_start_total'' [])"
  by (simp_all add: registered_defs)

text \<open>A method adds typed calls and nothing else.\<close>

lemma result_constants [simp]: "resultSuccess \<in> set results" "resultFailure \<in> set results"
  "metricsSuccess \<in> set results" "metricsFailure \<in> set results" "errorKindNone \<in> set error_kinds"
  by (simp_all add: results_def resultSuccess_def resultFailure_def metricsSuccess_def metricsFailure_def
      error_kinds_def)

lemma recorder_op_calls:
  assumes "recorder_op f"
  shows "\<exists>m' cs. f (Some m) = Some m' \<and> calls m' = calls m @ cs \<and> list_all typed_call cs"
  using assms by cases (auto simp: record_defs normalize_kind simp del: typed_call.simps)

lemma recorder_op_None: "recorder_op f \<Longrightarrow> f None = None"
  by (erule recorder_op.cases) (simp_all add: record_defs)

section \<open>Kinds and decisions the components pass\<close>

lemma fetch_kind_known: "fetch_kind_string k \<in> set error_kinds"
  by (cases k) (simp_all add: error_kinds_def)

lemma mint_kind_known: "mint_kind_string k \<in> set error_kinds"
  by (cases k) (simp_all add: error_kinds_def)

lemma kinds_known [simp]:
  "jwksErrorKind e \<in> set error_kinds" "runnerErrorKind eo \<in> set error_kinds"
  "mintErrorKindOf e \<in> set error_kinds" "''marshal_failed'' \<in> set error_kinds"
proof -
  show "jwksErrorKind e \<in> set error_kinds"
    using fetch_kind_known by (auto simp: jwksErrorKind_def error_kinds_def split: option.splits)
  show "mintErrorKindOf e \<in> set error_kinds"
    using mint_kind_known by (auto simp: mintErrorKindOf_def error_kinds_def split: option.splits go_error.splits)
qed (simp_all add: runnerErrorKind_def error_kinds_def split: option.splits)

lemma reasons_known [simp]: "''needs_login'' \<in> set reasons" "''serve_failure'' \<in> set reasons"
  by (simp_all add: reasons_def)

lemma route_known [simp]: "routeForPath p \<in> set routes"
  by (simp add: routeForPath_def routes_def)

definition decided :: "exchange \<Rightarrow> bool" where
  "decided x \<longleftrightarrow> x_decision x \<in> {None, Some []} \<union> Some ` set decisions"

lemma decision_mem [simp]:
  "decisionServed \<in> set decisions" "decisionDeniedMissingSrc \<in> set decisions"
  "decisionDeniedCIDR \<in> set decisions" "decisionJWKSNotReady \<in> set decisions"
  "decisionMethodNotAllowed \<in> set decisions" "decisionNotFound \<in> set decisions"
  by (simp_all add: decisions_def)

lemma decided_setDecision: "d \<in> set decisions \<Longrightarrow> decided x \<Longrightarrow> decided (setDecision d x)"
  by (auto simp: decided_def setDecision_def split: option.splits)

lemma decided_ops [simp]:
  "decided (x_Set k v x) = decided x" "decided (x_Del k x) = decided x"
  "decided (rec_WriteHeader c x) = decided x" "decided (rec_Write b x) = decided x"
  "decided (http_Error m c x) = decided x" "decided (http_Redirect env p r x) = decided x"
  by (simp_all add: decided_def frame)

lemma decided_inner:
  assumes "decided x"
  shows "decided (Middleware cfg (mux_ServeHTTP ServeMux env (serve_public h v)) r x)"
proof -
  have serve: "decided (serve_public h v rt x)" for rt
    using assms by (cases rt) (simp_all add: serve_public_def handleDiscovery_def handleJWKS_def
        MarkJWKSNotReady_def decided_setDecision split: prod.splits)
  have "decided (mux_ServeHTTP ServeMux env (serve_public h v) r x)"
    using assms serve by (simp add: mux_ServeHTTP_def split: route.splits)
  then show ?thesis using assms by (auto simp: Middleware_def decided_setDecision split: option.splits)
qed

lemma audit_decision_known: "decided y \<Longrightarrow> audit_decision y \<in> set decisions"
  by (auto simp: decided_def audit_decision_def decisionFromStatus_def)

section \<open>What every component keeps\<close>

lemmas log_operations =
  logJWKSSuccess_def logJWKSFailure_def logStateChange_def logStartFailure_def logListenerFailure_def
  logListenerRestart_def logStatePollFailure_def logHTTPShutdownFailure_def logIssuerVerified_def
  logIssuerMismatch_def logMintFailure_def logLeadershipAcquired_def logLeadershipLost_def
  logObservedLeader_def logLeaderRunnerExit_def logLeaderElectionInitialized_def logProcessStop_def
  log_defs

text \<open>A property of the observations, after a turn of the runner's loop.\<close>

definition turn_kept :: "(obs \<Rightarrow> bool) \<Rightarrow> turn \<Rightarrow> bool" where
  "turn_kept ok t \<longleftrightarrow> (case t of Stuck \<Rightarrow> True | Exit err s \<Rightarrow> ok (r_obs s) | Turn s \<Rightarrow> ok (r_obs s))"

locale observation_invariant =
  fixes ok :: "obs \<Rightarrow> bool"
  assumes log: "ok s \<Longrightarrow> ok (Log l v c e m as s)"
    and count: "recorder_op f \<Longrightarrow> ok s \<Longrightarrow> ok (record_if f s)"
begin

lemma records:
  "ok s \<Longrightarrow> ok (record_if (RecordJWKSPrimeSuccess now n) s)" "ok s \<Longrightarrow> ok (record_if RecordJWKSPrimeFailure s)"
  "ok s \<Longrightarrow> ok (record_if (RecordJWKSRefreshSuccess now n) s)"
  "ok s \<Longrightarrow> ok (record_if (RecordTSNetStateTransition state) s)"
  "ok s \<Longrightarrow> ok (record_if (RecordLeaderElectionTransition state) s)"
  "ok s \<Longrightarrow> ok (record_if RecordHealthServerStart s)"
  "ok s \<Longrightarrow> ok (record_if (SetLeader_metric b) s)" "ok s \<Longrightarrow> ok (record_if (SetPublicReady_metric b) s)"
  "ok s \<Longrightarrow> k \<in> set error_kinds \<Longrightarrow> ok (record_if (RecordJWKSRefreshFailure k) s)"
  "ok s \<Longrightarrow> k \<in> set error_kinds \<Longrightarrow> ok (record_if (RecordJWKSServingStale k) s)"
  "ok s \<Longrightarrow> reason \<in> set reasons \<Longrightarrow> ok (record_if (RecordPublicListenerRestart reason) s)"
  "ok s \<Longrightarrow> res \<in> set results \<Longrightarrow> ok (record_if (RecordIssuerHostVerification res) s)"
  "ok s \<Longrightarrow> res \<in> set results \<Longrightarrow> k \<in> set error_kinds \<Longrightarrow> ok (record_if (RecordTSNetStart res k) s)"
  "ok s \<Longrightarrow> res \<in> set results \<Longrightarrow> ok (record_if (RecordTSNetStart res []) s)"
  "ok s \<Longrightarrow> res \<in> set results \<Longrightarrow> k \<in> set error_kinds \<Longrightarrow> ok (record_if (RecordAuthKeyMint res k) s)"
  "ok s \<Longrightarrow> res \<in> set results \<Longrightarrow> ok (record_if (RecordAuthKeyMint res []) s)"
  by (intro count recorder_op.intros; simp)+

lemma cache_tick: "ok s \<Longrightarrow> ok (snd (on_tick marshal t (c, s)))"
  by (auto simp: on_tick_def refresh_def Let_def log_operations log records
      split: sum.splits prod.splits option.splits)

lemma cache_prime: "ok s \<Longrightarrow> ok (snd (fst (Prime marshal f now mnow (c, s))))"
  by (auto simp: Prime_def log_operations log records split: sum.splits)

lemma cache_run: "ok (snd st) \<Longrightarrow> ok (snd (Run marshal evs st))"
proof (induction marshal evs st rule: Run.induct)
  case (3 marshal t es st)
  then show ?case using cache_tick [of "snd st" marshal t "fst st"] by simp
qed simp_all

lemma audited:
  assumes "ok (x_obs x)"
  shows "ok (x_obs (public_handler lg df cfg h env clock v r x))"
proof -
  let ?y = "Middleware cfg (mux_ServeHTTP ServeMux env (serve_public h v)) r
    (x\<lparr>x_rec := Some (0, False), x_decision := Some []\<rparr>)"
  have "decided ?y" by (intro decided_inner) (simp add: decided_def)
  then have d: "audit_decision ?y \<in> set decisions" by (rule audit_decision_known)
  have "x_obs ?y = x_obs x"
    by (simp add: Middleware_def mux_ServeHTTP_def frame split: option.splits route.splits)
  then show ?thesis using assms d
    by (simp add: public_handler_def AuditMiddleware_def Let_def log_operations log count recorder_op.request)
qed

lemma minted: "ok s \<Longrightarrow> ok (snd (Mint m df ck s))"
  by (auto simp: Mint_def mint_failure_def Let_def log_operations log records split: sum.splits)

lemma watched: "ok s \<Longrightarrow> ok (watchForLoginNeeded lg r os s)"
  by (induction lg r os s rule: watchForLoginNeeded.induct)
    (auto simp: log_operations log Let_def split: sum.splits)

lemma shut: "ok s \<Longrightarrow> ok (shutdown lg out s)"
  by (simp add: shutdown_def log_operations log split: option.splits)

lemma on_log: "ok (f (r_obs s)) \<Longrightarrow> ok (r_obs (on_log f s))"
  by (simp add: on_log_def)

lemma served: "ok (r_obs s) \<Longrightarrow> ok (r_obs (fst (serveOnce cfg env r s)))"
  by (auto simp: serveOnce_def Let_def on_log_def SetPub_def watched shut log_operations log records
      split: option.splits serve_arm.splits)

lemma verified: "ok (r_obs s) \<Longrightarrow> ok (r_obs (fst (verifyIssuerHost cfg out r s)))"
  by (auto simp: verifyIssuerHost_def on_log_def log_operations log records split: sum.splits)

lemma serve_step_kept: "ok (r_obs s) \<Longrightarrow> ok (r_obs (fst (runServeStep cfg ds env r s)))"
  using served verified [of s cfg ds r]
  by (auto simp: runServeStep_def split: option.splits prod.splits)

lemma sleep_obs: "r_obs (do_sleep s) = r_obs s" "r_obs (do_reset s) = r_obs s"
  "r_obs (close_server r s) = r_obs s"
  by (simp_all add: do_sleep_def do_reset_def close_server_def Let_def split: prod.splits)

lemma handled: "ok (r_obs s) \<Longrightarrow> ok (r_obs (fst (handleServe cfg ds env r s)))"
  using serve_step_kept [of "do_reset s" cfg ds env r]
  by (auto simp: handleServe_def sleep_obs on_log_def log_operations log records split: option.splits prod.splits)

lemma reauthenticated: "ok (r_obs s) \<Longrightarrow> ok (r_obs (snd (handleReauth d ck r s)))"
  using minted [of "r_obs s" "d_minter d" "d_slog_default d" ck]
  by (auto simp: handleReauth_def Let_def sleep_obs split: sum.splits prod.splits)

lemma acted: "ok (r_obs s) \<Longrightarrow> turn_kept ok (processLoopAction d env state err r s)"
  using handled [of "on_log (record_if (RecordTSNetStart metricsSuccess [])) s" "d_cfg d" "it_domains env"
      "it_serve env" r] reauthenticated [of s d "it_create_key env" r]
  by (auto simp: processLoopAction_def processServeAction_def processRetryAction_def turn_kept_def Let_def
      sleep_obs on_log_def log_operations log records split: loopAction.splits prod.splits option.splits)

lemma turned: "ok (r_obs s) \<Longrightarrow> turn_kept ok (iteration d env s)"
proof -
  assume s: "ok (r_obs s)"
  then have e: "ok (r_obs (snd (ensureServer d s)))" by (simp add: ensureServer_def Let_def split: option.splits)
  have t: "ok (r_obs u) \<Longrightarrow> ok (r_obs (recordStateTransition cfg state u))" for u cfg state
    by (simp add: recordStateTransition_def on_log_def log_operations log records)
  show ?thesis using s e by (auto simp: iteration_def turn_kept_def Let_def intro!: acted [unfolded turn_kept_def] t
      split: prod.splits option.splits)
qed

lemma looped: "run_loop d envs s = Some (err, t) \<Longrightarrow> ok (r_obs s) \<Longrightarrow> ok (r_obs t)"
proof (induction envs arbitrary: s)
  case (Cons env envs)
  have "turn_kept ok (iteration d env s)" using Cons.prems(2) by (rule turned)
  then show ?case using Cons by (auto simp: turn_kept_def deferred_close_def sleep_obs split: turn.splits option.splits)
qed simp

lemma runner_run: "tsrunner_Run d envs s = Some (err, t) \<Longrightarrow> ok s \<Longrightarrow> ok (r_obs t)"
  unfolding tsrunner_Run_def by (erule looped) (simp add: runner_init_def)

lemma ha_act_kept: "ok (ha_obs s) \<Longrightarrow> ok (ha_obs (ha_effect env a s))"
  by (cases a) (simp_all add: log_operations log records)

lemma serve_main_kept: "ok (r_obs s) \<Longrightarrow> ok (r_obs (main_effect cfg out a s))"
  by (cases a) (simp_all add: SetPub_def on_log_def shut log_operations log records)

end

text \<open>So does every interleaving of the systems of goroutines.\<close>

sublocale observation_invariant \<subseteq> ha: state_invariant ha_enabled "ha_apply env" "\<lambda>s. ok (ha_obs s)" for env
proof
  fix ev and s :: ha_state assume "ok (ha_obs s)"
  then show "ok (ha_obs (ha_apply env ev s))"
    by (cases ev) (auto simp: ha_act_def intro: ha_act_kept split: list.splits option.splits)
qed

sublocale observation_invariant \<subseteq> serving: state_invariant serve_enabled "serve_apply cfg r" "\<lambda>s. ok (r_obs (ss_run s))" for cfg r
proof
  fix ev and s :: serve_sys assume "ok (r_obs (ss_run s))"
  then show "ok (r_obs (ss_run (serve_apply cfg r ev s)))"
    by (cases ev) (auto simp: on_log_def log_operations log intro: serve_main_kept
        split: sum.splits reporter.splits option.splits list.splits)
qed

lemma sup_control_obs: "sp_obs (sup_control out a st) = sp_obs st"
  by (cases a) simp_all

sublocale observation_invariant \<subseteq> supervisor: state_invariant sup_enabled "sup_apply lg addr" "\<lambda>s. ok (sp_obs s)" for lg addr
proof
  fix ev and s :: sup_sys assume "ok (sp_obs s)"
  then show "ok (sp_obs (sup_apply lg addr ev s))"
    by (cases ev) (auto simp: sup_control_obs log_operations log records
        split: list.splits option.splits health_action.splits)
qed

text \<open>The refreshing goroutine has only known kinds left to count.\<close>

fun known_kind :: "cache_action \<Rightarrow> bool" where
  "known_kind (CountRefreshFailed k) = (k \<in> set error_kinds)"
| "known_kind (CountStale k) = (k \<in> set error_kinds)"
| "known_kind (AskFresh t k) = (k \<in> set error_kinds)"
| "known_kind a = True"

lemma op_kinds: "list_all known_kind (op_actions marshal p)"
  by (cases p) (simp_all add: prime_actions_def tick_actions_def failure_actions_def update_actions_def
      split: sum.splits)

lemma rest_kinds: "list_all known_kind (a # as) \<Longrightarrow> list_all known_kind (cache_rest a c as)"
  by (cases a) (auto split: prod.splits)

context observation_invariant
begin

lemma cache_effect_kept: "ok s \<Longrightarrow> known_kind a \<Longrightarrow> ok (snd (cache_effect a (c, s)))"
  by (cases a) (simp_all add: set_atomic_def log_operations log records recorder_op.intros count)

end

sublocale observation_invariant \<subseteq> refreshing: state_invariant refresher_enabled refresher_apply
  "\<lambda>st. ok (rf_obs st) \<and> list_all known_kind (rf_todo st)"
proof
  fix ev and st :: refresher
  assume "ok (rf_obs st) \<and> list_all known_kind (rf_todo st)"
  then show "ok (rf_obs (refresher_apply ev st)) \<and> list_all known_kind (rf_todo (refresher_apply ev st))"
    using cache_effect_kept [of "rf_obs st" "hd (rf_todo st)" "rf_cache st"]
      rest_kinds [of "hd (rf_todo st)" "tl (rf_todo st)" "rf_cache st"] op_kinds
    by (cases ev) (auto split: list.splits prod.splits)
qed

text \<open>The process also sets the default logger and starts with a recorder of its own.\<close>

locale process_invariant = observation_invariant +
  assumes logger: "ok s \<Longrightarrow> ok (s\<lparr>default_logger := h\<rparr>)"
    and fresh: "ok s \<Longrightarrow> ok (s\<lparr>obs_metrics := Some (New_metrics w)\<rparr>)"
begin

lemma set_up: "ok s \<Longrightarrow> ok (snd (setupProcess ph c lg df env s))"
proof -
  have started: "ok (snd (startCache c lg df env u))" if "ok u" for u
    using that cache_prime by (auto simp: startCache_def Let_def split: sum.splits prod.splits option.splits)
       (metis fst_conv snd_conv)+
  assume "ok s"
  then have "ok (snd (startCache c lg df env (s\<lparr>obs_metrics := Some (New_metrics
      (wrap64 (c_JWKSCacheTTL c + c_JWKSCacheMaxAgeHeader c)))\<rparr>)))"
    by (intro started fresh)
  then show ?thesis by (auto simp: setupProcess_def Let_def records split: prod.splits sum.splits)
qed

lemma supervised: "ok s \<Longrightarrow> ok (snd (runProcessWithHealthServer lg addr henv wenv s))"
  by (auto simp: runProcessWithHealthServer_def startHealthServer_def Let_def log_operations log records
      split: option.splits)

lemma stopped: "ok s \<Longrightarrow> ok (logProcessStop lg e s)"
  by (simp add: log_operations log)

lemma whole_run: "ok s \<Longrightarrow> ok (snd (run_main boot env s))"
proof -
  assume s: "ok s"
  have ok1: "ok (snd (run_main boot env s))"
    if "\<And>c lg u attrs. ok (Info (Some lg) ''process'' ''process_start'' ''process starting'' attrs
          (s\<lparr>default_logger := lg\<rparr>))"
    using that set_up supervised stopped logger s unfolding run_main_def Let_def
    by (auto simp: split_beta split: option.splits sum.splits)
  show ?thesis by (rule ok1) (simp add: log_operations log logger s)
qed

lemma whole_program: "ok s \<Longrightarrow> ok (snd (main_program env s))"
  using whole_run [of "s\<lparr>default_logger := bootstrapLogger (pe_vars env)\<rparr>"] logger
  by (simp add: main_program_def Let_def split_beta)

end

section \<open>The two properties the program keeps\<close>

lemma opens_Log: "opens_with_event ([(''component'', AString c), (''event'', AString e)] @ as)"
  by simp

interpretation typing: process_invariant typed
proof
  fix s :: obs and l v c e m as
  assume "typed s"
  then show "typed (Log l v c e m as s)"
    by (simp add: typed_def frame Log_def LogAttrs_def Let_def)
next
  fix f s assume f: "recorder_op f" and s: "typed s"
  show "typed (record_if f s)"
  proof (cases "obs_metrics s")
    case (Some m)
    obtain m' cs where "f (Some m) = Some m'" "calls m' = calls m @ cs" "list_all typed_call cs"
      using recorder_op_calls [OF f] by blast
    then show ?thesis using s Some by (simp add: typed_def record_if_def)
  qed (use s in \<open>simp add: record_if_def\<close>)
qed (simp_all add: typed_def New_metrics_def)

text \<open>No record disappears and no counter goes down.\<close>

definition extends :: "obs \<Rightarrow> obs \<Rightarrow> bool" where
  "extends s0 s \<longleftrightarrow>
     prefix (emitted s0) (emitted s) \<and>
     (case obs_metrics s0 of
        None \<Rightarrow> True
      | Some m0 \<Rightarrow> (case obs_metrics s of None \<Rightarrow> False | Some m \<Rightarrow> prefix (calls m0) (calls m)))"

interpretation growth: observation_invariant "extends s0" for s0
proof
  fix s :: obs and l v c e m as
  have "prefix (emitted s) (emitted (Log l v c e m as s))" by (simp add: Log_def LogAttrs_def Let_def)
  moreover assume "extends s0 s"
  ultimately show "extends s0 (Log l v c e m as s)"
    unfolding extends_def Log_metrics by (blast intro: prefix_order.trans)
next
  fix f s assume f: "recorder_op f" and s: "extends s0 s"
  show "extends s0 (record_if f s)"
  proof (cases "obs_metrics s")
    case (Some m)
    obtain m' cs where "f (Some m) = Some m'" "calls m' = calls m @ cs"
      using recorder_op_calls [OF f] by blast
    then show ?thesis using s Some by (auto simp: extends_def record_if_def split: option.splits)
  qed (use s in \<open>simp add: record_if_def\<close>)
qed

lemma extends_refl: "extends s s"
  by (simp add: extends_def split: option.splits)

lemma runner_only_adds:
  "tsrunner_Run d envs s = Some (err, t) \<Longrightarrow> extends s (r_obs t)"
  using growth.runner_run extends_refl by blast

lemma refresh_only_adds: "extends s (snd (Run marshal evs (c, s)))"
  using growth.cache_run [of s "(c, s)"] extends_refl by simp

section \<open>Properties\<close>

text \<open>C16: What the program tells its observers is well typed. From typed observations, the whole
  process, a refresh loop, any run of the public runner, any public request, and every interleaving
  of the leader-election, serving and supervision goroutines make only recorder calls that name a
  registered instrument with one value per label, so none panics; the route, decision, result,
  reason and error kind labels come from the documented sets; and every log record opens with its
  component and event.\<close>

theorem observations_typed:
  assumes "typed s"
  shows "typed (snd (main_program penv s)) \<and> typed (snd (Run marshal evs (c, s))) \<and>
    (\<forall>err u. tsrunner_Run d envs s = Some (err, u) \<longrightarrow> typed (r_obs u)) \<and>
    typed (x_obs (public_handler lg df cfg h menv clock v r (x\<lparr>x_obs := s\<rparr>))) \<and>
    (\<forall>es t. ha_reach henv (ha_init henv rs s done) es t \<longrightarrow> typed (ha_obs t)) \<and>
    (\<forall>es t. serve_reach rcfg srv0 (serve_init (u0\<lparr>r_obs := s\<rparr>) ctx) es t \<longrightarrow> typed (r_obs (ss_run t))) \<and>
    (\<forall>es t. sup_reach slg addr (sup_init s ctx) es t \<longrightarrow> typed (sp_obs t))"
proof (intro conjI allI impI)
  show "typed (snd (main_program penv s))" using assms by (rule typing.whole_program)
  show "typed (snd (Run marshal evs (c, s)))" using typing.cache_run assms by simp
  show "tsrunner_Run d envs s = Some (err, u) \<Longrightarrow> typed (r_obs u)" for err u
    using typing.runner_run assms by blast
  show "typed (x_obs (public_handler lg df cfg h menv clock v r (x\<lparr>x_obs := s\<rparr>)))"
    using typing.audited assms by simp
  show "typed (ha_obs t)" if "ha_reach henv (ha_init henv rs s done) es t" for es t
    using typing.ha.invariant [OF that] assms
    by (simp add: ha_init_def log_operations typing.log)
  show "typed (r_obs (ss_run t))" if "serve_reach rcfg srv0 (serve_init (u0\<lparr>r_obs := s\<rparr>) ctx) es t" for es t
    using typing.serving.invariant [OF that] assms by (simp add: serve_init_def SetPub_def)
  show "typed (sp_obs t)" if "sup_reach slg addr (sup_init s ctx) es t" for es t
    using typing.supervisor.invariant [OF that] assms by (simp add: sup_init_def)
qed

theorem observations_typed_witness:
  "typed (x_obs (public_handler None (JSONHandler 0) (sample_cfg\<lparr>al_Enabled := False\<rparr>)
       (New_oidc_handler ''https://a'' Second) sample_mux_env sample_clock sample_view
       (sample_target ''GET'' ''/'') (sample_exchange\<lparr>x_obs := sample_ha_obs\<rparr>))) \<and>
   typed (ha_obs lost_end) \<and> emitted (ha_obs lost_end) \<noteq> []"
proof -
  have t: "typed sample_ha_obs" by code_simp
  have "emitted (ha_obs lost_end) \<noteq> []" by code_simp
  then show ?thesis
    using observations_typed [OF t, THEN conjunct2, THEN conjunct2, THEN conjunct2, THEN conjunct2, THEN conjunct1,
        rule_format, OF lost_run]
    by (intro conjI observations_typed [OF t, THEN conjunct2, THEN conjunct2, THEN conjunct2, THEN conjunct1])
qed

end
