(* ===== verification/Spec2Isabelle.thy ===== *)
theory Spec2Isabelle
  imports Observations
begin

text \<open>
  A model of k8s-aws-oidc, the bridge that republishes a private Kubernetes cluster's OIDC
  discovery document and signing keys over Tailscale Funnel, and the theorems that make it correct.

  The program. At startup \<open>cmd/oidc-proxy/main.go\<close> reads its settings from the environment
  (\<open>internal/config\<close>), fetches the cluster's key set once (\<open>internal/oidc/fetcher.go\<close>), checks it
  (\<open>jwks.go\<close>) and stores its canonical bytes in a cache (\<open>cache.go\<close>) that a background loop
  refreshes and that keeps serving the last good set for a bounded stale window. A health server
  answers probes (\<open>handler.go\<close>, \<open>state.go\<close>). The public side is a loop (\<open>internal/tsrunner\<close>) that
  brings up a tsnet node, checks that its certificate names the issuer's host, and serves the
  discovery document (\<open>discovery.go\<close>) and the keys behind a source allowlist and an audit
  (\<open>internal/netx\<close>). With leader election (\<open>internal/leader\<close>, \<open>ha.go\<close>) only the lease holder runs
  the public side. Every part logs through \<open>internal/logx\<close> and counts in \<open>internal/metrics\<close>.

  Layers of the development.

  (1) Go's library, as far as the source uses it: \<open>Go_Text\<close>, \<open>Go_Utf8\<close>, \<open>Go_Json\<close>,
  \<open>Go_Base64\<close>, \<open>Go_Float\<close>, \<open>Go_Time\<close>, \<open>Go_Duration\<close>, \<open>Go_Netip\<close>, \<open>Go_Url\<close>, \<open>Go_Http\<close>. Strings
  are byte lists; a \<open>time.Duration\<close> is an \<open>int\<close> with the 64-bit wrap-around written out where the
  source computes with it; a float64 is a rational rounded to 53 bits. \<open>Prelude\<close> holds what all
  share.

  (2) Errors and effects: \<open>Errors\<close> (error chains with \<open>errors.Is\<close> and \<open>errors.As\<close>), \<open>Metrics\<close>
  (the recorder: its atomics and the trace of instrument calls), \<open>Logx\<close> (loggers, and the state
  \<open>obs\<close> of emitted records and recorder that every component threads).

  (3) Components, each a theory that follows its file: \<open>Jwks\<close> and \<open>Jwks_Roundtrip\<close>
  (\<open>internal/oidc/jwks.go\<close>), \<open>Oidc_Log\<close> (\<open>logging.go\<close>), \<open>Fetcher\<close>, \<open>Cache\<close> and \<open>Cache_Run\<close>,
  \<open>Discovery\<close>, \<open>Netx\<close>, \<open>Handler\<close> (with the whole public stack), \<open>Runtime_State\<close> (\<open>state.go\<close>),
  \<open>Elector\<close>, \<open>HA\<close> (\<open>ha.go\<close>), \<open>Config\<close>, \<open>Tsrunner_Log\<close>, \<open>Minter\<close>, \<open>Tsnet_Adapter\<close>, \<open>Runner\<close>.

  (4) The parts put together. \<open>Process\<close> (\<open>main.go\<close>) assembles the components and ends the process;
  \<open>Service\<close> follows a public request through a process that was set up and refreshed, and the
  public runner under the elector; \<open>Gauges\<close> sets the recorder's key gauges against the cache.

  (5) Concurrency. \<open>Transition\<close> has transition systems, reachability and invariants; \<open>Serve\<close>
  (\<open>serveOnce\<close> of \<open>runner.go\<close>), \<open>Supervise\<close> (\<open>runProcessWithHealthServer\<close> of \<open>main.go\<close>), \<open>HA\<close>
  (\<open>runWithLeaderElection\<close> of \<open>ha.go\<close>) and \<open>Cache_Steps\<close> (\<open>Prime\<close> and \<open>Run\<close> of \<open>cache.go\<close> with
  \<open>updateJWKSState\<close> of \<open>metrics.go\<close>) are four of them. \<open>Observations\<close> shows of all the layers what
  may reach the recorder and the log.

  How the code is rendered. A struct is a record with the source's fields, prefixed where two
  structs share a name. A method is a function of the receiver's state that returns the new one,
  together with the \<open>obs\<close> it leaves. An error result is the left side of a sum, or an option where
  nothing else is returned. What a call outside the program gives is an argument: the token file
  and the upstream's answer (\<open>fetch_env\<close>), clock readings, the outcomes of tsnet, of the control
  plane and of the servers (\<open>iter_env\<close>, \<open>serve_env\<close>, \<open>wait_env\<close>), the host rules of \<open>url.Parse\<close>
  (\<open>parseHost\<close>) and the code and text of a redirect, which vary between Go releases.

  Interleaving. In the four transition systems a goroutine is the list of the actions it has left, an
  action being one access to shared state, one log record, one send or one receipt; any goroutine may
  move next. \<open>HA\<close> has the elector, its callbacks, the public runner and the caller, \<open>Serve\<close> the serving goroutine,
  the watcher and their caller, \<open>Supervise\<close> the health server, the runner and their caller.
  \<open>Cache_Steps\<close> has the one goroutine that writes the cache: the mutex of \<open>cache.go\<close> covers \<open>store\<close>
  alone, so the store, the counter and the three atomics of the recorder are separate actions, and a
  reader may come between any two. The sequential definitions in \<open>Runner\<close>, \<open>Process\<close> and \<open>Cache\<close> are
  what these systems amount to: \<open>serve_refines_sequential\<close> (up to the order of log records),
  \<open>supervise_refines_sequential\<close> and \<open>run_op_actions\<close> say so. A reading of the cache takes its lock and is
  one step; a request reads the cache twice, and the two readings are separate arguments. Reading a
  gauge is taken as one step.

  Loops. The refresh loop, the start probe, the watcher and the runner's loop recurse over the
  list of what they meet (ticks, polls, turns), so every finite run of any length is covered and
  no fuel bounds them. \<open>run_loop\<close> and \<open>probe_loop\<close> give None while they have not returned; when the
  start probe returns is a theorem of its own, in both directions. That the concurrent parts can
  always return is shown with a measure on the actions left.

  What the lemmas show. Round trip and gate of the key set (\<open>Jwks_Roundtrip\<close>); success and error
  behaviour of a fetch (\<open>Fetcher\<close>); refinement of the cache to "the last good fetch", freshness
  bounds, metrics and secrecy of a tick (\<open>Cache_Run\<close>); the gauges that follow the cache
  (\<open>Cache_Steps\<close>); decision, response and audit of every public request (\<open>Handler\<close>); the constraints
  a loaded configuration satisfies, and the two issuers it should not have accepted (\<open>Config\<close>); order
  of the probes (\<open>Runtime_State\<close>); what the supervisors return, what they leave raised and that they
  return, in every interleaving (\<open>HA\<close>, \<open>Serve\<close>, \<open>Supervise\<close>); no leaked server, verification before
  serving, backoff and re-authentication (\<open>Runner\<close>); startup and exit (\<open>Process\<close>); what a public
  client can get (\<open>Service\<close>); and the types of all observations (\<open>Observations\<close>).

  Interfaces. \<open>jwks_fetcher\<close>: what the cache relies on in a fetcher, interpreted by \<open>Fetch\<close>.
  \<open>inner_handler\<close>: what allowlist and audit rely on in the handler they wrap, interpreted by the
  public mux and by the allowlist over it. \<open>jwks_provider\<close>: what the handlers rely on in the
  cache, interpreted by \<open>Current\<close> and \<open>Ready\<close>. \<open>tsnet_server\<close>: what the runner relies on in a
  server, interpreted by the adapter. \<open>trace_invariant\<close> and \<open>state_invariant\<close>: what an invariant of a
  transition system needs, interpreted by the invariants of the four systems.
  \<open>observation_invariant\<close> and its extension \<open>process_invariant\<close>: what a property of log and recorder
  needs to be kept by every component, by the four systems (as sublocales of \<open>state_invariant\<close>) and
  by the process; interpreted by the typing of the observations, the former also by their growth.

  Bounds. \<open>fl\<close> has no exponent range; the magnitudes that occur are far from its ends. Truncating
  \<open>Seconds()\<close> gives the whole seconds for durations below \<open>2^22\<close> seconds (48 days), and at most a
  second more for any other: the theorems on the lifetime of a served key set carry that second, and
  drop it below the 48 days. Sums of durations wrap at 64 bits; theorems that need the absence of
  overflow say so, and \<open>stale_window_overflow\<close> shows what happens without it.

  Not modelled. The Prometheus registry and its text format (a call on an instrument is an entry of a
  trace), TLS and connection handling of \<open>net/http\<close>, tsnet, the Tailscale client, client-go and the
  OAuth client, which enter by their outcomes, signals, the byte format of log records, and the texts
  of configuration errors (their constructors are kept).
\<close>

end
